(* ===== verification/Vk_Prelude.thy ===== *)
theory Vk_Prelude
  imports Main "HOL-Library.Char_ord" "HOL-Library.List_Lexorder"
begin

section \<open>Prelude: Python values, exceptions and the effect monads\<close>

text \<open>
  What every theory of the development shares: the dynamic values the adapter's Python code
  inspects with \<^verbatim>\<open>isinstance\<close> (\<open>pyval\<close>), the exceptions it raises and catches (\<open>exn\<close>),
  the result of a pure function that may raise (\<open>'a res\<close>), the effectful computations over an
  explicit state (\<open>('s, 'a) py\<close>), and the lemmas on them the component proofs use.

  Byte strings and text are both \<open>string\<close>: one \<open>char\<close> is one byte. A Python \<^verbatim>\<open>str\<close> is
  represented by its UTF-8 encoding, where a lone surrogate is represented by its three-byte
  (surrogatepass) encoding; \<^verbatim>\<open>str.encode\<close> is then the identity on strings without surrogates
  and \<^verbatim>\<open>bytes.decode\<close> a validity check. The byte order of this representation is Python's
  code-point order.
\<close>

named_theorems res_simps "rewriting of exception results"
named_theorems py_simps "unfolding of the effect monad"

type_synonym bytes = string

subsection \<open>Python values\<close>

text \<open>
  An IEEE double: a sign, a mantissa and a binary exponent (\<open>m * 2 ^ e\<close>), an infinity of a sign,
  or NaN.
\<close>

datatype pyfloat = FFinite bool nat int | FInf bool | FNan

definition float_isfinite :: "pyfloat \<Rightarrow> bool" where
  "float_isfinite f = (case f of FFinite _ _ _ \<Rightarrow> True | _ \<Rightarrow> False)"

text \<open>A value of Python's \<^verbatim>\<open>object\<close>; dictionaries keep their insertion order.\<close>

datatype pyval =
    PNone
  | PBool bool
  | PInt int
  | PFloat pyfloat
  | PStr string
  | PBytes string
  | PByteArray string
  | PMemoryView string
  | PList "pyval list"
  | PTuple "pyval list"
  | PDict "(pyval \<times> pyval) list"
  | POther string

fun is_str :: "pyval \<Rightarrow> bool" where
  "is_str (PStr _) = True"
| "is_str _ = False"

fun is_mapping :: "pyval \<Rightarrow> bool" where
  "is_mapping (PDict _) = True"
| "is_mapping _ = False"

text \<open>The buffer of a \<^verbatim>\<open>bytes | bytearray | memoryview\<close>, if the value is one.\<close>

fun bytes_of :: "pyval \<Rightarrow> bytes option" where
  "bytes_of (PBytes b) = Some b"
| "bytes_of (PByteArray b) = Some b"
| "bytes_of (PMemoryView b) = Some b"
| "bytes_of _ = None"

text \<open>The items of a sequence that is neither text nor bytes.\<close>

fun seq_items :: "pyval \<Rightarrow> pyval list option" where
  "seq_items (PList xs) = Some xs"
| "seq_items (PTuple xs) = Some xs"
| "seq_items (PMemoryView b) = Some (map (\<lambda>c. PInt (int (of_char c))) b)"
| "seq_items _ = None"

text \<open>\<^verbatim>\<open>bool(v)\<close>, for the results the client returns.\<close>

fun truthy :: "pyval \<Rightarrow> bool" where
  "truthy PNone = False"
| "truthy (PBool b) = b"
| "truthy (PInt i) = (i \<noteq> 0)"
| "truthy (PFloat f) = (case f of FFinite _ m _ \<Rightarrow> m \<noteq> 0 | _ \<Rightarrow> True)"
| "truthy (PStr s) = (s \<noteq> [])"
| "truthy (PBytes s) = (s \<noteq> [])"
| "truthy (PByteArray s) = (s \<noteq> [])"
| "truthy (PMemoryView s) = (s \<noteq> [])"
| "truthy (PList xs) = (xs \<noteq> [])"
| "truthy (PTuple xs) = (xs \<noteq> [])"
| "truthy (PDict xs) = (xs \<noteq> [])"
| "truthy (POther _) = True"

subsection \<open>Exceptions\<close>

text \<open>
  The classes of \<^verbatim>\<open>valkey.exceptions\<close> the adapter names. The class hierarchy belongs to the
  client library, so an exception carries the classes it is an instance of.
\<close>

datatype vclass =
    VAuthenticationError | VAuthorizationError | VNoPermissionError | VTimeoutError
  | VClusterCrossSlotError | VWatchError | VMaxConnectionsError | VOutOfMemoryError
  | VBusyLoadingError | VClusterDownError | VConnectionError | VMasterDownError
  | VReadOnlyError | VTryAgainError | VDataError | VResponseError | VNoScriptError

text \<open>The exception classes of \<^verbatim>\<open>meridian_storage.errors\<close> the adapter raises.\<close>

datatype mclass =
    AuthenticationErrorC | AuthorizationErrorC | ConflictErrorC | InternalErrorC
  | MeridianTimeoutErrorC | RateLimitErrorC | UnavailableErrorC | ValidationErrorC
  | ConfigurationErrorC | CompatibilityErrorC | LifecycleErrorC

text \<open>
  A Meridian failure: its class, its stable code, its message, whether it is marked
  retryable, and its keyword details. An absent detail is \<open>PNone\<close>.
\<close>

record meridian_error =
  me_class :: mclass
  me_code :: string
  me_message :: string
  me_retryable :: bool
  me_details :: "(string \<times> pyval) list"

text \<open>
  \<open>ValkeyError n cs m\<close> is an exception of the client library: its type name, the classes above
  it is an instance of, and its (possibly sensitive) message. \<open>OutOfFuel\<close> is no Python
  exception: it marks that a loop was cut off by the bound of the model.
\<close>

datatype exn =
    ValkeyError string "vclass list" string
  | ValueError string
  | TypeError string
  | RuntimeError string
  | OverflowError
  | RecursionError
  | UnicodeDecodeError
  | UnicodeEncodeError
  | JSONDecodeError
  | KeyError string
  | EnvelopeError string
  | EnvelopeCorruptionError string
  | EnvelopeExpiredError string
  | EnvelopeSchemaMismatchError string
  | EnvelopeTooLargeError string
  | MeridianError meridian_error
  | OtherError string
  | OutOfFuel

fun is_ValkeyError :: "exn \<Rightarrow> bool" where
  "is_ValkeyError (ValkeyError _ _ _) = True"
| "is_ValkeyError _ = False"

fun has_vclass :: "exn \<Rightarrow> vclass \<Rightarrow> bool" where
  "has_vclass (ValkeyError _ cs _) c = (c \<in> set cs)"
| "has_vclass _ _ = False"

text \<open>\<^verbatim>\<open>EnvelopeError\<close> and its four subclasses.\<close>

fun is_EnvelopeError :: "exn \<Rightarrow> bool" where
  "is_EnvelopeError (EnvelopeError _) = True"
| "is_EnvelopeError (EnvelopeCorruptionError _) = True"
| "is_EnvelopeError (EnvelopeExpiredError _) = True"
| "is_EnvelopeError (EnvelopeSchemaMismatchError _) = True"
| "is_EnvelopeError (EnvelopeTooLargeError _) = True"
| "is_EnvelopeError _ = False"

text \<open>\<^verbatim>\<open>ValueError\<close> and the subclasses of it that occur.\<close>

fun is_ValueError :: "exn \<Rightarrow> bool" where
  "is_ValueError (ValueError _) = True"
| "is_ValueError UnicodeDecodeError = True"
| "is_ValueError UnicodeEncodeError = True"
| "is_ValueError JSONDecodeError = True"
| "is_ValueError e = is_EnvelopeError e"

fun is_TypeError :: "exn \<Rightarrow> bool" where
  "is_TypeError (TypeError _) = True"
| "is_TypeError _ = False"

fun is_EnvelopeCorruptionError :: "exn \<Rightarrow> bool" where
  "is_EnvelopeCorruptionError (EnvelopeCorruptionError _) = True"
| "is_EnvelopeCorruptionError _ = False"

fun is_EnvelopeExpiredError :: "exn \<Rightarrow> bool" where
  "is_EnvelopeExpiredError (EnvelopeExpiredError _) = True"
| "is_EnvelopeExpiredError _ = False"

fun is_EnvelopeSchemaMismatchError :: "exn \<Rightarrow> bool" where
  "is_EnvelopeSchemaMismatchError (EnvelopeSchemaMismatchError _) = True"
| "is_EnvelopeSchemaMismatchError _ = False"

subsection \<open>Pure computations that may raise\<close>

type_synonym 'a res = "exn + 'a"

definition bindE :: "'a res \<Rightarrow> ('a \<Rightarrow> 'b res) \<Rightarrow> 'b res" where
  "bindE m f = (case m of Inl e \<Rightarrow> Inl e | Inr x \<Rightarrow> f x)"

text \<open>\<open>guardE b e\<close> goes on when \<open>b\<close> holds and raises \<open>e\<close> otherwise.\<close>

definition guardE :: "bool \<Rightarrow> exn \<Rightarrow> unit res" where
  "guardE b e = (if b then Inr () else Inl e)"

text \<open>\<open>catchE m p h\<close>: the exceptions of \<open>m\<close> that \<open>p\<close> selects are handled by \<open>h\<close>.\<close>

definition catchE :: "'a res \<Rightarrow> (exn \<Rightarrow> bool) \<Rightarrow> (exn \<Rightarrow> 'a res) \<Rightarrow> 'a res" where
  "catchE m p h = (case m of Inl e \<Rightarrow> if p e then h e else Inl e | Inr x \<Rightarrow> Inr x)"

fun mapE :: "('a \<Rightarrow> 'b res) \<Rightarrow> 'a list \<Rightarrow> 'b list res" where
  "mapE f [] = Inr []"
| "mapE f (x # xs) = bindE (f x) (\<lambda>y. bindE (mapE f xs) (\<lambda>ys. Inr (y # ys)))"

lemma bindE_Inr [simp]: "bindE (Inr x) f = f x"
  by (simp add: bindE_def)

lemma bindE_Inl [simp]: "bindE (Inl e) f = Inl e"
  by (simp add: bindE_def)

lemma bindE_eq_Inr [res_simps]: "bindE m f = Inr y \<longleftrightarrow> (\<exists>x. m = Inr x \<and> f x = Inr y)"
  by (cases m) auto

lemma bindE_eq_Inl [res_simps]:
  "bindE m f = Inl e \<longleftrightarrow> m = Inl e \<or> (\<exists>x. m = Inr x \<and> f x = Inl e)"
  by (cases m) auto

lemma guardE_True [simp]: "guardE True e = Inr ()"
  by (simp add: guardE_def)

lemma guardE_False [simp]: "guardE False e = Inl e"
  by (simp add: guardE_def)

lemma guardE_eq_Inr [res_simps]: "guardE b e = Inr u \<longleftrightarrow> b"
  by (simp add: guardE_def)

lemma guardE_eq_Inl [res_simps]: "guardE b e = Inl e' \<longleftrightarrow> \<not> b \<and> e' = e"
  by (auto simp: guardE_def)

lemma catchE_Inr [simp]: "catchE (Inr x) p h = Inr x"
  by (simp add: catchE_def)

lemma catchE_Inl [simp]: "catchE (Inl e) p h = (if p e then h e else Inl e)"
  by (simp add: catchE_def)

lemma catchE_eq_Inr [res_simps]:
  "catchE m p h = Inr y \<longleftrightarrow> m = Inr y \<or> (\<exists>e. m = Inl e \<and> p e \<and> h e = Inr y)"
  by (cases m) auto

lemma bindE_assoc: "bindE (bindE m f) g = bindE m (\<lambda>x. bindE (f x) g)"
  by (cases m) auto

lemma mapE_eq_Inr: "mapE f xs = Inr ys \<longleftrightarrow> list_all2 (\<lambda>x y. f x = Inr y) xs ys"
  by (induction xs arbitrary: ys) (auto simp: res_simps list_all2_Cons1)

lemma mapE_all_Inr: "(\<And>x. x \<in> set xs \<Longrightarrow> f x = Inr (g x)) \<Longrightarrow> mapE f xs = Inr (map g xs)"
  by (induction xs) auto

lemma mapE_all_args: "mapE f xs = Inr ys \<Longrightarrow> (\<And>x y. f x = Inr y \<Longrightarrow> P x) \<Longrightarrow> list_all P xs"
  by (auto simp: mapE_eq_Inr list_all2_conv_all_nth list_all_length)

text \<open>\<open>onlyE P m\<close>: every exception of \<open>m\<close> satisfies \<open>P\<close>.\<close>

definition onlyE :: "(exn \<Rightarrow> bool) \<Rightarrow> 'a res \<Rightarrow> bool" where
  "onlyE P m = (case m of Inl e \<Rightarrow> P e | Inr _ \<Rightarrow> True)"

named_theorems only_intros "introduction rules for the exceptions of a computation"

lemma onlyE_D: "onlyE P m \<Longrightarrow> m = Inl e \<Longrightarrow> P e"
  by (simp add: onlyE_def)

lemma onlyE_I: "(\<And>e. m = Inl e \<Longrightarrow> P e) \<Longrightarrow> onlyE P m"
  by (cases m) (auto simp: onlyE_def)

lemma onlyE_Inr [only_intros]: "onlyE P (Inr x)"
  by (simp add: onlyE_def)

lemma onlyE_Inl [only_intros]: "P e \<Longrightarrow> onlyE P (Inl e)"
  by (simp add: onlyE_def)

lemma onlyE_bindE [only_intros]: "onlyE P m \<Longrightarrow> (\<And>x. m = Inr x \<Longrightarrow> onlyE P (f x)) \<Longrightarrow> onlyE P (bindE m f)"
  by (cases m) (auto simp: onlyE_def)

lemma onlyE_guardE [only_intros]: "(\<not> b \<Longrightarrow> P e) \<Longrightarrow> onlyE P (guardE b e)"
  by (auto simp: onlyE_def guardE_def)

lemma onlyE_if [only_intros]: "(b \<Longrightarrow> onlyE P m) \<Longrightarrow> (\<not> b \<Longrightarrow> onlyE P n) \<Longrightarrow> onlyE P (if b then m else n)"
  by simp

lemma onlyE_mapE [only_intros]: "(\<And>x. x \<in> set xs \<Longrightarrow> onlyE P (f x)) \<Longrightarrow> onlyE P (mapE f xs)"
  by (induction xs) (auto intro!: only_intros)

lemma onlyE_mono: "onlyE P m \<Longrightarrow> (\<And>e. P e \<Longrightarrow> Q e) \<Longrightarrow> onlyE Q m"
  by (auto simp: onlyE_def split: sum.splits)

lemma onlyE_catchE:
  "onlyE Q m \<Longrightarrow> (\<And>e. Q e \<Longrightarrow> p e \<Longrightarrow> onlyE P (h e)) \<Longrightarrow> (\<And>e. Q e \<Longrightarrow> \<not> p e \<Longrightarrow> P e) \<Longrightarrow> onlyE P (catchE m p h)"
  by (cases m) (auto simp: onlyE_def)

subsection \<open>Effectful computations\<close>

text \<open>
  A computation over a state \<open>'s\<close> returns a value or raises, and leaves a new state in both
  cases: an exception does not undo the effects that preceded it.
\<close>

type_synonym ('s, 'a) py = "'s \<Rightarrow> 'a res \<times> 's"

definition returnM :: "'a \<Rightarrow> ('s, 'a) py" where
  "returnM x = (\<lambda>s. (Inr x, s))"

definition raiseM :: "exn \<Rightarrow> ('s, 'a) py" where
  "raiseM e = (\<lambda>s. (Inl e, s))"

definition liftM :: "'a res \<Rightarrow> ('s, 'a) py" where
  "liftM r = (\<lambda>s. (r, s))"

definition bindM :: "('s, 'a) py \<Rightarrow> ('a \<Rightarrow> ('s, 'b) py) \<Rightarrow> ('s, 'b) py" where
  "bindM m f = (\<lambda>s. case m s of (r, s') \<Rightarrow> (case r of Inl e \<Rightarrow> (Inl e, s') | Inr x \<Rightarrow> f x s'))"

definition thenM :: "('s, 'a) py \<Rightarrow> ('s, 'b) py \<Rightarrow> ('s, 'b) py" where
  "thenM m k = bindM m (\<lambda>_. k)"

text \<open>\<^verbatim>\<open>try: m except p as e: h\<close>\<close>

definition catchM :: "('s, 'a) py \<Rightarrow> (exn \<Rightarrow> bool) \<Rightarrow> (exn \<Rightarrow> ('s, 'a) py) \<Rightarrow> ('s, 'a) py" where
  "catchM m p h = (\<lambda>s. case m s of
     (r, s') \<Rightarrow> (case r of Inl e \<Rightarrow> if p e then h e s' else (Inl e, s') | Inr x \<Rightarrow> (Inr x, s')))"

text \<open>\<^verbatim>\<open>try: m except p as e: h else: k\<close>; the handlers of \<open>p\<close> do not cover \<open>k\<close>.\<close>

definition tryM :: "('s, 'a) py \<Rightarrow> (exn \<Rightarrow> bool) \<Rightarrow> (exn \<Rightarrow> ('s, 'b) py) \<Rightarrow> ('a \<Rightarrow> ('s, 'b) py)
    \<Rightarrow> ('s, 'b) py" where
  "tryM m p h k = (\<lambda>s. case m s of
     (r, s') \<Rightarrow> (case r of Inl e \<Rightarrow> if p e then h e s' else (Inl e, s') | Inr x \<Rightarrow> k x s'))"

text \<open>\<^verbatim>\<open>try: m finally: f\<close>; an exception of \<open>f\<close> replaces the outcome of \<open>m\<close>.\<close>

definition finallyM :: "('s, 'a) py \<Rightarrow> ('s, unit) py \<Rightarrow> ('s, 'a) py" where
  "finallyM m f = (\<lambda>s. case m s of
     (r, s') \<Rightarrow> (case f s' of (r', s'') \<Rightarrow> (case r' of Inl e \<Rightarrow> (Inl e, s'') | Inr _ \<Rightarrow> (r, s''))))"

fun mapM :: "('a \<Rightarrow> ('s, 'b) py) \<Rightarrow> 'a list \<Rightarrow> ('s, 'b list) py" where
  "mapM f [] = returnM []"
| "mapM f (x # xs) = bindM (f x) (\<lambda>y. bindM (mapM f xs) (\<lambda>ys. returnM (y # ys)))"

lemma returnM_apply [simp]: "returnM x s = (Inr x, s)"
  by (simp add: returnM_def)

lemma raiseM_apply [simp]: "raiseM e s = (Inl e, s)"
  by (simp add: raiseM_def)

lemma liftM_apply [simp]: "liftM r s = (r, s)"
  by (simp add: liftM_def)

declare bindM_def [py_simps] thenM_def [py_simps] catchM_def [py_simps] tryM_def [py_simps]
  finallyM_def [py_simps]

lemma bindM_eq_Inr [res_simps]:
  "bindM m f s = (Inr y, s'') \<longleftrightarrow> (\<exists>x s'. m s = (Inr x, s') \<and> f x s' = (Inr y, s''))"
  by (auto simp: bindM_def split: prod.splits sum.splits)

lemma bindM_liftM [simp]: "bindM (liftM (Inr x)) f = f x" "bindM (liftM (Inl e)) f = raiseM e"
  by (auto simp: bindM_def fun_eq_iff)

lemma bindM_returnM [simp]: "bindM (returnM x) f = f x"
  by (simp add: bindM_def)

lemma bindM_raiseM [simp]: "bindM (raiseM e) f = raiseM e"
  by (auto simp: bindM_def fun_eq_iff)

lemma bindM_assoc: "bindM (bindM m f) g = bindM m (\<lambda>x. bindM (f x) g)"
  by (auto simp: bindM_def fun_eq_iff split: prod.splits sum.splits)

subsection \<open>Weakest preconditions\<close>

text \<open>
  \<open>wpM m Q R s\<close>: started in \<open>s\<close>, the computation \<open>m\<close> ends either with a value and a state that
  satisfy \<open>Q\<close>, or with an exception and a state that satisfy \<open>R\<close>.
\<close>

definition wpM :: "('s, 'a) py \<Rightarrow> ('a \<Rightarrow> 's \<Rightarrow> bool) \<Rightarrow> (exn \<Rightarrow> 's \<Rightarrow> bool) \<Rightarrow> 's \<Rightarrow> bool" where
  "wpM m Q R s = (case m s of (r, s') \<Rightarrow> (case r of Inl e \<Rightarrow> R e s' | Inr x \<Rightarrow> Q x s'))"

named_theorems wp_simps "weakest preconditions of the constructs of the effect monad"

lemma wpM_return [wp_simps]: "wpM (returnM x) Q R = Q x"
  by (simp add: wpM_def fun_eq_iff)

lemma wpM_raise [wp_simps]: "wpM (raiseM e) Q R = R e"
  by (simp add: wpM_def fun_eq_iff)

lemma wpM_lift [wp_simps]: "wpM (liftM r) Q R = (case r of Inl e \<Rightarrow> R e | Inr x \<Rightarrow> Q x)"
  by (simp add: wpM_def fun_eq_iff split: sum.split)

lemma wpM_bind [wp_simps]: "wpM (bindM m f) Q R = wpM m (\<lambda>x. wpM (f x) Q R) R"
  by (simp add: wpM_def bindM_def fun_eq_iff split: prod.split sum.split)

lemma wpM_then [wp_simps]: "wpM (thenM m k) Q R = wpM m (\<lambda>_. wpM k Q R) R"
  by (simp add: thenM_def wpM_bind)

lemma wpM_catch [wp_simps]:
  "wpM (catchM m p h) Q R = wpM m Q (\<lambda>e. if p e then wpM (h e) Q R else R e)"
  by (auto simp: wpM_def catchM_def fun_eq_iff split: prod.split sum.split)

lemma wpM_try [wp_simps]:
  "wpM (tryM m p h k) Q R = wpM m (\<lambda>x. wpM (k x) Q R) (\<lambda>e. if p e then wpM (h e) Q R else R e)"
  by (auto simp: wpM_def tryM_def fun_eq_iff split: prod.split sum.split)

lemma wpM_finally [wp_simps]:
  "wpM (finallyM m f) Q R = wpM m (\<lambda>x. wpM f (\<lambda>_. Q x) R) (\<lambda>e. wpM f (\<lambda>_. R e) R)"
  by (auto simp: wpM_def finallyM_def fun_eq_iff split: prod.split sum.split)

lemma wpM_if [wp_simps]: "wpM (if b then m else n) Q R = (if b then wpM m Q R else wpM n Q R)"
  by simp

lemma wpM_case_pair [wp_simps]: "wpM (case p of (a, b) \<Rightarrow> f a b) Q R = (case p of (a, b) \<Rightarrow> wpM (f a b) Q R)"
  by (simp split: prod.split)

lemma wpM_case_option [wp_simps]:
  "wpM (case x of None \<Rightarrow> m | Some y \<Rightarrow> f y) Q R = (case x of None \<Rightarrow> wpM m Q R | Some y \<Rightarrow> wpM (f y) Q R)"
  by (simp split: option.split)

text \<open>Rules for a computation about which nothing is known, when exceptions do not matter.\<close>

lemma wp_any: "(\<And>x s'. Q x s') \<Longrightarrow> wpM m Q (\<lambda>_ _. True) s"
  by (simp add: wpM_def split: prod.split sum.split)

lemma wpM_mono: "wpM m Q R s \<Longrightarrow> (\<And>x s'. Q x s' \<Longrightarrow> Q' x s') \<Longrightarrow> (\<And>e s'. R e s' \<Longrightarrow> R' e s') \<Longrightarrow> wpM m Q' R' s"
  by (auto simp: wpM_def split: prod.splits sum.splits)

lemma wpM_I: "(\<And>x s'. m s = (Inr x, s') \<Longrightarrow> Q x s') \<Longrightarrow> (\<And>e s'. m s = (Inl e, s') \<Longrightarrow> R e s') \<Longrightarrow> wpM m Q R s"
  by (auto simp: wpM_def split: prod.split sum.split)

lemma wpM_Inr: "wpM m Q R s \<Longrightarrow> m s = (Inr x, s') \<Longrightarrow> Q x s'"
  by (simp add: wpM_def)

lemma wpM_Inl: "wpM m Q R s \<Longrightarrow> m s = (Inl e, s') \<Longrightarrow> R e s'"
  by (simp add: wpM_def)

lemma wpM_eval: "m s = (r, s') \<Longrightarrow> wpM m Q R s \<longleftrightarrow> (case r of Inl e \<Rightarrow> R e s' | Inr x \<Rightarrow> Q x s')"
  by (simp add: wpM_def)

text \<open>
  \<open>keepsM I P m\<close>: from every state that satisfies \<open>I\<close>, the computation \<open>m\<close> ends in a state that satisfies
  \<open>I\<close>, and if it raises, the exception satisfies \<open>P\<close>.
\<close>

definition keepsM :: "('s \<Rightarrow> bool) \<Rightarrow> (exn \<Rightarrow> bool) \<Rightarrow> ('s, 'a) py \<Rightarrow> bool" where
  "keepsM I P m = (\<forall>s. I s \<longrightarrow> wpM m (\<lambda>_. I) (\<lambda>e s'. P e \<and> I s') s)"

abbreviation onlyM :: "(exn \<Rightarrow> bool) \<Rightarrow> ('s, 'a) py \<Rightarrow> bool" where
  "onlyM P m \<equiv> keepsM (\<lambda>_. True) P m"

lemma keepsM_Inl: "keepsM I P m \<Longrightarrow> m s = (Inl e, s') \<Longrightarrow> I s \<Longrightarrow> P e \<and> I s'"
  by (auto simp: keepsM_def wpM_def dest!: spec [of _ s])

lemma keepsM_Inr: "keepsM I P m \<Longrightarrow> m s = (Inr x, s') \<Longrightarrow> I s \<Longrightarrow> I s'"
  by (auto simp: keepsM_def wpM_def dest!: spec [of _ s])

lemma keepsM_I:
  "(\<And>s x s'. I s \<Longrightarrow> m s = (Inr x, s') \<Longrightarrow> I s') \<Longrightarrow> (\<And>s e s'. I s \<Longrightarrow> m s = (Inl e, s') \<Longrightarrow> P e \<and> I s') \<Longrightarrow> keepsM I P m"
  unfolding keepsM_def by (intro allI impI wpM_I) blast+

lemma onlyM_D: "onlyM P m \<Longrightarrow> m s = (Inl e, s') \<Longrightarrow> P e"
  by (auto dest: keepsM_Inl)

lemma keepsM_wp:
  "keepsM I P m \<Longrightarrow> I s \<Longrightarrow> (\<And>x s'. I s' \<Longrightarrow> Q x s') \<Longrightarrow> (\<And>e s'. P e \<Longrightarrow> I s' \<Longrightarrow> R e s') \<Longrightarrow> wpM m Q R s"
  by (rule wpM_I) (auto dest: keepsM_Inl keepsM_Inr)

lemma keepsM_mono: "keepsM I P m \<Longrightarrow> (\<And>e. P e \<Longrightarrow> Q e) \<Longrightarrow> keepsM I Q m"
  by (auto simp: keepsM_def [of I Q] intro: keepsM_wp)

lemma keepsM_return [only_intros]: "keepsM I P (returnM x)"
  by (simp add: keepsM_def wp_simps)

lemma keepsM_raise [only_intros]: "P e \<Longrightarrow> keepsM I P (raiseM e)"
  by (simp add: keepsM_def wp_simps)

lemma keepsM_lift [only_intros]: "onlyE P r \<Longrightarrow> keepsM I P (liftM r)"
  by (simp add: keepsM_def onlyE_def wp_simps split: sum.splits)

lemma keepsM_bind [only_intros]: "keepsM I P m \<Longrightarrow> (\<And>x. keepsM I P (f x)) \<Longrightarrow> keepsM I P (bindM m f)"
  by (auto simp: keepsM_def [of I P "bindM m f"] wp_simps intro: keepsM_wp)

lemma keepsM_bind_lift [only_intros]:
  "onlyE P r \<Longrightarrow> (\<And>x. r = Inr x \<Longrightarrow> keepsM I P (f x)) \<Longrightarrow> keepsM I P (bindM (liftM r) f)"
  by (cases r) (auto simp: onlyE_def intro: keepsM_raise)

lemma keepsM_then [only_intros]: "keepsM I P m \<Longrightarrow> keepsM I P k \<Longrightarrow> keepsM I P (thenM m k)"
  by (simp add: thenM_def keepsM_bind)

lemma keepsM_catch:
  "keepsM I R m \<Longrightarrow> (\<And>e. R e \<Longrightarrow> p e \<Longrightarrow> keepsM I P (h e)) \<Longrightarrow> (\<And>e. R e \<Longrightarrow> \<not> p e \<Longrightarrow> P e) \<Longrightarrow>
    keepsM I P (catchM m p h)"
  unfolding keepsM_def [of I P "catchM m p h"] wp_simps
  by (intro allI impI, erule (1) keepsM_wp) (auto intro: keepsM_wp)

lemma keepsM_try:
  "keepsM I R m \<Longrightarrow> (\<And>e. R e \<Longrightarrow> p e \<Longrightarrow> keepsM I P (h e)) \<Longrightarrow> (\<And>e. R e \<Longrightarrow> \<not> p e \<Longrightarrow> P e) \<Longrightarrow>
    (\<And>x. keepsM I P (k x)) \<Longrightarrow> keepsM I P (tryM m p h k)"
  unfolding keepsM_def [of I P "tryM m p h k"] wp_simps
  by (intro allI impI, erule (1) keepsM_wp) (auto intro: keepsM_wp)

lemma keepsM_finally [only_intros]: "keepsM I P m \<Longrightarrow> keepsM I P f \<Longrightarrow> keepsM I P (finallyM m f)"
  by (auto simp: keepsM_def [of I P "finallyM m f"] wp_simps intro: keepsM_wp)

lemma keepsM_if [only_intros]: "(b \<Longrightarrow> keepsM I P m) \<Longrightarrow> (\<not> b \<Longrightarrow> keepsM I P n) \<Longrightarrow> keepsM I P (if b then m else n)"
  by simp

lemma keepsM_option [only_intros]:
  "(x = None \<Longrightarrow> keepsM I P m) \<Longrightarrow> (\<And>y. x = Some y \<Longrightarrow> keepsM I P (f y)) \<Longrightarrow> keepsM I P (case x of None \<Rightarrow> m | Some y \<Rightarrow> f y)"
  by (cases x) auto

lemma keepsM_pair [only_intros]:
  "(\<And>a b. p = (a, b) \<Longrightarrow> keepsM I P (f a b)) \<Longrightarrow> keepsM I P (case p of (a, b) \<Rightarrow> f a b)"
  by (cases p) auto

lemma keepsM_mapM [only_intros]: "(\<And>x. x \<in> set xs \<Longrightarrow> keepsM I P (f x)) \<Longrightarrow> keepsM I P (mapM f xs)"
  by (induction xs) (auto intro!: only_intros)

subsection \<open>Slices\<close>

text \<open>Python's \<^verbatim>\<open>xs[a:b]\<close> for non-negative bounds.\<close>

definition py_slice :: "nat \<Rightarrow> nat \<Rightarrow> 'a list \<Rightarrow> 'a list" where
  "py_slice a b xs = take (b - a) (drop a xs)"

lemma length_py_slice: "length (py_slice a b xs) = min (b - a) (length xs - a)"
  by (simp add: py_slice_def)

lemma py_slice_append_exact: "length xs = a \<Longrightarrow> b = a + length ys \<Longrightarrow> py_slice a b (xs @ ys @ zs) = ys"
  by (simp add: py_slice_def)

subsection \<open>Successful runs\<close>

lemma liftM_eq_Inr: "liftM r s = (Inr x, s') \<longleftrightarrow> r = Inr x \<and> s' = s"
  by (auto simp: liftM_def)

lemma thenM_eq_Inr: "thenM m k s = (Inr x, s') \<longleftrightarrow> (\<exists>y s1. m s = (Inr y, s1) \<and> k s1 = (Inr x, s'))"
  by (simp add: thenM_def bindM_eq_Inr)

lemma raiseM_eq_Inr: "raiseM e s = (Inr x, s') \<longleftrightarrow> False"
  by (simp add: raiseM_def)

lemma returnM_eq_Inr: "returnM y s = (Inr x, s') \<longleftrightarrow> x = y \<and> s' = s"
  by (auto simp: returnM_def)

lemma if_raiseM_eq_Inr: "(if b then raiseM e else m) s = (Inr x, s') \<longleftrightarrow> \<not> b \<and> m s = (Inr x, s')"
  by (simp add: raiseM_def)

lemmas run_simps = if_raiseM_eq_Inr bindM_eq_Inr liftM_eq_Inr thenM_eq_Inr raiseM_eq_Inr returnM_eq_Inr

end
