(* ===== verification/Vk_Stdlib.thy ===== *)
theory Vk_Stdlib
  imports Vk_Prelude "HOL-Library.Word"
begin

section \<open>The parts of Python's standard library the adapter calls\<close>

text \<open>
  Executable definitions of the builtins and standard-library functions the adapter's key and
  envelope code rests on: decimal and hexadecimal formatting, \<^verbatim>\<open>int(s, 16)\<close>, the UTF-8 and
  ASCII codecs, \<^verbatim>\<open>base64.urlsafe_b64encode\<close>, \<^verbatim>\<open>bytes.find\<close> and \<^verbatim>\<open>binascii.crc_hqx\<close>, with
  the facts about them (injectivity, lengths, alphabets, round trips) the components use.
\<close>

unbundle bit_operations_syntax

lemma of_char_less_256 [simp]: "of_char c < (256 :: nat)"
  by (metis of_char_mod_256 mod_less_divisor zero_less_numeral)

subsection \<open>Digits and numerals\<close>

definition digit_char :: "nat \<Rightarrow> char" where
  "digit_char n = char_of (if n < 10 then 48 + n else 87 + n)"

definition is_dec_digit :: "char \<Rightarrow> bool" where
  "is_dec_digit c = (48 \<le> (of_char c :: nat) \<and> (of_char c :: nat) \<le> 57)"

definition is_hex_lower :: "char \<Rightarrow> bool" where
  "is_hex_lower c = (is_dec_digit c \<or> (97 \<le> (of_char c :: nat) \<and> (of_char c :: nat) \<le> 102))"

lemma of_char_digit_char: "n < 16 \<Longrightarrow> of_char (digit_char n) = (if n < 10 then 48 + n else 87 + n)"
  by (simp add: digit_char_def)

lemma digit_char_inj: "m < 16 \<Longrightarrow> n < 16 \<Longrightarrow> digit_char m = digit_char n \<longleftrightarrow> m = n"
  by (auto dest!: arg_cong [of _ _ "of_char :: char \<Rightarrow> nat"] simp: of_char_digit_char split: if_splits)

lemma digit_char_eval [simp]:
  "digit_char 0 = CHR ''0''" "digit_char (Suc 0) = CHR ''1''" "digit_char 2 = CHR ''2''" "digit_char 3 = CHR ''3''"
  "digit_char 4 = CHR ''4''" "digit_char 5 = CHR ''5''" "digit_char 6 = CHR ''6''" "digit_char 7 = CHR ''7''"
  "digit_char 8 = CHR ''8''" "digit_char 9 = CHR ''9''" "digit_char 10 = CHR ''a''" "digit_char 11 = CHR ''b''"
  "digit_char 12 = CHR ''c''" "digit_char 13 = CHR ''d''" "digit_char 14 = CHR ''e''" "digit_char 15 = CHR ''f''"
  by (simp_all add: digit_char_def char_of_def bit_iff_odd)

lemma is_hex_lower_digit_char [simp]: "n < 16 \<Longrightarrow> is_hex_lower (digit_char n)"
  by (simp add: is_hex_lower_def is_dec_digit_def of_char_digit_char)

lemma is_dec_digit_digit_char [simp]: "n < 10 \<Longrightarrow> is_dec_digit (digit_char n)"
  by (simp add: is_dec_digit_def of_char_digit_char)

text \<open>\<^verbatim>\<open>str(n)\<close> for a non-negative integer, and for any integer.\<close>

fun show_nat :: "nat \<Rightarrow> string" where
  "show_nat n = (if n < 10 then [digit_char n] else show_nat (n div 10) @ [digit_char (n mod 10)])"

declare show_nat.simps [simp del]

definition show_int :: "int \<Rightarrow> string" where
  "show_int i = (if i < 0 then CHR ''-'' # show_nat (nat (- i)) else show_nat (nat i))"

text \<open>\<^verbatim>\<open>f"{n:x}"\<close> and \<^verbatim>\<open>f"{n:08x}"\<close>\<close>

fun hex_nat :: "nat \<Rightarrow> string" where
  "hex_nat n = (if n < 16 then [digit_char n] else hex_nat (n div 16) @ [digit_char (n mod 16)])"

declare hex_nat.simps [simp del]

definition hex08 :: "nat \<Rightarrow> string" where
  "hex08 n = replicate (8 - length (hex_nat n)) CHR ''0'' @ hex_nat n"

text \<open>\<^verbatim>\<open>digest.hexdigest()\<close>\<close>

definition hexdigest :: "bytes \<Rightarrow> string" where
  "hexdigest b = concat (map (\<lambda>c. [digit_char (of_char c div 16), digit_char (of_char c mod 16)]) b)"

lemma show_nat_digits: "list_all is_dec_digit (show_nat n)"
proof (induction n rule: show_nat.induct)
  case (1 n)
  then show ?case by (cases "n < 10") (simp_all add: show_nat.simps [of n])
qed

lemma show_nat_nonempty [simp]: "show_nat n \<noteq> []" "[] \<noteq> show_nat n"
  by (simp_all add: show_nat.simps [of n])

lemma show_nat_inj: "show_nat m = show_nat n \<Longrightarrow> m = n"
proof (induction m arbitrary: n rule: show_nat.induct)
  case (1 m)
  show ?case
  proof (cases "m < 10"; cases "n < 10")
    assume "m < 10" "n < 10"
    with "1.prems" show ?thesis by (simp add: show_nat.simps [of m] show_nat.simps [of n] digit_char_inj)
  next
    assume "m < 10" "\<not> n < 10"
    with "1.prems" show ?thesis by (auto simp: show_nat.simps [of m] show_nat.simps [of n])
  next
    assume "\<not> m < 10" "n < 10"
    with "1.prems" show ?thesis by (auto simp: show_nat.simps [of m] show_nat.simps [of n])
  next
    assume big: "\<not> m < 10" "\<not> n < 10"
    with "1.prems" have "show_nat (m div 10) = show_nat (n div 10)" and "m mod 10 = n mod 10"
      by (simp_all add: show_nat.simps [of m] show_nat.simps [of n] digit_char_inj)
    with "1.IH" big show ?thesis by (metis mult_div_mod_eq)
  qed
qed

lemma length_show_nat: "n < 10 ^ k \<Longrightarrow> 0 < k \<Longrightarrow> length (show_nat n) \<le> k"
proof (induction n arbitrary: k rule: show_nat.induct)
  case (1 n)
  show ?case
  proof (cases "n < 10")
    case True
    with "1.prems" show ?thesis by (simp add: show_nat.simps [of n])
  next
    case False
    then obtain j where k: "k = Suc j" "0 < j"
      using "1.prems" by (cases k; cases "k - 1") auto
    with "1.prems" have "n div 10 < 10 ^ j" by (simp add: less_mult_imp_div_less)
    with "1.IH" False k have "length (show_nat (n div 10)) \<le> j" by simp
    with False k show ?thesis by (simp add: show_nat.simps [of n])
  qed
qed

lemma length_hexdigest [simp]: "length (hexdigest b) = 2 * length b"
  by (induction b) (auto simp: hexdigest_def)

lemma hexdigest_hex: "list_all is_hex_lower (hexdigest b)"
  by (induction b) (auto simp: hexdigest_def of_char_less_256 less_mult_imp_div_less)

lemma hexdigest_inj: "hexdigest a = hexdigest b \<Longrightarrow> a = b"
proof (induction a arbitrary: b)
  case Nil
  then show ?case by (cases b) (auto simp: hexdigest_def)
next
  case (Cons c a)
  then obtain d b' where b: "b = d # b'" by (cases b) (auto simp: hexdigest_def)
  have lt: "of_char x div (16 :: nat) < 16" for x :: char
    by (simp add: less_mult_imp_div_less)
  from Cons.prems b have "of_char c div (16 :: nat) = of_char d div 16"
    and "of_char c mod (16 :: nat) = of_char d mod 16" and "hexdigest a = hexdigest b'"
    by (simp_all add: hexdigest_def digit_char_inj lt)
  moreover from this have "(of_char c :: nat) = of_char d" by (metis mult_div_mod_eq)
  ultimately show ?case using Cons.IH b by auto
qed

subsection \<open>The builtin int with base 16\<close>

text \<open>
  \<^verbatim>\<open>int(s, 16)\<close> is lenient: it strips white space, takes a sign, an optional \<^verbatim>\<open>0x\<close> prefix, digits
  of both cases, and single underscores between digits (and after the prefix). The white space is
  that of C's \<^verbatim>\<open>isspace\<close>.
\<close>

definition is_space :: "char \<Rightarrow> bool" where
  "is_space c = ((9 \<le> (of_char c :: nat) \<and> (of_char c :: nat) \<le> 13) \<or>
    (of_char c :: nat) = 32)"

definition strip :: "string \<Rightarrow> string" where
  "strip s = rev (dropWhile is_space (rev (dropWhile is_space s)))"

definition hex_val :: "char \<Rightarrow> nat option" where
  "hex_val c = (let n = of_char c in
     if 48 \<le> n \<and> n \<le> 57 then Some (n - 48)
     else if 97 \<le> n \<and> n \<le> 102 then Some (n - 87)
     else if 65 \<le> n \<and> n \<le> 70 then Some (n - 55) else None)"

text \<open>The flag says that an underscore may not come next (and that the numeral may not end here).\<close>

fun int16_digits :: "nat \<Rightarrow> bool \<Rightarrow> string \<Rightarrow> nat option" where
  "int16_digits acc u [] = (if u then None else Some acc)"
| "int16_digits acc u (c # cs) =
     (if c = CHR ''_'' then (if u then None else int16_digits acc True cs)
      else (case hex_val c of None \<Rightarrow> None | Some d \<Rightarrow> int16_digits (acc * 16 + d) False cs))"

definition drop_0x :: "string \<Rightarrow> string" where
  "drop_0x s = (case s of
     a # b # r \<Rightarrow> if a = CHR ''0'' \<and> (b = CHR ''x'' \<or> b = CHR ''X'')
        then (case r of c # r' \<Rightarrow> if c = CHR ''_'' then r' else r | [] \<Rightarrow> r) else s
   | _ \<Rightarrow> s)"

definition py_int16 :: "string \<Rightarrow> int option" where
  "py_int16 s = (case strip s of
     [] \<Rightarrow> None
   | c # cs \<Rightarrow>
       if c = CHR ''-'' then map_option (\<lambda>n. - int n) (int16_digits 0 True (drop_0x cs))
       else map_option int (int16_digits 0 True (drop_0x (if c = CHR ''+'' then cs else c # cs))))"

lemma strip_no_space: "list_all (\<lambda>c. \<not> is_space c) s \<Longrightarrow> strip s = s"
proof -
  have drop: "dropWhile is_space x = x" if "list_all (\<lambda>c. \<not> is_space c) x" for x
    using that by (cases x) auto
  assume "list_all (\<lambda>c. \<not> is_space c) s"
  then show ?thesis by (simp add: strip_def drop)
qed

lemma hex_lower_facts:
  assumes "is_hex_lower c"
  shows "\<not> is_space c" "c \<noteq> CHR ''-''" "c \<noteq> CHR ''+''" "c \<noteq> CHR ''_''" "c \<noteq> CHR ''x''" "c \<noteq> CHR ''X''"
  using assms by (auto simp: is_hex_lower_def is_dec_digit_def is_space_def)

lemma hex_val_digit_char [simp]: "n < 16 \<Longrightarrow> hex_val (digit_char n) = Some n"
  by (auto simp: hex_val_def of_char_digit_char)

lemma int16_digits_append:
  "int16_digits acc u xs = Some a \<Longrightarrow> int16_digits acc u (xs @ ys) = int16_digits a (xs = [] \<and> u) ys"
proof (induction acc u xs rule: int16_digits.induct)
  case (2 acc u c cs)
  then show ?case by (cases cs) (auto split: if_splits option.splits)
qed (auto split: if_splits)

lemma hex_nat_hex: "list_all is_hex_lower (hex_nat n)"
proof (induction n rule: hex_nat.induct)
  case (1 n)
  then show ?case by (cases "n < 16") (simp_all add: hex_nat.simps [of n])
qed

lemma hex_nat_nonempty [simp]: "hex_nat n \<noteq> []"
  by (simp add: hex_nat.simps [of n])

lemma int16_digits_hex_nat: "int16_digits 0 u (hex_nat n) = Some n"
proof (induction n arbitrary: u rule: hex_nat.induct)
  case (1 n)
  have ne: "digit_char (n mod 16) \<noteq> CHR ''_''" "n < 16 \<Longrightarrow> digit_char n \<noteq> CHR ''_''"
    using hex_lower_facts(4) is_hex_lower_digit_char by (metis mod_less_divisor zero_less_numeral)+
  show ?case
  proof (cases "n < 16")
    case True
    with ne show ?thesis by (simp add: hex_nat.simps [of n])
  next
    case False
    with "1.IH" ne show ?thesis by (simp add: hex_nat.simps [of n] int16_digits_append)
  qed
qed

lemma int16_digits_zeros:
  "int16_digits 0 u (replicate k CHR ''0'' @ s) = int16_digits 0 (k = 0 \<and> u) s"
proof (induction k arbitrary: u)
  case (Suc k)
  have "hex_val CHR ''0'' = Some 0" by (simp add: hex_val_def)
  with Suc show ?case by simp
qed simp

lemma length_hex_nat: "n < 16 ^ k \<Longrightarrow> 0 < k \<Longrightarrow> length (hex_nat n) \<le> k"
proof (induction n arbitrary: k rule: hex_nat.induct)
  case (1 n)
  show ?case
  proof (cases "n < 16")
    case True
    with "1.prems" show ?thesis by (simp add: hex_nat.simps [of n])
  next
    case False
    then obtain j where k: "k = Suc j" "0 < j"
      using "1.prems" by (cases k; cases "k - 1") auto
    with "1.prems" have "n div 16 < 16 ^ j" by (simp add: less_mult_imp_div_less)
    with "1.IH" False k have "length (hex_nat (n div 16)) \<le> j" by simp
    with False k show ?thesis by (simp add: hex_nat.simps [of n])
  qed
qed

lemma hex08_hex: "list_all is_hex_lower (hex08 n)"
proof -
  have "is_hex_lower CHR ''0''" by (simp add: is_hex_lower_def is_dec_digit_def)
  then show ?thesis using hex_nat_hex [of n] by (auto simp: hex08_def list_all_iff)
qed

lemma hex_lower_int16:
  assumes "list_all is_hex_lower s" and "s \<noteq> []"
  shows "py_int16 s = map_option int (int16_digits 0 True s)"
proof -
  obtain c cs where s: "s = c # cs" using assms(2) by (cases s) auto
  have "strip s = s"
    using assms(1) by (intro strip_no_space) (auto simp: list_all_iff hex_lower_facts)
  moreover have "drop_0x s = s"
    using assms(1) by (auto simp: drop_0x_def list_all_iff hex_lower_facts split: list.splits)
  ultimately show ?thesis
    using assms(1) s by (simp add: py_int16_def hex_lower_facts)
qed

lemma py_int16_hex08: "py_int16 (hex08 n) = Some (int n)"
proof -
  have "int16_digits 0 True (hex08 n) = Some n"
    by (simp add: hex08_def int16_digits_zeros int16_digits_hex_nat)
  moreover have "hex08 n \<noteq> []" by (simp add: hex08_def)
  ultimately show ?thesis by (simp add: hex_lower_int16 hex08_hex)
qed

lemma length_hex08: "n < 16 ^ 8 \<Longrightarrow> length (hex08 n) = 8"
  using length_hex_nat [of n 8] by (simp add: hex08_def)

subsection \<open>The UTF-8 and ASCII codecs\<close>

definition utf8_cont :: "char \<Rightarrow> bool" where
  "utf8_cont c = (128 \<le> (of_char c :: nat) \<and> (of_char c :: nat) \<le> 191)"

definition utf8_two :: "char \<Rightarrow> char \<Rightarrow> bool" where
  "utf8_two c c1 = (194 \<le> (of_char c :: nat) \<and> (of_char c :: nat) \<le> 223 \<and> utf8_cont c1)"

definition utf8_three :: "char \<Rightarrow> char \<Rightarrow> char \<Rightarrow> bool" where
  "utf8_three c c1 c2 = (let n = (of_char c :: nat); m = (of_char c1 :: nat) in
     224 \<le> n \<and> n \<le> 239 \<and> utf8_cont c1 \<and> utf8_cont c2 \<and> (n = 224 \<longrightarrow> 160 \<le> m) \<and> (n = 237 \<longrightarrow> m \<le> 159))"

definition utf8_four :: "char \<Rightarrow> char \<Rightarrow> char \<Rightarrow> char \<Rightarrow> bool" where
  "utf8_four c c1 c2 c3 = (let n = (of_char c :: nat); m = (of_char c1 :: nat) in
     240 \<le> n \<and> n \<le> 244 \<and> utf8_cont c1 \<and> utf8_cont c2 \<and> utf8_cont c3 \<and>
     (n = 240 \<longrightarrow> 144 \<le> m) \<and> (n = 244 \<longrightarrow> m \<le> 143))"

text \<open>Strict UTF-8: no overlong form, no surrogate, nothing above U+10FFFF.\<close>

fun utf8_ok :: "string \<Rightarrow> bool" where
  "utf8_ok [] = True"
| "utf8_ok (c # cs) = (if of_char c < (128 :: nat) then utf8_ok cs
     else (case cs of [] \<Rightarrow> False | c1 # r1 \<Rightarrow> if utf8_two c c1 then utf8_ok r1
     else (case r1 of [] \<Rightarrow> False | c2 # r2 \<Rightarrow> if utf8_three c c1 c2 then utf8_ok r2
     else (case r2 of [] \<Rightarrow> False | c3 # r3 \<Rightarrow> utf8_four c c1 c2 c3 \<and> utf8_ok r3))))"

definition is_ascii :: "string \<Rightarrow> bool" where
  "is_ascii s = list_all (\<lambda>c. of_char c < (128 :: nat)) s"

definition utf8_decode :: "bytes \<Rightarrow> string res" where
  "utf8_decode b = (if utf8_ok b then Inr b else Inl UnicodeDecodeError)"

definition utf8_encode :: "string \<Rightarrow> bytes res" where
  "utf8_encode s = (if utf8_ok s then Inr s else Inl UnicodeEncodeError)"

definition ascii_decode :: "bytes \<Rightarrow> string res" where
  "ascii_decode b = (if is_ascii b then Inr b else Inl UnicodeDecodeError)"

lemma codec_eq_Inr [res_simps]:
  "utf8_encode s = Inr b \<longleftrightarrow> utf8_ok s \<and> b = s"
  "utf8_decode b = Inr s \<longleftrightarrow> utf8_ok b \<and> s = b"
  "ascii_decode b = Inr s \<longleftrightarrow> is_ascii b \<and> s = b"
  by (auto simp: utf8_encode_def utf8_decode_def ascii_decode_def)

lemma codec_eq_Inl [res_simps]:
  "utf8_encode s = Inl e \<longleftrightarrow> \<not> utf8_ok s \<and> e = UnicodeEncodeError"
  "utf8_decode b = Inl e \<longleftrightarrow> \<not> utf8_ok b \<and> e = UnicodeDecodeError"
  "ascii_decode b = Inl e \<longleftrightarrow> \<not> is_ascii b \<and> e = UnicodeDecodeError"
  by (auto simp: utf8_encode_def utf8_decode_def ascii_decode_def)

declare utf8_ok.simps(2) [simp del]

lemma utf8_ok_one [simp]: "of_char c < (128 :: nat) \<Longrightarrow> utf8_ok (c # cs) = utf8_ok cs"
  by (simp add: utf8_ok.simps(2))

lemma utf8_ok_two [simp]: "utf8_two c c1 \<Longrightarrow> utf8_ok (c # c1 # r) = utf8_ok r"
  by (subst utf8_ok.simps(2)) (simp add: utf8_two_def)

lemma utf8_ok_three [simp]: "utf8_three c c1 c2 \<Longrightarrow> utf8_ok (c # c1 # c2 # r) = utf8_ok r"
  by (subst utf8_ok.simps(2)) (auto simp: utf8_two_def utf8_three_def Let_def)

lemma utf8_ok_four [simp]: "utf8_four c c1 c2 c3 \<Longrightarrow> utf8_ok (c # c1 # c2 # c3 # r) = utf8_ok r"
  by (subst utf8_ok.simps(2)) (auto simp: utf8_two_def utf8_three_def utf8_four_def Let_def)

lemma utf8_ok_Cons_cases:
  assumes "utf8_ok (c # cs)"
  obtains "of_char c < (128 :: nat)" "utf8_ok cs"
    | c1 r where "cs = c1 # r" "utf8_two c c1" "utf8_ok r"
    | c1 c2 r where "cs = c1 # c2 # r" "utf8_three c c1 c2" "utf8_ok r"
    | c1 c2 c3 r where "cs = c1 # c2 # c3 # r" "utf8_four c c1 c2 c3" "utf8_ok r"
  using assms by (subst (asm) utf8_ok.simps(2)) (auto split: if_splits list.splits)

lemma utf8_ok_ascii: "is_ascii s \<Longrightarrow> utf8_ok s"
  by (induction s) (auto simp: is_ascii_def)

lemma utf8_ok_append: "utf8_ok a \<Longrightarrow> utf8_ok b \<Longrightarrow> utf8_ok (a @ b)"
proof (induction a rule: length_induct)
  case (1 a)
  show ?case
  proof (cases a)
    case (Cons c cs)
    with "1.prems" have "utf8_ok (c # cs)" by simp
    then show ?thesis by (cases rule: utf8_ok_Cons_cases) (use "1.IH" "1.prems"(2) Cons in auto)
  qed (use "1.prems" in simp)
qed

lemma is_ascii_hex: "list_all is_hex_lower s \<Longrightarrow> is_ascii s"
  by (auto simp: is_ascii_def list_all_iff is_hex_lower_def is_dec_digit_def)

lemma is_ascii_append [simp]: "is_ascii (a @ b) \<longleftrightarrow> is_ascii a \<and> is_ascii b"
  by (simp add: is_ascii_def)

subsection \<open>URL-safe base64\<close>

definition b64_char :: "nat \<Rightarrow> char" where
  "b64_char n = char_of (if n < 26 then 65 + n else if n < 52 then 71 + n else if n < 62 then n - 4
     else if n = 62 then 45 else 95)"

definition is_b64url :: "char \<Rightarrow> bool" where
  "is_b64url c = (let n = (of_char c :: nat) in
     (65 \<le> n \<and> n \<le> 90) \<or> (97 \<le> n \<and> n \<le> 122) \<or> (48 \<le> n \<and> n \<le> 57) \<or> n = 45 \<or> n = 95)"

text \<open>\<^verbatim>\<open>base64.urlsafe_b64encode\<close>, on the byte values.\<close>

fun b64_groups :: "nat list \<Rightarrow> string" where
  "b64_groups [] = []"
| "b64_groups [a] = [b64_char (a div 4), b64_char (a mod 4 * 16), CHR ''='', CHR ''='']"
| "b64_groups [a, b] = [b64_char (a div 4), b64_char (a mod 4 * 16 + b div 16), b64_char (b mod 16 * 4), CHR ''='']"
| "b64_groups (a # b # c # r) =
     b64_char (a div 4) # b64_char (a mod 4 * 16 + b div 16) # b64_char (b mod 16 * 4 + c div 64)
       # b64_char (c mod 64) # b64_groups r"

definition urlsafe_b64encode :: "bytes \<Rightarrow> bytes" where
  "urlsafe_b64encode b = b64_groups (map of_char b)"

text \<open>\<^verbatim>\<open>.rstrip(b"=")\<close>\<close>

definition rstrip_eq :: "bytes \<Rightarrow> bytes" where
  "rstrip_eq s = rev (dropWhile (\<lambda>c. c = CHR ''='') (rev s))"

text \<open>The unpadded groups, and the inverse used to show that the encoding loses nothing.\<close>

fun b64_unpadded :: "nat list \<Rightarrow> string" where
  "b64_unpadded [] = []"
| "b64_unpadded [a] = [b64_char (a div 4), b64_char (a mod 4 * 16)]"
| "b64_unpadded [a, b] = [b64_char (a div 4), b64_char (a mod 4 * 16 + b div 16), b64_char (b mod 16 * 4)]"
| "b64_unpadded (a # b # c # r) =
     b64_char (a div 4) # b64_char (a mod 4 * 16 + b div 16) # b64_char (b mod 16 * 4 + c div 64)
       # b64_char (c mod 64) # b64_unpadded r"

definition b64_val :: "char \<Rightarrow> nat" where
  "b64_val c = (let n = of_char c in
     if n = 45 then 62 else if n = 95 then 63 else if n < 58 then n + 4
     else if n < 91 then n - 65 else n - 71)"

fun b64_ungroup :: "nat list \<Rightarrow> nat list" where
  "b64_ungroup (w # x # y # z # r) =
     (w * 4 + x div 16) # (x mod 16 * 16 + y div 4) # (y mod 4 * 64 + z) # b64_ungroup r"
| "b64_ungroup [w, x, y] = [w * 4 + x div 16, x mod 16 * 16 + y div 4]"
| "b64_ungroup [w, x] = [w * 4 + x div 16]"
| "b64_ungroup _ = []"

lemma b64_val_char [simp]: "n < 64 \<Longrightarrow> b64_val (b64_char n) = n"
  by (auto simp: b64_val_def b64_char_def Let_def)

lemma is_b64url_char [simp]: "n < 64 \<Longrightarrow> is_b64url (b64_char n)"
  by (auto simp: is_b64url_def b64_char_def Let_def)

lemma b64_char_neq_eq [simp]: "n < 64 \<Longrightarrow> b64_char n \<noteq> CHR ''=''"
  by (auto simp: b64_char_def dest!: arg_cong [of _ _ "of_char :: char \<Rightarrow> nat"] split: if_splits)

lemma byte_div [simp]: "a < 256 \<Longrightarrow> a div 4 < (64 :: nat)" "a < 256 \<Longrightarrow> a div 16 < (16 :: nat)"
  "a < 256 \<Longrightarrow> a div 64 < (4 :: nat)"
  by (simp_all add: less_mult_imp_div_less)

lemma sextet_bounds [simp]:
  "a mod 4 * 16 < (64 :: nat)" "b mod 16 * 4 < (64 :: nat)"
  "b < 256 \<Longrightarrow> a mod 4 * 16 + b div 16 < (64 :: nat)" "c < 256 \<Longrightarrow> b mod 16 * 4 + c div 64 < (64 :: nat)"
  using byte_div(2) [of b] byte_div(3) [of c] mod_less_divisor [of 4 a] mod_less_divisor [of 16 b]
  by linarith+

lemma unpack16 [simp]: "q < 16 \<Longrightarrow> (x * 16 + q) div 16 = (x :: nat)" "q < 16 \<Longrightarrow> (x * 16 + q) mod 16 = (q :: nat)"
  by simp_all

lemma unpack4 [simp]: "q < 4 \<Longrightarrow> (x * 4 + q) div 4 = (x :: nat)" "q < 4 \<Longrightarrow> (x * 4 + q) mod 4 = (q :: nat)"
  by simp_all

lemma b64_ungroup_unpadded:
  "\<forall>x \<in> set xs. x < 256 \<Longrightarrow> b64_ungroup (map b64_val (b64_unpadded xs)) = xs"
proof (induction xs rule: b64_unpadded.induct)
  case (4 a b c r)
  then have "a < 256" "b < 256" "c < 256" by auto
  then show ?case using 4 by (simp add: unpack16 unpack4 del: div_mult_self3 mod_mult_self3)
next
  case (3 a b)
  then show ?case by simp
qed auto

lemma b64_unpadded_url: "\<forall>x \<in> set xs. x < 256 \<Longrightarrow> list_all is_b64url (b64_unpadded xs)"
  by (induction xs rule: b64_unpadded.induct) auto

lemma rstrip_eq_simps:
  "rstrip_eq (s @ [CHR ''='']) = rstrip_eq s"
  "c \<noteq> CHR ''='' \<Longrightarrow> rstrip_eq (s @ [c]) = s @ [c]"
  by (simp_all add: rstrip_eq_def)

lemma rstrip_eq_append: "t \<noteq> [] \<Longrightarrow> rstrip_eq t \<noteq> [] \<Longrightarrow> rstrip_eq (s @ t) = s @ rstrip_eq t"
  by (auto simp: rstrip_eq_def dropWhile_append dropWhile_eq_Nil_conv)

lemma b64_unpadded_Nil: "b64_unpadded xs = [] \<longleftrightarrow> xs = []"
  by (cases xs rule: b64_unpadded.cases) auto

lemma rstrip_b64_groups: "\<forall>x \<in> set xs. x < 256 \<Longrightarrow> rstrip_eq (b64_groups xs) = b64_unpadded xs"
proof (induction xs rule: b64_groups.induct)
  case 1
  then show ?case by (simp add: rstrip_eq_def)
next
  case (4 a b c r)
  let ?q = "[b64_char (a div 4), b64_char (a mod 4 * 16 + b div 16), b64_char (b mod 16 * 4 + c div 64),
    b64_char (c mod 64)]"
  from 4 have IH: "rstrip_eq (b64_groups r) = b64_unpadded r" by simp
  have "rstrip_eq (?q @ b64_groups r) = ?q @ b64_unpadded r"
  proof (cases "r = []")
    case True
    then show ?thesis by (simp add: rstrip_eq_def)
  next
    case False
    then have "b64_groups r \<noteq> []" by (cases r rule: b64_groups.cases) auto
    with False IH show ?thesis using rstrip_eq_append [of "b64_groups r" ?q] b64_unpadded_Nil by metis
  qed
  then show ?case by simp
qed (simp_all add: rstrip_eq_def)

lemma rstrip_urlsafe_b64encode: "rstrip_eq (urlsafe_b64encode b) = b64_unpadded (map of_char b)"
  by (simp add: urlsafe_b64encode_def rstrip_b64_groups)

lemma map_of_char_inj: "map of_char a = (map of_char b :: nat list) \<Longrightarrow> a = b"
  by (induction a arbitrary: b) (auto simp: Cons_eq_map_conv)

lemma b64_unpadded_inj: "b64_unpadded (map of_char a) = b64_unpadded (map of_char b) \<Longrightarrow> a = b"
proof -
  assume eq: "b64_unpadded (map of_char a) = b64_unpadded (map of_char b)"
  have inv: "b64_ungroup (map b64_val (b64_unpadded (map of_char x))) = map of_char x" for x :: bytes
    by (rule b64_ungroup_unpadded) simp
  have "map of_char a = (map of_char b :: nat list)"
    using inv [of a] inv [of b] eq by metis
  then show ?thesis by (rule map_of_char_inj)
qed

lemma length_b64_unpadded: "length (b64_unpadded xs) = (4 * length xs + 2) div 3"
  by (induction xs rule: b64_unpadded.induct) auto

subsection \<open>Searching bytes, and the CRC of binascii\<close>

text \<open>\<^verbatim>\<open>b.find(c, start)\<close>, with \<open>None\<close> for -1.\<close>

fun find_byte :: "char \<Rightarrow> nat \<Rightarrow> bytes \<Rightarrow> nat option" where
  "find_byte c i [] = None"
| "find_byte c 0 (x # xs) = (if x = c then Some 0 else map_option Suc (find_byte c 0 xs))"
| "find_byte c (Suc i) (x # xs) = map_option Suc (find_byte c i xs)"

lemma find_byte_absent: "c \<notin> set b \<Longrightarrow> find_byte c i b = None"
  by (induction c i b rule: find_byte.induct) auto

lemma find_byte_append_skip: "find_byte c (length a + i) (a @ b) = map_option (\<lambda>n. length a + n) (find_byte c i b)"
  by (induction a) (auto simp: option.map_comp comp_def option.map_ident)

lemma find_byte_first: "c \<notin> set a \<Longrightarrow> find_byte c 0 (a @ c # b) = Some (length a)"
  by (induction a) auto

text \<open>
  \<^verbatim>\<open>binascii.crc_hqx\<close>: the CRC-CCITT polynomial 0x1021, most significant bit first. The library
  looks eight steps up in a table at once.
\<close>

definition crc_bit :: "16 word \<Rightarrow> 16 word" where
  "crc_bit c = (if bit c 15 then push_bit 1 c XOR 0x1021 else push_bit 1 c)"

definition crc_byte :: "16 word \<Rightarrow> char \<Rightarrow> 16 word" where
  "crc_byte c b = (crc_bit ^^ 8) (c XOR push_bit 8 (word_of_nat (of_char b)))"

definition crc_hqx :: "bytes \<Rightarrow> 16 word \<Rightarrow> 16 word" where
  "crc_hqx b c = foldl crc_byte c b"

end
