(* ===== verification/Vk_Json.thy ===== *)
theory Vk_Json
  imports Vk_Stdlib "HOL-Library.AList"
begin

section \<open>Doubles and the JSON reader of Python's standard library\<close>

text \<open>
  \<^verbatim>\<open>json.loads\<close> as the envelope codec calls it: an executable reader for the text Python accepts
  (including \<^verbatim>\<open>NaN\<close> and \<^verbatim>\<open>Infinity\<close>, duplicate keys, lone surrogates), with the three ways it
  fails that the codec has to tell apart: \<^verbatim>\<open>JSONDecodeError\<close>, the \<^verbatim>\<open>ValueError\<close> of an integer
  literal over the interpreter's digit limit, and the \<^verbatim>\<open>RecursionError\<close> of a document nested
  beyond the interpreter's recursion limit. Numbers with a fraction or an exponent become
  correctly rounded doubles.
\<close>

subsection \<open>Doubles\<close>

text \<open>
  The double nearest to \<open>num / den\<close> (ties to even), with gradual underflow and overflow to
  infinity. The mantissa of a nonzero result has 53 bits unless the exponent is -1074.
\<close>

fun bit_length :: "int \<Rightarrow> int" where
  "bit_length n = (if n \<le> 0 then 0 else 1 + bit_length (n div 2))"

declare bit_length.simps [simp del]

definition round_ratio :: "bool \<Rightarrow> int \<Rightarrow> int \<Rightarrow> pyfloat" where
  "round_ratio neg num den = (if num = 0 then FFinite neg 0 0 else
     let e0 = bit_length num - bit_length den;
         lg = (if den * 2 ^ nat e0 \<le> num * 2 ^ nat (- e0) then e0 else e0 - 1);
         e = max (lg - 52) (- 1074);
         n = num * 2 ^ nat (- e);
         d = den * 2 ^ nat e;
         m0 = n div d;
         r = n mod d;
         m1 = (if d < 2 * r \<or> (2 * r = d \<and> odd m0) then m0 + 1 else m0);
         (m, x) = (if m1 = 2 ^ 53 then (2 ^ 52, e + 1) else (m1, e))
     in if m = 0 then FFinite neg 0 0 else if 971 < x then FInf neg else FFinite neg (nat m) x)"

text \<open>\<^verbatim>\<open>float(n)\<close> of an integer: an integer beyond the range of doubles raises.\<close>

definition float_of_int :: "int \<Rightarrow> pyfloat res" where
  "float_of_int i = (case round_ratio (i < 0) \<bar>i\<bar> 1 of
     FInf _ \<Rightarrow> Inl OverflowError | f \<Rightarrow> Inr f)"

definition float_scaled :: "bool \<Rightarrow> nat \<Rightarrow> int \<Rightarrow> int \<Rightarrow> int" where
  "float_scaled neg m e e0 = (if neg then - 1 else 1) * int m * 2 ^ nat (e - e0)"

fun float_add :: "pyfloat \<Rightarrow> pyfloat \<Rightarrow> pyfloat" where
  "float_add (FFinite s m e) (FFinite s' m' e') =
     (let e0 = min e e'; v = float_scaled s m e e0 + float_scaled s' m' e' e0
      in if v = 0 then FFinite (s \<and> s') 0 0
         else round_ratio (v < 0) (\<bar>v\<bar> * 2 ^ nat e0) (2 ^ nat (- e0)))"
| "float_add (FFinite _ _ _) f = f"
| "float_add (FInf s) (FInf s') = (if s = s' then FInf s else FNan)"
| "float_add (FInf s) (FFinite _ _ _) = FInf s"
| "float_add (FInf _) FNan = FNan"
| "float_add FNan _ = FNan"

subsection \<open>Strings\<close>

definition hex4 :: "char \<Rightarrow> char \<Rightarrow> char \<Rightarrow> char \<Rightarrow> nat option" where
  "hex4 a b c d = (case (hex_val a, hex_val b, hex_val c, hex_val d) of
     (Some p, Some q, Some r, Some s) \<Rightarrow> Some (((p * 16 + q) * 16 + r) * 16 + s) | _ \<Rightarrow> None)"

text \<open>The (surrogatepass) UTF-8 encoding of a code point.\<close>

definition utf8_of_cp :: "nat \<Rightarrow> string" where
  "utf8_of_cp n =
     (if n < 128 then [char_of n]
      else if n < 2048 then [char_of (192 + n div 64), char_of (128 + n mod 64)]
      else if n < 65536 then
        [char_of (224 + n div 4096), char_of (128 + n div 64 mod 64), char_of (128 + n mod 64)]
      else [char_of (240 + n div 262144), char_of (128 + n div 4096 mod 64),
        char_of (128 + n div 64 mod 64), char_of (128 + n mod 64)])"

definition high_surrogate :: "nat \<Rightarrow> bool" where
  "high_surrogate n = (55296 \<le> n \<and> n \<le> 56319)"

definition low_surrogate :: "nat \<Rightarrow> bool" where
  "low_surrogate n = (56320 \<le> n \<and> n \<le> 57343)"

definition simple_escape :: "char \<Rightarrow> char option" where
  "simple_escape e =
     (if e = CHR 0x22 then Some CHR 0x22 else if e = CHR 0x5C then Some CHR 0x5C
      else if e = CHR ''/'' then Some CHR ''/'' else if e = CHR ''b'' then Some CHR 0x08
      else if e = CHR ''f'' then Some CHR 0x0C else if e = CHR ''n'' then Some CHR 0x0A
      else if e = CHR ''r'' then Some CHR 0x0D else if e = CHR ''t'' then Some CHR 0x09 else None)"

text \<open>The text after an opening quote: the string up to its closing quote, and the rest.\<close>

definition cons_str :: "string \<Rightarrow> (string \<times> string) res \<Rightarrow> (string \<times> string) res" where
  "cons_str p m = bindE m (\<lambda>(x, r). Inr (p @ x, r))"

text \<open>The text after \<^verbatim>\<open>\u\<close>: a code point, which a following low surrogate completes.\<close>

definition unicode_escape :: "string \<Rightarrow> (string \<times> string) option" where
  "unicode_escape r = (case r of
     h1 # h2 # h3 # h4 # r1 \<Rightarrow>
       (case hex4 h1 h2 h3 h4 of
         None \<Rightarrow> None
       | Some n \<Rightarrow>
           (case r1 of
             b # u # k1 # k2 # k3 # k4 # r2 \<Rightarrow>
               if high_surrogate n \<and> b = CHR 0x5C \<and> u = CHR ''u'' then
                 (case hex4 k1 k2 k3 k4 of
                   None \<Rightarrow> None
                 | Some n2 \<Rightarrow>
                     if low_surrogate n2
                     then Some (utf8_of_cp (65536 + (n - 55296) * 1024 + (n2 - 56320)), r2)
                     else Some (utf8_of_cp n, r1))
               else Some (utf8_of_cp n, r1)
           | _ \<Rightarrow> Some (utf8_of_cp n, r1)))
   | _ \<Rightarrow> None)"

text \<open>One turn of the string scanner: an error, the closing quote, or a piece of the string.\<close>

datatype str_next = StrError | StrStop string | StrMore string string

definition str_step :: "string \<Rightarrow> str_next" where
  "str_step s = (case s of
     [] \<Rightarrow> StrError
   | c # s' \<Rightarrow>
       if c = CHR 0x22 then StrStop s'
       else if c = CHR 0x5C then
         (case s' of
           [] \<Rightarrow> StrError
         | e # r \<Rightarrow>
             if e = CHR ''u''
             then (case unicode_escape r of None \<Rightarrow> StrError | Some (p, r') \<Rightarrow> StrMore p r')
             else (case simple_escape e of None \<Rightarrow> StrError | Some x \<Rightarrow> StrMore [x] r))
       else if of_char c < (32 :: nat) then StrError
       else StrMore [c] s')"

lemma unicode_escape_shorter: "unicode_escape r = Some (p, r') \<Longrightarrow> length r' < length r"
  by (auto simp: unicode_escape_def split: list.splits option.splits if_splits)

lemma str_step_shorter:
  "str_step s = StrMore p r \<Longrightarrow> length r < length s" "str_step s = StrStop r \<Longrightarrow> length r < length s"
  by (auto simp: str_step_def split: list.splits if_splits option.splits dest: unicode_escape_shorter)

function scan_str :: "string \<Rightarrow> (string \<times> string) res" where
  "scan_str s = (case str_step s of
     StrError \<Rightarrow> Inl JSONDecodeError
   | StrStop r \<Rightarrow> Inr ([], r)
   | StrMore p r \<Rightarrow> cons_str p (scan_str r))"
  by pat_completeness auto
termination
  by (relation "measure length") (auto dest: str_step_shorter)

declare scan_str.simps [simp del]

subsection \<open>Numbers\<close>

definition starts :: "char \<Rightarrow> string \<Rightarrow> bool" where
  "starts c s = (case s of [] \<Rightarrow> False | x # _ \<Rightarrow> x = c)"

definition digits_val :: "string \<Rightarrow> int" where
  "digits_val s = foldl (\<lambda>a c. a * 10 + (of_char c - 48)) 0 s"

text \<open>The interpreter's default limit on the digits of an integer literal.\<close>

definition max_str_digits :: nat where
  "max_str_digits = 4300"

definition scan_frac :: "string \<Rightarrow> string \<times> string" where
  "scan_frac s = (case s of
     p # r \<Rightarrow> if p = CHR ''.'' then (takeWhile is_dec_digit r, dropWhile is_dec_digit r) else ([], s)
   | [] \<Rightarrow> ([], s))"

text \<open>The exponent, if the text has one: its value and the rest.\<close>

definition scan_exp :: "string \<Rightarrow> (int \<times> string) option" where
  "scan_exp s = (case s of
     x # r \<Rightarrow>
       if x = CHR ''e'' \<or> x = CHR ''E'' then
         (let neg = (r \<noteq> [] \<and> hd r = CHR ''-'');
              r' = (if r \<noteq> [] \<and> (hd r = CHR ''-'' \<or> hd r = CHR ''+'') then tl r else r);
              ds = takeWhile is_dec_digit r'
          in if ds = [] then None
             else Some ((if neg then - 1 else 1) * digits_val ds, dropWhile is_dec_digit r'))
       else None
   | [] \<Rightarrow> None)"

definition float_of_decimal :: "bool \<Rightarrow> int \<Rightarrow> int \<Rightarrow> pyfloat" where
  "float_of_decimal neg n e = round_ratio neg (n * 10 ^ nat e) (10 ^ nat (- e))"

text \<open>What follows the integer part \<open>ip\<close>: a fraction, an exponent, or neither.\<close>

definition scan_frac_exp :: "bool \<Rightarrow> string \<Rightarrow> string \<Rightarrow> (pyval \<times> string) res" where
  "scan_frac_exp neg ip r1 =
     (let fp = fst (scan_frac r1); r2 = (if fp = [] then r1 else snd (scan_frac r1)) in
      case scan_exp r2 of
        Some (e, r3) \<Rightarrow> Inr (PFloat (float_of_decimal neg (digits_val (ip @ fp)) (e - int (length fp))), r3)
      | None \<Rightarrow>
          if fp \<noteq> [] then Inr (PFloat (float_of_decimal neg (digits_val (ip @ fp)) (- int (length fp))), r2)
          else if max_str_digits < length ip
            then Inl (ValueError ''Exceeds the limit for integer string conversion'')
          else Inr (PInt ((if neg then - 1 else 1) * digits_val ip), r1))"

definition scan_number :: "string \<Rightarrow> (pyval \<times> string) res" where
  "scan_number s =
     (let neg = starts CHR ''-'' s; s1 = (if neg then tl s else s) in
      if s1 = [] \<or> \<not> is_dec_digit (hd s1) then Inl JSONDecodeError
      else if hd s1 = CHR ''0'' then scan_frac_exp neg [CHR ''0''] (tl s1)
      else scan_frac_exp neg (takeWhile is_dec_digit s1) (dropWhile is_dec_digit s1))"

subsection \<open>Arrays, objects, documents\<close>

definition is_json_ws :: "char \<Rightarrow> bool" where
  "is_json_ws c = (c = CHR '' '' \<or> c = CHR 0x09 \<or> c = CHR 0x0A \<or> c = CHR 0x0D)"

definition skip_ws :: "string \<Rightarrow> string" where
  "skip_ws s = dropWhile is_json_ws s"

text \<open>\<^verbatim>\<open>d[k] = v\<close>: a new key goes last, an old one keeps its place.\<close>

definition dict_set :: "(pyval \<times> pyval) list \<Rightarrow> pyval \<Rightarrow> pyval \<Rightarrow> (pyval \<times> pyval) list" where
  "dict_set d k v = AList.update k v d"

type_synonym scanner = "string \<Rightarrow> (pyval \<times> string) res"

text \<open>
  The loops over the items of an array and the members of an object. Each turn reads at least one
  character, so the length of the text bounds the number of turns.
\<close>

fun scan_items :: "scanner \<Rightarrow> nat \<Rightarrow> string \<Rightarrow> pyval list \<Rightarrow> (pyval \<times> string) res" where
  "scan_items f 0 s acc = Inl OutOfFuel"
| "scan_items f (Suc n) s acc =
     bindE (f s) (\<lambda>(v, r).
       let r' = skip_ws r in
       if starts CHR '']'' r' then Inr (PList (acc @ [v]), tl r')
       else if starts CHR '','' r' then scan_items f n (skip_ws (tl r')) (acc @ [v])
       else Inl JSONDecodeError)"

fun scan_members :: "scanner \<Rightarrow> nat \<Rightarrow> string \<Rightarrow> (pyval \<times> pyval) list \<Rightarrow> (pyval \<times> string) res" where
  "scan_members f 0 s acc = Inl OutOfFuel"
| "scan_members f (Suc n) s acc =
     (if \<not> starts CHR 0x22 s then Inl JSONDecodeError
      else bindE (scan_str (tl s)) (\<lambda>(k, r0).
        let r1 = skip_ws r0 in
        if \<not> starts CHR '':'' r1 then Inl JSONDecodeError
        else bindE (f (skip_ws (tl r1))) (\<lambda>(v, r).
          let r' = skip_ws r; acc' = dict_set acc (PStr k) v in
          if starts CHR ''}'' r' then Inr (PDict acc', tl r')
          else if starts CHR '','' r' then scan_members f n (skip_ws (tl r')) acc'
          else Inl JSONDecodeError)))"

definition has_prefix :: "string \<Rightarrow> string \<Rightarrow> bool" where
  "has_prefix p s = (take (length p) s = p)"

text \<open>
  One value. The scanner for nested values is absent when the recursion limit is reached; only
  arrays and objects recurse.
\<close>

definition scan_body :: "scanner option \<Rightarrow> scanner" where
  "scan_body inner s =
     (if s = [] then Inl JSONDecodeError
      else if starts CHR 0x22 s then bindE (scan_str (tl s)) (\<lambda>(x, r). Inr (PStr x, r))
      else if starts CHR ''{'' s then
        (case inner of None \<Rightarrow> Inl RecursionError
         | Some f \<Rightarrow> let r = skip_ws (tl s) in
             if starts CHR ''}'' r then Inr (PDict [], tl r) else scan_members f (Suc (length r)) r [])
      else if starts CHR ''['' s then
        (case inner of None \<Rightarrow> Inl RecursionError
         | Some f \<Rightarrow> let r = skip_ws (tl s) in
             if starts CHR '']'' r then Inr (PList [], tl r) else scan_items f (Suc (length r)) r [])
      else if has_prefix ''null'' s then Inr (PNone, drop 4 s)
      else if has_prefix ''true'' s then Inr (PBool True, drop 4 s)
      else if has_prefix ''false'' s then Inr (PBool False, drop 5 s)
      else if has_prefix ''NaN'' s then Inr (PFloat FNan, drop 3 s)
      else if has_prefix ''Infinity'' s then Inr (PFloat (FInf False), drop 8 s)
      else if has_prefix ''-Infinity'' s then Inr (PFloat (FInf True), drop 9 s)
      else scan_number s)"

primrec scan_once :: "nat \<Rightarrow> scanner" where
  "scan_once 0 = scan_body None"
| "scan_once (Suc d) = scan_body (Some (scan_once d))"

definition json_loads :: "nat \<Rightarrow> string \<Rightarrow> pyval res" where
  "json_loads limit s =
     (if has_prefix [CHR 0xEF, CHR 0xBB, CHR 0xBF] s then Inl JSONDecodeError
      else bindE (scan_once limit (skip_ws s)) (\<lambda>(v, r).
        if skip_ws r = [] then Inr v else Inl JSONDecodeError))"

subsection \<open>The reader always returns, and raises nothing else\<close>

definition digits_error :: exn where
  "digits_error = ValueError ''Exceeds the limit for integer string conversion''"

definition json_error :: "exn \<Rightarrow> bool" where
  "json_error e = (e = JSONDecodeError \<or> e = RecursionError \<or> e = digits_error)"

text \<open>A scanner that shortens its input and raises only the three errors above.\<close>

definition good_scanner :: "scanner \<Rightarrow> bool" where
  "good_scanner f = (\<forall>s. case f s of Inl e \<Rightarrow> json_error e | Inr (v, r) \<Rightarrow> length r < length s)"

lemma good_scannerD:
  "good_scanner f \<Longrightarrow> f s = Inl e \<Longrightarrow> json_error e"
  "good_scanner f \<Longrightarrow> f s = Inr (v, r) \<Longrightarrow> length r < length s"
  by (auto simp: good_scanner_def split: sum.splits dest: spec [of _ s])

lemma cons_str_eq_Inr [res_simps]: "cons_str p m = Inr (x, r) \<longleftrightarrow> (\<exists>y. m = Inr (y, r) \<and> x = p @ y)"
  by (cases m) (auto simp: cons_str_def)

lemma cons_str_eq_Inl [res_simps]: "cons_str p m = Inl e \<longleftrightarrow> m = Inl e"
  by (cases m) (auto simp: cons_str_def)

lemma scan_str_shorter: "scan_str s = Inr (x, r) \<Longrightarrow> length r < length s"
proof (induction s arbitrary: x rule: scan_str.induct)
  case (1 s)
  then show ?case
    by (auto simp: scan_str.simps [of s] res_simps split: str_next.splits dest: str_step_shorter)
      (meson less_trans str_step_shorter(1))
qed

lemma scan_str_error: "scan_str s = Inl e \<Longrightarrow> e = JSONDecodeError"
proof (induction s rule: scan_str.induct)
  case (1 s)
  then show ?case by (auto simp: scan_str.simps [of s] res_simps split: str_next.splits)
qed

lemma length_skip_ws: "length (skip_ws s) \<le> length s"
  by (simp add: skip_ws_def length_dropWhile_le)

lemma starts_tl_shorter: "starts c s \<Longrightarrow> length (tl s) < length s"
  by (cases s) (auto simp: starts_def)

lemma json_error_simps [simp]: "json_error JSONDecodeError" "json_error RecursionError" "json_error digits_error"
  by (simp_all add: json_error_def)

lemma scan_exp_shorter: "scan_exp s = Some (e, r) \<Longrightarrow> length r \<le> length s"
  using length_dropWhile_le [of is_dec_digit "tl s"] length_dropWhile_le [of is_dec_digit "tl (tl s)"]
  by (auto simp: scan_exp_def Let_def split: list.splits if_splits)

lemma scan_frac_shorter: "scan_frac s = (f, r) \<Longrightarrow> length r \<le> length s"
  using length_dropWhile_le [of is_dec_digit "tl s"]
  by (auto simp: scan_frac_def split: list.splits if_splits)

lemma dropWhile_digits_shorter:
  "s \<noteq> [] \<Longrightarrow> is_dec_digit (hd s) \<Longrightarrow> length (dropWhile is_dec_digit s) < length s"
  by (cases s) (simp_all add: length_dropWhile_le le_imp_less_Suc)

lemma scan_frac_exp_good:
  "case scan_frac_exp neg ip r1 of Inl e \<Rightarrow> json_error e | Inr (v, r) \<Rightarrow> length r \<le> length r1"
proof -
  define fp where "fp = fst (scan_frac r1)"
  define r2 where "r2 = (if fp = [] then r1 else snd (scan_frac r1))"
  have r2: "length r2 \<le> length r1"
    using scan_frac_shorter [of r1] by (cases "scan_frac r1") (auto simp: r2_def)
  show ?thesis
    unfolding scan_frac_exp_def Let_def fp_def [symmetric] r2_def [symmetric]
    using r2 scan_exp_shorter [of r2]
    by (fastforce simp: digits_error_def json_error_def split: option.split)
qed

lemma scan_number_good: "good_scanner scan_number"
  unfolding good_scanner_def
proof
  fix s
  define s1 where "s1 = (if starts CHR ''-'' s then tl s else s)"
  have s1: "length s1 \<le> length s" by (simp add: s1_def)
  show "case scan_number s of Inl e \<Rightarrow> json_error e | Inr (v, r) \<Rightarrow> length r < length s"
  proof (cases "s1 = [] \<or> \<not> is_dec_digit (hd s1)")
    case True
    then show ?thesis by (simp add: scan_number_def Let_def s1_def [symmetric])
  next
    case False
    then have "length (dropWhile is_dec_digit s1) < length s1" and "length (tl s1) < length s1"
      by (blast intro: dropWhile_digits_shorter) (use False in \<open>cases s1, simp_all\<close>)
    then show ?thesis
      using False s1
        scan_frac_exp_good [of "tl s1" "starts CHR ''-'' s" "[CHR ''0'']"]
        scan_frac_exp_good [of "dropWhile is_dec_digit s1" "starts CHR ''-'' s" "takeWhile is_dec_digit s1"]
      by (auto simp: scan_number_def Let_def s1_def [symmetric] split: sum.splits)
  qed
qed

lemma scan_items_good:
  assumes "good_scanner f"
  shows "length s < n \<Longrightarrow> case scan_items f n s acc of Inl e \<Rightarrow> json_error e | Inr (v, r) \<Rightarrow> length r < length s"
proof (induction n arbitrary: s acc)
  case (Suc n)
  show ?case
  proof (cases "f s")
    case (Inl e)
    with assms show ?thesis by (auto dest: good_scannerD)
  next
    case (Inr p)
    obtain v r where p: "p = (v, r)" by (cases p)
    have r: "length r < length s" using assms Inr p by (auto dest: good_scannerD)
    let ?r = "skip_ws r" and ?s = "skip_ws (tl (skip_ws r))"
    have le: "length ?r \<le> length r" "length ?s \<le> length (tl ?r)" by (rule length_skip_ws)+
    have "case scan_items f n ?s (acc @ [v]) of Inl e \<Rightarrow> json_error e | Inr (v, r) \<Rightarrow> length r < length ?s"
      if "starts CHR '','' ?r"
      using Suc.IH [of ?s "acc @ [v]"] Suc.prems r le starts_tl_shorter [OF that] by linarith
    then show ?thesis
      using Inr p r le starts_tl_shorter [of _ ?r]
      by (auto simp: Let_def split: sum.splits)
  qed
qed simp

lemma scan_members_good:
  assumes "good_scanner f"
  shows "length s < n \<Longrightarrow> case scan_members f n s acc of Inl e \<Rightarrow> json_error e | Inr (v, r) \<Rightarrow> length r < length s"
proof (induction n arbitrary: s acc)
  case (Suc n)
  show ?case
  proof (cases "starts CHR 0x22 s")
    case True
    note tl = starts_tl_shorter [OF True]
    show ?thesis
    proof (cases "scan_str (tl s)")
      case (Inl e)
      with True show ?thesis by (auto dest: scan_str_error)
    next
      case (Inr q)
      obtain k r0 where q: "q = (k, r0)" by (cases q)
      have r0: "length r0 < length s" using Inr q tl by (auto dest!: scan_str_shorter)
      let ?r1 = "skip_ws r0"
      show ?thesis
      proof (cases "starts CHR '':'' ?r1")
        case colon: True
        have r1: "length (skip_ws (tl ?r1)) < length s"
          using r0 length_skip_ws [of r0] length_skip_ws [of "tl ?r1"] starts_tl_shorter [OF colon] by linarith
        show ?thesis
        proof (cases "f (skip_ws (tl ?r1))")
          case (Inl e)
          with assms True Inr q colon show ?thesis by (auto simp: Let_def dest: good_scannerD)
        next
          case fr: (Inr p)
          obtain v r where p: "p = (v, r)" by (cases p)
          have r: "length r < length s" using assms fr p r1 by (auto dest: good_scannerD)
          let ?r = "skip_ws r" and ?s = "skip_ws (tl (skip_ws r))"
          have le: "length ?r \<le> length r" "length ?s \<le> length (tl ?r)" by (rule length_skip_ws)+
          have "case scan_members f n ?s (dict_set acc (PStr k) v) of Inl e \<Rightarrow> json_error e | Inr (v, r) \<Rightarrow> length r < length ?s"
            if "starts CHR '','' ?r"
            using Suc.IH [of ?s "dict_set acc (PStr k) v"] Suc.prems r le starts_tl_shorter [OF that] by linarith
          then show ?thesis
            using True Inr q colon fr p r le starts_tl_shorter [of _ ?r]
            by (auto simp: Let_def split: sum.splits)
        qed
      qed (use True Inr q in simp)
    qed
  qed simp
qed simp

lemma scan_body_good:
  assumes "\<And>f. inner = Some f \<Longrightarrow> good_scanner f"
  shows "good_scanner (scan_body inner)"
  unfolding good_scanner_def
proof
  fix s
  let ?r = "skip_ws (tl s)"
  have r: "length ?r < length s" if "s \<noteq> []"
    using that length_skip_ws [of "tl s"] by (cases s) auto
  have obj: "case scan_members f (Suc (length ?r)) ?r [] of Inl e \<Rightarrow> json_error e | Inr (v, r) \<Rightarrow> length r < length s"
    if "s \<noteq> []" "inner = Some f" for f
    using scan_members_good [OF assms [OF that(2)], of ?r "Suc (length ?r)" "[]"] r [OF that(1)]
    by (auto split: sum.splits)
  have arr: "case scan_items f (Suc (length ?r)) ?r [] of Inl e \<Rightarrow> json_error e | Inr (v, r) \<Rightarrow> length r < length s"
    if "s \<noteq> []" "inner = Some f" for f
    using scan_items_good [OF assms [OF that(2)], of ?r "Suc (length ?r)" "[]"] r [OF that(1)]
    by (auto split: sum.splits)
  have num: "case scan_number s of Inl e \<Rightarrow> json_error e | Inr (v, r) \<Rightarrow> length r < length s"
    using scan_number_good by (simp add: good_scanner_def)
  have str: "case bindE (scan_str (tl s)) (\<lambda>(x, r). Inr (PStr x, r)) of
      Inl e \<Rightarrow> json_error e | Inr (v, r) \<Rightarrow> length r < length s" if "s \<noteq> []"
    using that scan_str_shorter [of "tl s"] scan_str_error [of "tl s"]
    by (cases "scan_str (tl s)") (auto simp: less_diff_conv)
  have tl: "length (tl ?r) < length s" if "s \<noteq> []" using r [OF that] by simp
  show "case scan_body inner s of Inl e \<Rightarrow> json_error e | Inr (v, r) \<Rightarrow> length r < length s"
    using obj arr num str tl
    by (simp add: scan_body_def Let_def split: option.split)
qed

lemma scan_once_good: "good_scanner (scan_once d)"
  by (induction d) (auto intro: scan_body_good)

lemma json_loads_error: "json_loads limit s = Inl e \<Longrightarrow> json_error e"
  using scan_once_good [of limit]
  by (auto simp: json_loads_def res_simps split: if_splits dest: good_scannerD)

subsection \<open>Values up to the order of their members\<close>

text \<open>
  Two dictionaries with the same members are equal for Python whatever their order; \<open>norm_json\<close>
  sorts the members of every dictionary inside a value by their keys.
\<close>

fun key_text :: "pyval \<Rightarrow> string" where
  "key_text (PStr s) = s"
| "key_text _ = []"

fun norm_json :: "pyval \<Rightarrow> pyval" where
  "norm_json (PList xs) = PList (map norm_json xs)"
| "norm_json (PDict kvs) = PDict (sort_key (\<lambda>kv. key_text (fst kv)) (map (\<lambda>(k, v). (k, norm_json v)) kvs))"
| "norm_json v = v"

text \<open>Values without a floating-point number.\<close>

fun float_free :: "pyval \<Rightarrow> bool" where
  "float_free (PFloat _) = False"
| "float_free (PList xs) = list_all float_free xs"
| "float_free (PDict kvs) = list_all (\<lambda>(k, v). float_free v) kvs"
| "float_free _ = True"

lemma norm_json_idem [simp]: "norm_json (norm_json v) = norm_json v"
proof (induction v rule: norm_json.induct)
  case (2 kvs)
  let ?k = "\<lambda>kv :: pyval \<times> pyval. key_text (fst kv)"
  let ?n = "\<lambda>(k, v). (k, norm_json v)"
  let ?s = "sort_key ?k (map ?n kvs)"
  have "map ?n ?s = ?s"
  proof (rule map_idI)
    fix kv assume "kv \<in> set ?s"
    then obtain k v where "(k, v) \<in> set kvs" "kv = (k, norm_json v)" by auto
    with 2 show "?n kv = kv" by fastforce
  qed
  moreover have "sort_key ?k ?s = ?s" by (rule sort_key_id_if_sorted) simp
  ultimately show ?case by simp
qed (auto simp: o_def)

subsection \<open>A document contains no NUL byte\<close>

text \<open>\<open>eats s r\<close>: the rest \<open>r\<close> is what remains of \<open>s\<close> after a prefix without NUL.\<close>

definition eats :: "string \<Rightarrow> string \<Rightarrow> bool" where
  "eats s r = (\<exists>p. s = p @ r \<and> CHR 0x00 \<notin> set p)"

lemma eats_refl [simp]: "eats s s"
  by (simp add: eats_def)

lemma eats_trans [trans]: "eats s r \<Longrightarrow> eats r q \<Longrightarrow> eats s q"
  by (force simp: eats_def)

lemma eats_Cons: "c \<noteq> CHR 0x00 \<Longrightarrow> eats s r \<Longrightarrow> eats (c # s) r"
  unfolding eats_def by (metis Cons_eq_appendI set_ConsD)

lemma eats_dropWhile: "\<not> P CHR 0x00 \<Longrightarrow> eats s (dropWhile P s)"
  unfolding eats_def by (intro exI [of _ "takeWhile P s"]) (auto dest: set_takeWhileD)

lemma eats_skip_ws: "eats s (skip_ws s)"
  unfolding skip_ws_def by (rule eats_dropWhile) (simp add: is_json_ws_def)

lemma eats_digits: "eats s (dropWhile is_dec_digit s)"
  by (rule eats_dropWhile) (simp add: is_dec_digit_def)

lemma eats_starts: "starts c s \<Longrightarrow> c \<noteq> CHR 0x00 \<Longrightarrow> eats s (tl s)"
  by (cases s) (auto simp: starts_def intro: eats_Cons)

lemma eats_prefix: "has_prefix p s \<Longrightarrow> CHR 0x00 \<notin> set p \<Longrightarrow> eats s (drop (length p) s)"
  unfolding has_prefix_def eats_def by (metis append_take_drop_id)

lemma hex_val_NUL [simp]: "hex_val CHR 0x00 = None"
  by (simp add: hex_val_def)

lemma hex4_NUL: "hex4 a b c d = Some n \<Longrightarrow> a \<noteq> CHR 0x00 \<and> b \<noteq> CHR 0x00 \<and> c \<noteq> CHR 0x00 \<and> d \<noteq> CHR 0x00"
  by (auto simp: hex4_def split: option.splits)

lemma eats_hex4: "hex4 a b c d = Some n \<Longrightarrow> eats s r \<Longrightarrow> eats (a # b # c # d # s) r"
  by (drule hex4_NUL) (simp add: eats_Cons)

lemma eats_unicode: "unicode_escape s = Some (p, r) \<Longrightarrow> eats s r"
  unfolding unicode_escape_def
  by (auto split: list.splits option.splits if_splits intro: eats_hex4 [OF _ eats_refl]
      eats_hex4 [OF _ eats_Cons [OF _ eats_Cons [OF _ eats_hex4 [OF _ eats_refl]]]])

lemma eats_str_step: "str_step s = StrMore p r \<Longrightarrow> eats s r" "str_step s = StrStop r \<Longrightarrow> eats s r"
proof -
  have low: "c \<noteq> CHR 0x00" if "\<not> of_char c < (32 :: nat)" for c using that by auto
  have esc: "e \<noteq> CHR 0x00" if "simple_escape e = Some x" for e x using that by (auto simp: simple_escape_def split: if_splits)
  show "str_step s = StrMore p r \<Longrightarrow> eats s r"
    by (auto simp: str_step_def split: list.splits if_splits option.splits dest!: low esc eats_unicode
        intro: eats_Cons eats_refl)
  show "str_step s = StrStop r \<Longrightarrow> eats s r"
    by (auto simp: str_step_def split: list.splits if_splits option.splits intro: eats_Cons eats_refl)
qed

lemma eats_scan_str: "scan_str s = Inr (x, r) \<Longrightarrow> eats s r"
proof (induction s arbitrary: x rule: scan_str.induct)
  case (1 s)
  then show ?case
    by (auto simp: scan_str.simps [of s] res_simps split: str_next.splits intro: eats_str_step(2) eats_trans [OF eats_str_step(1)])
qed

lemma eats_frac: "scan_frac s = (f, r) \<Longrightarrow> eats s r"
  using eats_digits by (auto simp: scan_frac_def split: list.splits if_splits intro: eats_Cons)

lemma eats_exp: "scan_exp s = Some (e, r) \<Longrightarrow> eats s r"
proof -
  have sign: "eats q (dropWhile is_dec_digit (tl q))" if "q \<noteq> []" "hd q = CHR ''-'' \<or> hd q = CHR ''+''" for q
    using that eats_digits [of "tl q"] by (cases q) (auto intro: eats_Cons)
  show "scan_exp s = Some (e, r) \<Longrightarrow> eats s r"
    by (auto simp: scan_exp_def Let_def split: list.splits if_splits intro!: eats_Cons sign eats_digits)
qed

lemma eats_frac_exp: "scan_frac_exp neg ip s = Inr (v, r) \<Longrightarrow> eats s r"
proof -
  assume a: "scan_frac_exp neg ip s = Inr (v, r)"
  let ?q = "if fst (scan_frac s) = [] then s else snd (scan_frac s)"
  have q: "eats s ?q" using eats_frac [of s "fst (scan_frac s)" "snd (scan_frac s)"] by simp
  from a have "r = s \<or> r = ?q \<or> (\<exists>e. scan_exp ?q = Some (e, r))"
    by (auto simp: scan_frac_exp_def Let_def split: option.splits if_splits)
  then show ?thesis
  proof (elim disjE exE)
    fix e assume "scan_exp ?q = Some (e, r)"
    from eats_trans [OF q eats_exp [OF this]] show ?thesis .
  qed (use q in simp_all)
qed

lemma eats_number: "scan_number s = Inr (v, r) \<Longrightarrow> eats s r"
proof -
  assume a: "scan_number s = Inr (v, r)"
  define s1 where "s1 = (if starts CHR ''-'' s then tl s else s)"
  have s1: "eats s s1" using eats_starts [of "CHR ''-''" s] by (simp add: s1_def)
  have d: "eats s1 (dropWhile is_dec_digit s1)" "hd s1 = CHR ''0'' \<Longrightarrow> s1 \<noteq> [] \<Longrightarrow> eats s1 (tl s1)"
    by (rule eats_digits) (cases s1, auto intro: eats_Cons)
  from a have "s1 \<noteq> []" and "hd s1 = CHR ''0'' \<and> (\<exists>n i. scan_frac_exp n i (tl s1) = Inr (v, r)) \<or>
      (\<exists>n i. scan_frac_exp n i (dropWhile is_dec_digit s1) = Inr (v, r))"
    by (auto simp: scan_number_def Let_def s1_def [symmetric] split: if_splits)
  then have "eats s1 r"
    using d eats_trans [OF d(1) eats_frac_exp] eats_trans [OF d(2) eats_frac_exp] by blast
  from eats_trans [OF s1 this] show ?thesis .
qed

definition eater :: "scanner \<Rightarrow> bool" where
  "eater f = (\<forall>s v r. f s = Inr (v, r) \<longrightarrow> eats s r)"

lemma eats_items:
  assumes "eater f"
  shows "scan_items f n s acc = Inr (v, r) \<Longrightarrow> eats s r"
proof (induction n arbitrary: s acc)
  case (Suc n)
  from Suc.prems obtain w q where q: "f s = Inr (w, q)" by (auto simp: res_simps)
  have sq: "eats s (skip_ws q)" using assms q eats_trans [OF _ eats_skip_ws] unfolding eater_def by blast
  have close: "eats s (tl (skip_ws q))" if "starts CHR '']'' (skip_ws q) \<or> starts CHR '','' (skip_ws q)"
    using that sq eats_starts eats_trans by fastforce
  then have nxt: "eats s (skip_ws (tl (skip_ws q)))" if "starts CHR '','' (skip_ws q)"
    using that eats_skip_ws eats_trans by blast
  from Suc.prems q consider "starts CHR '']'' (skip_ws q)" "r = tl (skip_ws q)"
    | "starts CHR '','' (skip_ws q)" "scan_items f n (skip_ws (tl (skip_ws q))) (acc @ [w]) = Inr (v, r)"
    by (auto simp: Let_def split: if_splits)
  then show ?case
  proof cases
    case 1
    then show ?thesis using close by simp
  next
    case 2
    then show ?thesis using eats_trans [OF nxt Suc.IH] by blast
  qed
qed simp

lemma eats_members:
  assumes "eater f"
  shows "scan_members f n s acc = Inr (v, r) \<Longrightarrow> eats s r"
proof (induction n arbitrary: s acc)
  case (Suc n)
  from Suc.prems obtain k r0 w q where
    s: "starts CHR 0x22 s" "scan_str (tl s) = Inr (k, r0)" "starts CHR '':'' (skip_ws r0)"
    "f (skip_ws (tl (skip_ws r0))) = Inr (w, q)"
    by (auto simp: res_simps Let_def split: if_splits)
  have "eats s (tl s)" using eats_starts [OF s(1)] by simp
  also have "eats (tl s) r0" by (rule eats_scan_str [OF s(2)])
  also have "eats r0 (skip_ws r0)" by (rule eats_skip_ws)
  also have "eats (skip_ws r0) (tl (skip_ws r0))" using eats_starts [OF s(3)] by simp
  also have "eats (tl (skip_ws r0)) (skip_ws (tl (skip_ws r0)))" by (rule eats_skip_ws)
  also have "eats (skip_ws (tl (skip_ws r0))) q" using assms s(4) by (auto simp: eater_def)
  also have "eats q (skip_ws q)" by (rule eats_skip_ws)
  finally have sq: "eats s (skip_ws q)" .
  have close: "eats s (tl (skip_ws q))" if "starts c (skip_ws q)" "c \<noteq> CHR 0x00" for c
    using eats_trans [OF sq eats_starts [OF that]] .
  have nxt: "eats s (skip_ws (tl (skip_ws q)))" if "starts CHR '','' (skip_ws q)"
    using eats_trans [OF close [OF that] eats_skip_ws] by simp
  from Suc.prems s consider "starts CHR ''}'' (skip_ws q)" "r = tl (skip_ws q)"
    | "starts CHR '','' (skip_ws q)" "scan_members f n (skip_ws (tl (skip_ws q))) (dict_set acc (PStr k) w) = Inr (v, r)"
    by (auto simp: Let_def split: if_splits)
  then show ?case
  proof cases
    case 1
    then show ?thesis using close by simp
  next
    case 2
    then show ?thesis using eats_trans [OF nxt Suc.IH] by blast
  qed
qed simp

lemma eater_body:
  assumes "\<And>f. inner = Some f \<Longrightarrow> eater f"
  shows "eater (scan_body inner)"
  unfolding eater_def
proof (intro allI impI)
  fix s v r assume a: "scan_body inner s = Inr (v, r)"
  let ?q = "skip_ws (tl s)"
  have q: "eats s ?q" if "starts c s" "c \<noteq> CHR 0x00" for c
    using eats_trans [OF eats_starts [OF that] eats_skip_ws] .
  have q': "eats s (tl ?q)" if "starts c s" "c \<noteq> CHR 0x00" "starts c' ?q" "c' \<noteq> CHR 0x00" for c c'
    using eats_trans [OF q [OF that(1,2)] eats_starts [OF that(3,4)]] .
  have str: "eats s r" if "starts CHR 0x22 s" "scan_str (tl s) = Inr (x, r)" for x
    using eats_trans [OF eats_starts [OF that(1)] eats_scan_str [OF that(2)]] by simp
  have obj: "eats s r" if "starts CHR ''{'' s" "inner = Some f" "scan_members f n ?q [] = Inr (v, r)" for f n
    using eats_trans [OF q [OF that(1)] eats_members [OF assms [OF that(2)] that(3)]] by simp
  have arr: "eats s r" if "starts CHR ''['' s" "inner = Some f" "scan_items f n ?q [] = Inr (v, r)" for f n
    using eats_trans [OF q [OF that(1)] eats_items [OF assms [OF that(2)] that(3)]] by simp
  have pre: "eats s (drop (length p) s)" if "has_prefix p s" "CHR 0x00 \<notin> set p" for p
    using eats_prefix [OF that] .
  show "eats s r"
    using a str obj arr q' eats_number [of s v r] pre [of "''null''"] pre [of "''true''"] pre [of "''false''"] pre [of "''NaN''"]
      pre [of "''Infinity''"] pre [of "''-Infinity''"]
    by (auto simp: scan_body_def Let_def res_simps eval_nat_numeral simp del: scan_members.simps scan_items.simps
        split: if_splits option.splits)
qed

lemma eater_once: "eater (scan_once d)"
  by (induction d) (auto intro: eater_body)

lemma json_loads_no_NUL:
  assumes "json_loads limit b = Inr v"
  shows "CHR 0x00 \<notin> set b"
proof -
  from assms obtain r where r: "scan_once limit (skip_ws b) = Inr (v, r)" "skip_ws r = []"
    by (auto simp: json_loads_def res_simps split: if_splits)
  have "eats b (skip_ws b)" by (rule eats_skip_ws)
  also have "eats (skip_ws b) r" using eater_once r(1) by (auto simp: eater_def)
  also have "eats r []" using eats_skip_ws [of r] r(2) by simp
  finally show ?thesis by (simp add: eats_def)
qed

end
