(* ===== verification/Vk_Canonical_Json.thy ===== *)
theory Vk_Canonical_Json
  imports Vk_Json "HOL-Library.Multiset"
begin

section \<open>The contract of the canonical JSON writer\<close>

text \<open>
  \<^verbatim>\<open>canonical_json_bytes\<close> belongs to \<^verbatim>\<open>meridian_storage.semantics\<close>, a package the adapter only
  calls. The locale \<open>canonical_json\<close> states what the adapter relies on: the writer's output is
  UTF-8 that \<^verbatim>\<open>json.loads\<close> reads back to a value with the same canonical form (the same value,
  up to the order of members, when no float is involved), and the order of a dictionary's
  members does not matter. The reference writer \<open>ref_json\<close> below (compact separators, sorted
  members, JSON escapes, no floats) is an instance of the contract, so the contract can be met
  together with the model of \<^verbatim>\<open>json.loads\<close>.
\<close>

locale canonical_json =
  fixes cjb :: "pyval \<Rightarrow> bytes res" and limit :: nat
  assumes reads_back: "cjb v = Inr b \<Longrightarrow>
      \<exists>v'. utf8_ok b \<and> json_loads limit b = Inr v' \<and> cjb v' = Inr b \<and>
        (float_free v \<longrightarrow> norm_json v' = norm_json v)"
    and order_free: "norm_json v = norm_json v' \<Longrightarrow> cjb v = cjb v'"
begin

lemma same_bytes_same_value:
  assumes "cjb v = Inr b" "cjb w = Inr b" "float_free v" "float_free w"
  shows "norm_json v = norm_json w"
proof -
  from reads_back [OF assms(1)] assms(3) obtain v' where
    "json_loads limit b = Inr v'" "norm_json v' = norm_json v" by blast
  with reads_back [OF assms(2)] assms(4) show ?thesis by auto
qed

end

subsection \<open>A reference writer\<close>

definition esc :: "char \<Rightarrow> string" where
  "esc c =
     (if c = CHR 0x22 then [CHR 0x5C, CHR 0x22] else if c = CHR 0x5C then [CHR 0x5C, CHR 0x5C]
      else if c = CHR 0x08 then [CHR 0x5C, CHR ''b''] else if c = CHR 0x09 then [CHR 0x5C, CHR ''t'']
      else if c = CHR 0x0A then [CHR 0x5C, CHR ''n''] else if c = CHR 0x0C then [CHR 0x5C, CHR ''f'']
      else if c = CHR 0x0D then [CHR 0x5C, CHR ''r'']
      else if of_char c < (32 :: nat) then
        [CHR 0x5C, CHR ''u'', CHR ''0'', CHR ''0'', digit_char (of_char c div 16), digit_char (of_char c mod 16)]
      else [c])"

definition quote :: "string \<Rightarrow> string" where
  "quote s = CHR 0x22 # concat (map esc s) @ [CHR 0x22]"

fun join :: "string list \<Rightarrow> string" where
  "join [] = []"
| "join [b] = b"
| "join (b # bs) = b @ CHR '','' # join bs"

definition print_body :: "(pyval \<Rightarrow> bytes res) option \<Rightarrow> pyval \<Rightarrow> bytes res" where
  "print_body inner v = (case v of
     PNone \<Rightarrow> Inr ''null''
   | PBool b \<Rightarrow> Inr (if b then ''true'' else ''false'')
   | PInt i \<Rightarrow> if length (show_nat (nat \<bar>i\<bar>)) \<le> max_str_digits then Inr (show_int i)
       else Inl (ValueError ''Exceeds the limit for integer string conversion'')
   | PStr s \<Rightarrow> if utf8_ok s then Inr (quote s) else Inl UnicodeEncodeError
   | PList xs \<Rightarrow> (case inner of None \<Rightarrow> Inl RecursionError
       | Some f \<Rightarrow> bindE (mapE f xs) (\<lambda>bs. Inr (CHR ''['' # join bs @ [CHR '']''])))
   | PDict kvs \<Rightarrow> (case inner of None \<Rightarrow> Inl RecursionError
       | Some f \<Rightarrow>
           if list_all (\<lambda>(k, v). is_str k \<and> utf8_ok (key_text k)) kvs \<and> distinct (map fst kvs)
           then bindE (mapE (\<lambda>(k, v). bindE (f v) (\<lambda>b. Inr (quote (key_text k) @ CHR '':'' # b))) kvs)
             (\<lambda>bs. Inr (CHR ''{'' # join bs @ [CHR ''}'']))
           else Inl (TypeError ''keys must be distinct strings''))
   | _ \<Rightarrow> Inl (TypeError ''value is not float-free JSON''))"

primrec print_json :: "nat \<Rightarrow> pyval \<Rightarrow> bytes res" where
  "print_json 0 = print_body None"
| "print_json (Suc d) = print_body (Some (print_json d))"

definition ref_json :: "nat \<Rightarrow> pyval \<Rightarrow> bytes res" where
  "ref_json limit v = print_json limit (norm_json v)"

subsection \<open>Strings read back\<close>

lemma hex4_low_byte:
  "n < 32 \<Longrightarrow> hex4 CHR ''0'' CHR ''0'' (digit_char (n div 16)) (digit_char (n mod 16)) = Some n"
proof -
  assume n: "n < 32"
  then have "n div 16 < 16" by (simp add: less_mult_imp_div_less)
  moreover have "hex_val CHR ''0'' = Some 0" by (simp add: hex_val_def)
  ultimately show ?thesis by (simp add: hex4_def)
qed

lemma unicode_escape_low:
  assumes "hex4 a b c d = Some n" "n < 128"
  shows "unicode_escape (a # b # c # d # s) = Some ([char_of n], s)"
  using assms by (auto simp: unicode_escape_def high_surrogate_def utf8_of_cp_def split: list.split)

lemma str_step_esc: "str_step (esc c @ s) = StrMore [c] s"
proof (cases "of_char c < (32 :: nat)")
  case True
  then show ?thesis
    by (auto simp: esc_def str_step_def simple_escape_def unicode_escape_low hex4_low_byte)
next
  case False
  then have "c \<noteq> CHR 0x08" "c \<noteq> CHR 0x09" "c \<noteq> CHR 0x0A" "c \<noteq> CHR 0x0C" "c \<noteq> CHR 0x0D" by auto
  with False show ?thesis
    by (auto simp: esc_def str_step_def simple_escape_def)
qed

lemma scan_str_esc: "scan_str (concat (map esc s) @ CHR 0x22 # r) = Inr (s, r)"
proof (induction s)
  case Nil
  then show ?case by (simp add: scan_str.simps str_step_def)
next
  case (Cons c s)
  have "scan_str (esc c @ concat (map esc s) @ CHR 0x22 # r) = cons_str [c] (scan_str (concat (map esc s) @ CHR 0x22 # r))"
    by (subst scan_str.simps) (simp add: str_step_esc)
  with Cons show ?case by (simp add: cons_str_def)
qed

lemma digit_char_ascii [simp]: "n < 16 \<Longrightarrow> of_char (digit_char n) < (128 :: nat)"
  by (simp add: of_char_digit_char)

lemma utf8_ok_esc: "utf8_ok s \<Longrightarrow> utf8_ok (concat (map esc s) @ t) = utf8_ok t"
proof (induction s rule: length_induct)
  case (1 s)
  have high: "esc c = [c]" if "\<not> of_char c < (128 :: nat)" for c
  proof -
    from that have "c \<noteq> CHR 0x22" "c \<noteq> CHR 0x5C" "c \<noteq> CHR 0x08" "c \<noteq> CHR 0x09" "c \<noteq> CHR 0x0A"
      "c \<noteq> CHR 0x0C" "c \<noteq> CHR 0x0D" by auto
    with that show ?thesis by (simp add: esc_def)
  qed
  have low: "utf8_ok (esc c @ x) = utf8_ok x" if "of_char c < (128 :: nat)" for c x
    using that by (auto simp: esc_def less_mult_imp_div_less)
  show ?case
  proof (cases s)
    case (Cons c cs)
    with "1.prems" have "utf8_ok (c # cs)" by simp
    then show ?thesis
    proof (cases rule: utf8_ok_Cons_cases)
      case 1
      with Cons "1.IH" low show ?thesis by simp
    next
      case (2 c1 r)
      then have "\<not> of_char c < (128 :: nat)" "\<not> of_char c1 < (128 :: nat)"
        by (auto simp: utf8_two_def utf8_cont_def)
      with 2 Cons "1.IH" high show ?thesis by simp
    next
      case (3 c1 c2 r)
      then have "\<not> of_char c < (128 :: nat)" "\<not> of_char c1 < (128 :: nat)" "\<not> of_char c2 < (128 :: nat)"
        by (auto simp: utf8_three_def utf8_cont_def Let_def)
      with 3 Cons "1.IH" high show ?thesis by simp
    next
      case (4 c1 c2 c3 r)
      then have "\<not> of_char c < (128 :: nat)" "\<not> of_char c1 < (128 :: nat)" "\<not> of_char c2 < (128 :: nat)"
        "\<not> of_char c3 < (128 :: nat)"
        by (auto simp: utf8_four_def utf8_cont_def Let_def)
      with 4 Cons "1.IH" high show ?thesis by simp
    qed
  qed simp
qed

subsection \<open>Numbers read back\<close>

lemma digits_val_append: "digits_val (s @ [c]) = digits_val s * 10 + (of_char c - 48)"
  by (simp add: digits_val_def)

lemma digits_val_show_nat: "digits_val (show_nat n) = int n"
proof (induction n rule: show_nat.induct)
  case (1 n)
  have d: "of_char (digit_char k) = (48 + int k)" if "k < 10" for k
    using of_char_digit_char [of k] of_nat_of_char [of "digit_char k", where ?'a = int] that by simp
  show ?case
  proof (cases "n < 10")
    case True
    then show ?thesis by (simp add: show_nat.simps [of n] digits_val_def d)
  next
    case False
    with "1.IH" show ?thesis
      by (simp add: show_nat.simps [of n] digits_val_append d) presburger
  qed
qed

lemma hd_show_nat: "hd (show_nat n) = CHR ''0'' \<longleftrightarrow> n = 0"
proof (induction n rule: show_nat.induct)
  case (1 n)
  show ?case
  proof (cases "n < 10")
    case True
    then show ?thesis using digit_char_inj [of n 0] by (simp add: show_nat.simps [of n])
  next
    case False
    with "1.IH" show ?thesis by (simp add: show_nat.simps [of n] div_eq_0_iff)
  qed
qed

text \<open>What may follow a value inside a document.\<close>

definition delim :: "string \<Rightarrow> bool" where
  "delim r = (r = [] \<or> starts CHR '','' r \<or> starts CHR '']'' r \<or> starts CHR ''}'' r)"

lemma delim_simps [simp]: "delim []" "delim (CHR '','' # r)" "delim (CHR '']'' # r)" "delim (CHR ''}'' # r)"
  by (simp_all add: delim_def starts_def)

lemma delim_number:
  assumes "delim r"
  shows "scan_frac r = ([], r)" "scan_exp r = None" "takeWhile is_dec_digit r = []" "dropWhile is_dec_digit r = r"
  using assms
  by (auto simp: delim_def starts_def scan_frac_def scan_exp_def is_dec_digit_def split: list.splits)

lemma takeWhile_digits:
  assumes "list_all is_dec_digit s" "delim r"
  shows "takeWhile is_dec_digit (s @ r) = s" "dropWhile is_dec_digit (s @ r) = r"
  using assms(1) delim_number(3,4) [OF assms(2)]
  by (simp_all add: takeWhile_append2 dropWhile_append2 list_all_iff)

lemma scan_frac_exp_int:
  "delim r \<Longrightarrow> length ip \<le> max_str_digits \<Longrightarrow>
    scan_frac_exp neg ip r = Inr (PInt ((if neg then - 1 else 1) * digits_val ip), r)"
  by (simp add: scan_frac_exp_def delim_number)

lemma scan_number_digits:
  assumes "delim r" "length (show_nat n) \<le> max_str_digits"
  shows "scan_number (show_nat n @ r) = Inr (PInt (int n), r)"
    and "scan_number (CHR ''-'' # show_nat n @ r) = Inr (PInt (- int n), r)"
proof -
  let ?s = "show_nat n @ r"
  have d: "is_dec_digit (hd (show_nat n))"
    using show_nat_digits [of n] by (cases "show_nat n") auto
  then have m: "\<not> starts CHR ''-'' ?s"
    by (cases "show_nat n") (auto simp: starts_def is_dec_digit_def)
  have body: "(if hd ?s = CHR ''0'' then scan_frac_exp neg [CHR ''0''] (tl ?s)
      else scan_frac_exp neg (takeWhile is_dec_digit ?s) (dropWhile is_dec_digit ?s)) =
      Inr (PInt ((if neg then - 1 else 1) * int n), r)" for neg
  proof (cases "n = 0")
    case True
    then have "show_nat n = [CHR ''0'']" by (simp add: show_nat.simps)
    with True assms show ?thesis by (simp add: scan_frac_exp_int digits_val_def)
  next
    case False
    then have "hd ?s \<noteq> CHR ''0''" by (simp add: hd_show_nat)
    moreover have "scan_frac_exp neg (show_nat n) r = Inr (PInt ((if neg then - 1 else 1) * int n), r)"
      using assms by (simp add: scan_frac_exp_int digits_val_show_nat)
    ultimately show ?thesis
      using takeWhile_digits [OF show_nat_digits assms(1)] by simp
  qed
  show "scan_number ?s = Inr (PInt (int n), r)"
    using body [of False] m d by (simp add: scan_number_def)
  show "scan_number (CHR ''-'' # ?s) = Inr (PInt (- int n), r)"
    using body [of True] d by (simp add: scan_number_def starts_def)
qed

subsection \<open>Values read back\<close>

text \<open>How a printed value starts: with ASCII, not white space, not a closing bracket.\<close>

definition value_start :: "string \<Rightarrow> bool" where
  "value_start b = (b \<noteq> [] \<and> \<not> is_json_ws (hd b) \<and> hd b \<noteq> CHR '']'' \<and> hd b \<noteq> CHR ''}'' \<and>
     of_char (hd b) < (128 :: nat))"

definition reads :: "scanner \<Rightarrow> (pyval \<Rightarrow> bytes res) \<Rightarrow> bool" where
  "reads f p = (\<forall>v b. p v = Inr b \<longrightarrow>
     value_start b \<and> utf8_ok b \<and> (\<forall>r. delim r \<longrightarrow> f (b @ r) = Inr (v, r)))"

lemma skip_ws_start [simp]: "value_start b \<Longrightarrow> skip_ws (b @ r) = b @ r"
  by (cases b) (auto simp: value_start_def skip_ws_def)

lemma skip_ws_punct [simp]:
  "skip_ws [] = []" "skip_ws (CHR '','' # r) = CHR '','' # r" "skip_ws (CHR '']'' # r) = CHR '']'' # r"
  "skip_ws (CHR ''}'' # r) = CHR ''}'' # r" "skip_ws (CHR '':'' # r) = CHR '':'' # r"
  "skip_ws (CHR 0x22 # r) = CHR 0x22 # r"
  by (simp_all add: skip_ws_def is_json_ws_def)

lemma starts_simp [simp]: "starts c (x # s) \<longleftrightarrow> x = c" "\<not> starts c []"
  by (simp_all add: starts_def)

lemma starts_append [simp]: "b \<noteq> [] \<Longrightarrow> starts c (b @ r) \<longleftrightarrow> hd b = c"
  by (cases b) auto

lemma join_Cons: "bs \<noteq> [] \<Longrightarrow> join (b # bs) = b @ CHR '','' # join bs"
  by (cases bs) auto

lemma value_start_join: "value_start b \<Longrightarrow> value_start (join (b # bs))"
  by (cases bs) (auto simp: value_start_def)

lemma reads_items:
  assumes "reads f p"
  shows "list_all2 (\<lambda>x b. p x = Inr b) xs bs \<Longrightarrow> xs \<noteq> [] \<Longrightarrow> length xs \<le> n \<Longrightarrow>
    scan_items f n (join bs @ CHR '']'' # r) acc = Inr (PList (acc @ xs), r)"
proof (induction xs arbitrary: bs n acc)
  case (Cons x xs)
  then obtain b bs' m where bs: "bs = b # bs'" "p x = Inr b" "list_all2 (\<lambda>x b. p x = Inr b) xs bs'"
    and n: "n = Suc m" by (cases n) (auto simp: list_all2_Cons1)
  note rd = assms [unfolded reads_def, rule_format, OF bs(2)]
  show ?case
  proof (cases "xs = []")
    case True
    with bs n rd show ?thesis by simp
  next
    case False
    then obtain x' xs' b' bs'' where s: "xs = x' # xs'" "bs' = b' # bs''" "p x' = Inr b'"
      using bs(3) by (cases xs) (auto simp: list_all2_Cons1)
    have "value_start (join bs')"
      using assms s by (auto simp: reads_def intro: value_start_join)
    with False Cons bs n rd s(2) show ?thesis by (simp add: join_Cons)
  qed
qed simp

lemma dict_set_fresh: "k \<notin> fst ` set d \<Longrightarrow> dict_set d k v = d @ [(k, v)]"
  by (induction d) (auto simp: dict_set_def)

definition print_member :: "(pyval \<Rightarrow> bytes res) \<Rightarrow> pyval \<times> pyval \<Rightarrow> bytes res" where
  "print_member p = (\<lambda>(k, v). bindE (p v) (\<lambda>b. Inr (quote (key_text k) @ CHR '':'' # b)))"

lemma value_start_quote: "value_start (quote s @ r)"
  by (simp add: value_start_def quote_def is_json_ws_def)

lemma reads_members:
  assumes "reads f p"
  shows "list_all2 (\<lambda>kv b. print_member p kv = Inr b) kvs bs \<Longrightarrow> kvs \<noteq> [] \<Longrightarrow> length kvs \<le> n \<Longrightarrow>
    list_all (\<lambda>(k, v). is_str k) kvs \<Longrightarrow> distinct (map fst (acc @ kvs)) \<Longrightarrow>
    scan_members f n (join bs @ CHR ''}'' # r) acc = Inr (PDict (acc @ kvs), r)"
proof (induction kvs arbitrary: bs n acc)
  case (Cons kv kvs)
  obtain k v where kv: "kv = (PStr k, v)" using Cons.prems(4) by (cases kv; cases "fst kv") auto
  obtain b' bs' m where b': "bs = b' # bs'" "print_member p kv = Inr b'"
    "list_all2 (\<lambda>kv b. print_member p kv = Inr b) kvs bs'"
    and n: "n = Suc m" using Cons.prems by (cases n) (auto simp: list_all2_Cons1)
  from b'(2) kv obtain b where b: "p v = Inr b" "b' = quote k @ CHR '':'' # b"
    by (auto simp: print_member_def res_simps)
  note rd = assms [unfolded reads_def, rule_format, OF b(1)]
  have fresh: "dict_set acc (PStr k) v = acc @ [(PStr k, v)]"
    using Cons.prems(5) kv by (intro dict_set_fresh) auto
  show ?case
  proof (cases "kvs = []")
    case True
    with b' b n rd kv fresh show ?thesis by (simp add: quote_def scan_str_esc)
  next
    case False
    then obtain kv1 kvs1 b1 bs1 where s: "kvs = kv1 # kvs1" "bs' = b1 # bs1" "print_member p kv1 = Inr b1"
      using b'(3) by (cases kvs) (auto simp: list_all2_Cons1)
    have vs: "value_start (join bs')"
      using s by (auto simp: print_member_def res_simps intro!: value_start_join value_start_quote split: prod.splits)
    have "scan_members f m (join bs' @ CHR ''}'' # r) (acc @ [kv]) = Inr (PDict ((acc @ [kv]) @ kvs), r)"
      using False Cons.prems n b'(3) by (intro Cons.IH) auto
    with False b' b n rd kv fresh s vs show ?thesis by (simp add: join_Cons quote_def scan_str_esc)
  qed
qed simp

lemma dec_digit_facts:
  assumes "is_dec_digit c"
  shows "c \<noteq> CHR 0x22" "c \<noteq> CHR ''{''" "c \<noteq> CHR ''[''" "c \<noteq> CHR ''n''" "c \<noteq> CHR ''t''" "c \<noteq> CHR ''f''"
    "c \<noteq> CHR ''N''" "c \<noteq> CHR ''I''" "c \<noteq> CHR ''-''" "c \<noteq> CHR '']''" "c \<noteq> CHR ''}''" "\<not> is_json_ws c"
    "of_char c < (128 :: nat)"
  using assms by (auto simp: is_dec_digit_def is_json_ws_def)

lemma scan_body_digit:
  assumes "is_dec_digit c"
  shows "scan_body inner (c # s) = scan_number (c # s)"
    and "scan_body inner (CHR ''-'' # c # s) = scan_number (CHR ''-'' # c # s)"
  using dec_digit_facts [OF assms] by (simp_all add: scan_body_def has_prefix_def)

lemma reads_int:
  assumes "length (show_nat (nat \<bar>i\<bar>)) \<le> max_str_digits"
  shows "value_start (show_int i)" "utf8_ok (show_int i)"
    "delim r \<Longrightarrow> scan_body inner (show_int i @ r) = Inr (PInt i, r)"
proof -
  let ?d = "show_nat (nat \<bar>i\<bar>)"
  obtain c cs where d: "?d = c # cs" by (cases ?d) auto
  have c: "is_dec_digit c" using show_nat_digits [of "nat \<bar>i\<bar>"] d by simp
  have i: "show_int i = (if i < 0 then CHR ''-'' # c # cs else c # cs)"
    using d by (auto simp: show_int_def)
  show "value_start (show_int i)"
    using dec_digit_facts [OF c] by (auto simp: i value_start_def is_json_ws_def)
  have "is_ascii ?d"
    using show_nat_digits [of "nat \<bar>i\<bar>"] by (auto simp: is_ascii_def list_all_iff dest: dec_digit_facts(13))
  then show "utf8_ok (show_int i)" using utf8_ok_ascii [of "c # cs"] by (simp add: i d)
  assume r: "delim r"
  show "scan_body inner (show_int i @ r) = Inr (PInt i, r)"
    using scan_body_digit [OF c, of inner "cs @ r"] scan_number_digits [OF r assms] by (auto simp: i d)
qed

lemma reads_simple:
  assumes "print_body None v = Inr b"
  shows "value_start b \<and> utf8_ok b \<and> (\<forall>r. delim r \<longrightarrow> scan_body inner (b @ r) = Inr (v, r))"
proof (cases v)
  case PNone
  with assms show ?thesis
    by (auto simp: print_body_def value_start_def is_json_ws_def scan_body_def has_prefix_def)
next
  case (PBool x)
  with assms show ?thesis
    by (cases x) (auto simp: print_body_def value_start_def is_json_ws_def scan_body_def has_prefix_def)
next
  case (PStr s)
  with assms have b: "b = quote s" "utf8_ok s" by (auto simp: print_body_def split: if_splits)
  have "utf8_ok (quote s)" using b(2) by (simp add: quote_def utf8_ok_esc)
  moreover have "scan_body inner (quote s @ r) = Inr (PStr s, r)" for r
    by (simp add: quote_def scan_body_def scan_str_esc)
  moreover have "value_start (quote s)" using value_start_quote [of s "[]"] by simp
  ultimately show ?thesis using b PStr by simp
next
  case (PInt i)
  with assms show ?thesis by (auto simp: print_body_def reads_int split: if_splits)
qed (use assms in \<open>auto simp: print_body_def split: if_splits\<close>)

lemma utf8_ok_join: "list_all utf8_ok bs \<Longrightarrow> utf8_ok (join bs)"
  by (induction bs rule: join.induct) (auto intro: utf8_ok_append)

lemma reads_list:
  assumes "reads f p" "list_all2 (\<lambda>x b. p x = Inr b) xs bs"
  shows "scan_body (Some f) (CHR ''['' # join bs @ CHR '']'' # r) = Inr (PList xs, r)"
proof (cases "xs = []")
  case False
  then obtain x xs' b bs' where s: "xs = x # xs'" "bs = b # bs'" "p x = Inr b"
    using assms(2) by (cases xs) (auto simp: list_all2_Cons1)
  have vs: "value_start (join bs)" using assms(1) s by (auto simp: reads_def intro: value_start_join)
  have "list_all (\<lambda>b. b \<noteq> []) bs"
    using assms by (auto simp: list_all2_conv_all_nth list_all_length reads_def value_start_def)
  then have "length bs \<le> length (join bs)"
    by (induction bs rule: join.induct) (auto simp: Suc_le_eq)
  moreover have "length xs = length bs" using assms(2) by (rule list_all2_lengthD)
  ultimately have "scan_items f (Suc (length (join bs @ CHR '']'' # r))) (join bs @ CHR '']'' # r) [] = Inr (PList ([] @ xs), r)"
    using False by (intro reads_items [OF assms]) auto
  with vs show ?thesis by (simp add: scan_body_def value_start_def)
qed (use assms in \<open>simp add: scan_body_def\<close>)

lemma print_member_start: "print_member p kv = Inr b \<Longrightarrow> value_start b"
  by (auto simp: print_member_def res_simps intro!: value_start_quote split: prod.splits)

lemma print_member_utf8:
  "reads f p \<Longrightarrow> print_member p (k, v) = Inr b \<Longrightarrow> utf8_ok (key_text k) \<Longrightarrow> utf8_ok b"
  by (auto simp: print_member_def res_simps quote_def utf8_ok_esc reads_def)

lemma reads_dict:
  assumes "reads f p" "list_all2 (\<lambda>kv b. print_member p kv = Inr b) kvs bs"
    "list_all (\<lambda>(k, v). is_str k) kvs" "distinct (map fst kvs)"
  shows "scan_body (Some f) (CHR ''{'' # join bs @ CHR ''}'' # r) = Inr (PDict kvs, r)"
proof (cases "kvs = []")
  case False
  then obtain x xs' b bs' where s: "kvs = x # xs'" "bs = b # bs'" "print_member p x = Inr b"
    using assms(2) by (cases kvs) (auto simp: list_all2_Cons1)
  have vs: "value_start (join bs)"
    using s by (auto intro: value_start_join print_member_start)
  have "list_all (\<lambda>b. b \<noteq> []) bs"
    using assms(2) by (force simp: list_all2_conv_all_nth list_all_length value_start_def dest: print_member_start)
  then have "length bs \<le> length (join bs)"
    by (induction bs rule: join.induct) (auto simp: Suc_le_eq)
  moreover have "length kvs = length bs" using assms(2) by (rule list_all2_lengthD)
  ultimately have "scan_members f (Suc (length (join bs @ CHR ''}'' # r))) (join bs @ CHR ''}'' # r) [] = Inr (PDict ([] @ kvs), r)"
    using False assms by (intro reads_members [OF assms(1,2)]) auto
  with vs show ?thesis by (simp add: scan_body_def value_start_def)
qed (use assms in \<open>simp add: scan_body_def\<close>)

lemma reads_body:
  assumes "reads f p"
  shows "reads (scan_body (Some f)) (print_body (Some p))"
  unfolding reads_def
proof (intro allI impI)
  fix v b assume pb: "print_body (Some p) v = Inr b"
  show "value_start b \<and> utf8_ok b \<and> (\<forall>r. delim r \<longrightarrow> scan_body (Some f) (b @ r) = Inr (v, r))"
  proof (cases v)
    case (PList xs)
    with pb obtain bs where bs: "mapE p xs = Inr bs" "b = CHR ''['' # join bs @ [CHR '']'']"
      by (auto simp: print_body_def res_simps)
    then have l: "list_all2 (\<lambda>x b. p x = Inr b) xs bs" by (simp add: mapE_eq_Inr)
    then have "list_all utf8_ok bs"
      using assms by (auto simp: list_all2_conv_all_nth list_all_length reads_def)
    then have "utf8_ok b" using bs utf8_ok_join by (auto intro!: utf8_ok_append)
    with bs PList reads_list [OF assms l] show ?thesis by (simp add: value_start_def is_json_ws_def)
  next
    case (PDict kvs)
    with pb obtain bs where bs: "mapE (print_member p) kvs = Inr bs" "b = CHR ''{'' # join bs @ [CHR ''}'']"
      and ks: "list_all (\<lambda>(k, v). is_str k \<and> utf8_ok (key_text k)) kvs" "distinct (map fst kvs)"
      by (auto simp: print_body_def print_member_def res_simps split: if_splits)
    from ks have k': "list_all (\<lambda>(k, v). is_str k) kvs" by (auto simp: list_all_iff)
    from bs have l: "list_all2 (\<lambda>kv b. print_member p kv = Inr b) kvs bs" by (simp add: mapE_eq_Inr)
    have "list_all utf8_ok bs"
      using l ks(1)
    proof (induction kvs bs rule: list_all2_induct)
      case (Cons kv kvs b bs)
      then show ?case by (cases kv) (auto intro: print_member_utf8 [OF assms])
    qed simp
    then have "utf8_ok b" using bs utf8_ok_join by (auto intro!: utf8_ok_append)
    with bs PDict reads_dict [OF assms l k' ks(2)] show ?thesis by (simp add: value_start_def is_json_ws_def)
  qed (use pb reads_simple [of v b "Some f"] in \<open>auto simp: print_body_def\<close>)
qed

lemma reads_once: "reads (scan_once d) (print_json d)"
proof (induction d)
  case 0
  have "False" if "print_body None (PList xs) = Inr b \<or> print_body None (PDict kvs) = Inr b" for xs kvs b
    using that by (auto simp: print_body_def)
  then show ?case using reads_simple [of _ _ None] by (auto simp: reads_def)
next
  case (Suc d)
  then show ?case by (simp add: reads_body)
qed

lemma json_loads_print:
  assumes "print_json limit v = Inr b"
  shows "utf8_ok b" "json_loads limit b = Inr v"
proof -
  note rd = reads_once [of limit, unfolded reads_def, rule_format, OF assms]
  then show u: "utf8_ok b" by simp
  have "\<not> has_prefix [CHR 0xEF, CHR 0xBB, CHR 0xBF] b"
    using rd by (cases b) (auto simp: value_start_def has_prefix_def)
  with rd show "json_loads limit b = Inr v"
    using skip_ws_start [of b "[]"] by (auto simp: json_loads_def dest: spec [of _ "[]"])
qed

lemma canonical_json_ref_json: "canonical_json (ref_json limit) limit"
proof
  fix v b assume b: "ref_json limit v = Inr b"
  then have "json_loads limit b = Inr (norm_json v)" "utf8_ok b"
    by (simp_all add: ref_json_def json_loads_print)
  with b show "\<exists>v'. utf8_ok b \<and> json_loads limit b = Inr v' \<and> ref_json limit v' = Inr b \<and>
      (float_free v \<longrightarrow> norm_json v' = norm_json v)"
    by (intro exI [of _ "norm_json v"]) (simp add: ref_json_def)
qed (simp add: ref_json_def)

interpretation ref_writer: canonical_json "ref_json limit" limit for limit
  by (rule canonical_json_ref_json)

subsection \<open>Which values the reference writer prints, and how long they get\<close>

definition printable :: "nat \<Rightarrow> pyval \<Rightarrow> bool" where
  "printable d v = (\<exists>b. print_json d v = Inr b)"

fun json_size :: "pyval \<Rightarrow> nat" where
  "json_size (PInt i) = Suc (length (show_nat (nat \<bar>i\<bar>)))"
| "json_size (PStr s) = 6 * length s + 2"
| "json_size (PList xs) = 2 + sum_list (map (\<lambda>x. Suc (json_size x)) xs)"
| "json_size (PDict kvs) = 2 + sum_list (map (\<lambda>(k, v). 4 + 6 * length (key_text k) + json_size v) kvs)"
| "json_size _ = 5"

lemma mapE_ok: "(\<exists>bs. mapE f xs = Inr bs) \<longleftrightarrow> list_all (\<lambda>x. \<exists>b. f x = Inr b) xs"
  by (induction xs) (auto simp: res_simps)

lemma printable_scalar [simp]:
  "printable d PNone" "printable d (PBool b)" "printable d (PStr s) \<longleftrightarrow> utf8_ok s"
  "printable d (PInt i) \<longleftrightarrow> length (show_nat (nat \<bar>i\<bar>)) \<le> max_str_digits"
  by (cases d; simp add: printable_def print_body_def)+

lemma print_body_dict:
  "print_body (Some f) (PDict kvs) =
     (if list_all (\<lambda>(k, v). is_str k \<and> utf8_ok (key_text k)) kvs \<and> distinct (map fst kvs)
      then bindE (mapE (print_member f) kvs) (\<lambda>bs. Inr (CHR ''{'' # join bs @ [CHR ''}'']))
      else Inl (TypeError ''keys must be distinct strings''))"
  by (simp add: print_body_def print_member_def)

lemma print_member_ok: "(\<exists>b. print_member f kv = Inr b) \<longleftrightarrow> (\<exists>b. f (snd kv) = Inr b)"
  by (auto simp: print_member_def res_simps split: prod.split)

lemma printable_compound:
  "printable (Suc d) (PList xs) \<longleftrightarrow> list_all (printable d) xs"
  "printable (Suc d) (PDict kvs) \<longleftrightarrow>
     list_all (\<lambda>(k, v). is_str k \<and> utf8_ok (key_text k) \<and> printable d v) kvs \<and> distinct (map fst kvs)"
proof -
  show "printable (Suc d) (PList xs) \<longleftrightarrow> list_all (printable d) xs"
    using mapE_ok [of "print_json d" xs] by (auto simp: printable_def [abs_def] print_body_def res_simps)
  show "printable (Suc d) (PDict kvs) \<longleftrightarrow>
     list_all (\<lambda>(k, v). is_str k \<and> utf8_ok (key_text k) \<and> printable d v) kvs \<and> distinct (map fst kvs)"
    using mapE_ok [of "print_member (print_json d)" kvs]
    by (auto simp: printable_def [abs_def] print_body_dict res_simps print_member_ok list_all_iff
        simp del: print_json.simps(1))
qed

lemma printable_numeral [simp]:
  "printable (numeral n) (PList xs) \<longleftrightarrow> list_all (printable (pred_numeral n)) xs"
  "printable (numeral n) (PDict kvs) \<longleftrightarrow>
     list_all (\<lambda>(k, v). is_str k \<and> utf8_ok (key_text k) \<and> printable (pred_numeral n) v) kvs \<and> distinct (map fst kvs)"
  unfolding numeral_eq_Suc by (rule printable_compound)+

lemma printable_norm: "printable d v \<Longrightarrow> printable d (norm_json v)"
proof (induction d arbitrary: v)
  case 0
  then show ?case by (cases v) (auto simp: printable_def print_body_def)
next
  case (Suc d)
  show ?case
  proof (cases v)
    case (PList xs)
    with Suc show ?thesis by (simp add: printable_compound list_all_iff)
  next
    case (PDict kvs)
    let ?m = "map (\<lambda>(k, v). (k, norm_json v)) kvs"
    have keys: "map fst ?m = map fst kvs" by (auto simp: o_def)
    have "distinct (map fst (sort_key (\<lambda>kv. key_text (fst kv)) ?m)) \<longleftrightarrow> distinct (map fst ?m)"
      by (rule mset_eq_imp_distinct_iff) (simp add: multiset.map_comp)
    then have "distinct (map fst (sort_key (\<lambda>kv. key_text (fst kv)) ?m)) \<longleftrightarrow> distinct (map fst kvs)"
      unfolding keys .
    then show ?thesis
      using Suc PDict by (auto simp: printable_compound list_all_iff)
  qed (use Suc in auto)
qed

lemma ref_json_ok: "printable d v \<Longrightarrow> \<exists>b. ref_json d v = Inr b"
  using printable_norm by (auto simp: printable_def ref_json_def)

lemma length_esc: "length (esc c) \<le> 6"
  by (simp add: esc_def)

lemma length_quote: "length (quote s) \<le> 6 * length s + 2"
proof -
  have "length (concat (map esc s)) \<le> 6 * length s"
    using length_esc by (induction s) (auto intro: add_mono)
  then show ?thesis by (simp add: quote_def)
qed

lemma length_join: "length (join bs) \<le> sum_list (map (\<lambda>b. Suc (length b)) bs)"
  by (induction bs rule: join.induct) auto

lemma json_size_norm: "json_size (norm_json v) = json_size v"
proof (induction v rule: norm_json.induct)
  case (1 xs)
  then show ?case by (simp add: o_def cong: map_cong)
next
  case (2 kvs)
  let ?m = "map (\<lambda>(k, v). (k, norm_json v)) kvs"
  let ?f = "\<lambda>(k, v). 4 + 6 * length (key_text k) + json_size v"
  have "sum_list (map ?f (sort_key (\<lambda>kv. key_text (fst kv)) ?m)) = sum_list (map ?f ?m)"
    by (simp add: multiset.map_comp flip: sum_mset_sum_list)
  also have "\<dots> = sum_list (map ?f kvs)" using 2 by (intro arg_cong [of _ _ sum_list]) force
  finally show ?case by simp
qed auto

lemma sum_list_le_all2:
  "list_all2 (\<lambda>x b. g b \<le> (f x :: nat)) xs bs \<Longrightarrow> sum_list (map g bs) \<le> sum_list (map f xs)"
  by (induction rule: list_all2_induct) auto

lemma print_json_size: "print_json d v = Inr b \<Longrightarrow> length b \<le> json_size v"
proof (induction d arbitrary: v b)
  case 0
  then show ?case
    using length_quote by (cases v) (auto simp: print_body_def show_int_def split: if_splits)
next
  case (Suc d)
  show ?case
  proof (cases v)
    case (PList xs)
    with Suc.prems obtain bs where bs: "list_all2 (\<lambda>x b. print_json d x = Inr b) xs bs" "b = CHR ''['' # join bs @ [CHR '']'']"
      by (auto simp: print_body_def res_simps mapE_eq_Inr)
    have "list_all2 (\<lambda>x b. Suc (length b) \<le> Suc (json_size x)) xs bs"
      using bs(1) by (rule list_all2_mono) (simp add: Suc.IH)
    from sum_list_le_all2 [OF this] length_join [of bs] show ?thesis
      using bs PList by simp
  next
    case (PDict kvs)
    with Suc.prems obtain bs where bs: "list_all2 (\<lambda>kv b. print_member (print_json d) kv = Inr b) kvs bs"
      "b = CHR ''{'' # join bs @ [CHR ''}'']"
      by (auto simp: print_body_dict res_simps mapE_eq_Inr split: if_splits)
    have "list_all2 (\<lambda>kv b. Suc (length b) \<le> (case kv of (k, v) \<Rightarrow> 4 + 6 * length (key_text k) + json_size v)) kvs bs"
      using bs(1)
    proof (rule list_all2_mono)
      fix kv b assume "print_member (print_json d) kv = Inr b"
      then obtain k v b' where "kv = (k, v)" "print_json d v = Inr b'" "b = quote (key_text k) @ CHR '':'' # b'"
        by (auto simp: print_member_def res_simps split: prod.splits)
      with Suc.IH [of v b'] length_quote [of "key_text k"]
      show "Suc (length b) \<le> (case kv of (k, v) \<Rightarrow> 4 + 6 * length (key_text k) + json_size v)" by simp
    qed
    from sum_list_le_all2 [OF this] length_join [of bs] show ?thesis
      using bs PDict by simp
  qed (use Suc.prems length_quote in \<open>auto simp: print_body_def show_int_def split: if_splits\<close>)
qed

lemma ref_json_size: "ref_json d v = Inr b \<Longrightarrow> length b \<le> json_size v"
  using print_json_size [of d "norm_json v" b] by (simp add: ref_json_def json_size_norm)

subsection \<open>Flat dictionaries up to order\<close>

fun is_scalar :: "pyval \<Rightarrow> bool" where
  "is_scalar (PList _) = False"
| "is_scalar (PDict _) = False"
| "is_scalar _ = True"

lemma norm_scalar: "is_scalar (norm_json v) \<Longrightarrow> norm_json v = v"
  by (cases v) auto

lemma norm_scalar_id: "is_scalar v \<Longrightarrow> norm_json v = v"
  by (cases v) auto

lemma norm_flat_dict:
  assumes "norm_json w = norm_json (PDict kvs)" "list_all (\<lambda>kv. is_scalar (snd kv)) kvs"
  shows "\<exists>kvs'. w = PDict kvs' \<and> mset kvs' = mset kvs"
proof -
  let ?n = "\<lambda>(k, v). (k, norm_json v)"
  obtain kvs' where w: "w = PDict kvs'" using assms(1) by (cases w) auto
  have id: "map ?n kvs = kvs" using assms(2) by (auto simp: list_all_iff norm_scalar_id intro!: map_idI)
  have "mset (map ?n kvs') = mset (map ?n kvs)"
    using arg_cong [of _ _ mset, OF assms(1) [unfolded w norm_json.simps(2) pyval.inject]] by (simp only: mset_sort)
  then have m: "mset (map ?n kvs') = mset kvs" by (simp only: id)
  have "?n kv = kv" if "kv \<in> set kvs'" for kv
  proof -
    have "?n kv \<in> set kvs" using that mset_eq_setD [OF m] by force
    then have "is_scalar (norm_json (snd kv))" using assms(2) by (cases kv) (auto simp: list_all_iff)
    from norm_scalar [OF this] show ?thesis by (cases kv) simp
  qed
  then have "map ?n kvs' = kvs'" by (rule map_idI)
  with m w show ?thesis by simp
qed

lemma filter_eq_one: "distinct zs \<Longrightarrow> k \<in> set zs \<Longrightarrow> filter (\<lambda>x. x = k) zs = [k]"
proof (induction zs)
  case (Cons z zs)
  then show ?case by (cases "z = k") (auto simp: filter_empty_conv)
qed simp

lemma sort_key_perm:
  assumes "mset xs = mset ys" "distinct (map f ys)"
  shows "sort_key f xs = sort_key f ys"
proof (rule properties_for_sort_key)
  have inj: "inj_on f (set ys)" and d: "distinct ys" using assms(2) by (simp_all add: distinct_map)
  have set: "set xs = set ys" using assms(1) by (rule mset_eq_setD)
  fix k assume "k \<in> set (sort_key f ys)"
  then have k: "k \<in> set ys" by simp
  have one: "filter (\<lambda>x. f k = f x) zs = [k]" if "set zs = set ys" "distinct zs" for zs
  proof -
    have "filter (\<lambda>x. f k = f x) zs = filter (\<lambda>x. x = k) zs"
      using inj k that(1) by (intro filter_cong) (auto dest: inj_onD)
    with that k show ?thesis by (simp add: filter_eq_one)
  qed
  show "filter (\<lambda>x. f k = f x) (sort_key f ys) = filter (\<lambda>x. f k = f x) xs"
    using one [of "sort_key f ys"] one [of xs] d set mset_eq_imp_distinct_iff [OF assms(1)] by simp
qed (simp_all add: assms(1))

lemma norm_dict_perm:
  assumes "mset kvs' = mset kvs" "list_all (\<lambda>kv. is_str (fst kv)) kvs" "distinct (map fst kvs)"
  shows "norm_json (PDict kvs') = norm_json (PDict kvs)"
proof -
  let ?n = "\<lambda>(k, v). (k, norm_json v)" and ?k = "\<lambda>kv :: pyval \<times> pyval. key_text (fst kv)"
  have "inj_on key_text (fst ` set kvs)"
  proof (rule inj_onI)
    fix a b assume "a \<in> fst ` set kvs" "b \<in> fst ` set kvs" "key_text a = key_text b"
    moreover from this assms(2) have "is_str a" "is_str b" by (auto simp: list_all_iff)
    ultimately show "a = b" by (cases a; cases b) auto
  qed
  with assms(3) have "distinct (map key_text (map fst kvs))" by (subst distinct_map) simp
  moreover have "map ?k (map ?n kvs) = map key_text (map fst kvs)" by auto
  ultimately have "distinct (map ?k (map ?n kvs))" by (simp only:)
  moreover have "mset (map ?n kvs') = mset (map ?n kvs)" using assms(1) by simp
  ultimately show ?thesis using sort_key_perm [of "map ?n kvs'" "map ?n kvs" ?k] by simp
qed

lemma map_of_perm: "mset kvs' = mset kvs \<Longrightarrow> distinct (map fst kvs) \<Longrightarrow> map_of kvs' = map_of kvs"
proof -
  assume m: "mset kvs' = mset kvs" and d: "distinct (map fst kvs)"
  have "mset (map fst kvs') = mset (map fst kvs)" using m by simp
  then have "distinct (map fst kvs')" using d mset_eq_imp_distinct_iff by blast
  then show ?thesis using map_of_inject_set [OF _ d] mset_eq_setD [OF m] by blast
qed

end
