(* ===== verification/Vk_Hashlib.thy ===== *)
theory Vk_Hashlib
  imports Vk_Stdlib
begin

section \<open>The digests of Python's hashlib\<close>

text \<open>
  SHA-256 and SHA-1 (FIPS 180-4) on 32-bit words, as \<^verbatim>\<open>hashlib.sha256\<close> and \<^verbatim>\<open>hashlib.sha1\<close>
  compute them. The adapter's keys, envelope versions and script names are made of these digests;
  what the development uses of them is that they are functions of the message with outputs of
  32 and 20 bytes (the locale \<open>hash_function\<close>). That distinct messages have distinct digests is
  false of any such function, so the theorems that depend on it name the collision.
\<close>

subsection \<open>The interface\<close>

locale hash_function =
  fixes digest :: "bytes \<Rightarrow> bytes" and size :: nat
  assumes length_digest: "length (digest m) = size"
begin

lemma length_hex: "length (hexdigest (digest m)) = 2 * size"
  by (simp add: length_digest)

lemma hex_lower: "list_all is_hex_lower (hexdigest (digest m))"
  by (rule hexdigest_hex)

lemma same_hex: "hexdigest (digest m) = hexdigest (digest m') \<longleftrightarrow> digest m = digest m'"
  by (auto dest: hexdigest_inj)

lemma length_base64: "length (b64_unpadded (map of_char (digest m))) = (4 * size + 2) div 3"
  by (simp add: length_b64_unpadded length_digest)

lemma same_base64:
  "b64_unpadded (map of_char (digest m)) = b64_unpadded (map of_char (digest m')) \<longleftrightarrow> digest m = digest m'"
  by (auto dest: b64_unpadded_inj)

end

subsection \<open>Words and blocks\<close>

type_synonym w32 = "32 word"

definition rotr :: "nat \<Rightarrow> w32 \<Rightarrow> w32" where
  "rotr n w = (drop_bit n w OR push_bit (32 - n) w)"

definition rotl :: "nat \<Rightarrow> w32 \<Rightarrow> w32" where
  "rotl n w = (push_bit n w OR drop_bit (32 - n) w)"

text \<open>Big-endian words of a message, and back.\<close>

fun be_words :: "bytes \<Rightarrow> w32 list" where
  "be_words (a # b # c # d # r) =
     word_of_nat (((of_char a * 256 + of_char b) * 256 + of_char c) * 256 + of_char d) # be_words r"
| "be_words _ = []"

definition be_bytes :: "w32 \<Rightarrow> bytes" where
  "be_bytes w = map (\<lambda>n. char_of (unat (drop_bit n w))) [24, 16, 8, 0]"

text \<open>The message, a one bit, zeros, and the length in bits as 64 bits: a multiple of 64 bytes.\<close>

definition sha_pad :: "bytes \<Rightarrow> bytes" where
  "sha_pad m = m @ char_of (128 :: nat) # replicate ((119 - length m mod 64) mod 64) (char_of (0 :: nat)) @
     map (\<lambda>k. char_of (8 * length m div 256 ^ k)) [7, 6, 5, 4, 3, 2, 1, 0]"

fun blocks16 :: "nat \<Rightarrow> w32 list \<Rightarrow> w32 list list" where
  "blocks16 0 ws = []"
| "blocks16 (Suc n) ws = take 16 ws # blocks16 n (drop 16 ws)"

definition sha_blocks :: "bytes \<Rightarrow> w32 list list" where
  "sha_blocks m = (let ws = be_words (sha_pad m) in blocks16 (length ws div 16) ws)"

subsection \<open>SHA-256\<close>

text \<open>The round constants: the fractional parts of the cube roots of the first 64 primes, in 32 bits.\<close>

definition sha256_K :: "w32 list" where
  "sha256_K = [
    1116352408, 1899447441, 3049323471, 3921009573, 961987163, 1508970993,
    2453635748, 2870763221, 3624381080, 310598401, 607225278, 1426881987,
    1925078388, 2162078206, 2614888103, 3248222580, 3835390401, 4022224774,
    264347078, 604807628, 770255983, 1249150122, 1555081692, 1996064986,
    2554220882, 2821834349, 2952996808, 3210313671, 3336571891, 3584528711,
    113926993, 338241895, 666307205, 773529912, 1294757372, 1396182291,
    1695183700, 1986661051, 2177026350, 2456956037, 2730485921, 2820302411,
    3259730800, 3345764771, 3516065817, 3600352804, 4094571909, 275423344,
    430227734, 506948616, 659060556, 883997877, 958139571, 1322822218,
    1537002063, 1747873779, 1955562222, 2024104815, 2227730452, 2361852424,
    2428436474, 2756734187, 3204031479, 3329325298]"

record sha256_state =
  sa :: w32
  sb :: w32
  sc :: w32
  sd :: w32
  se :: w32
  sf :: w32
  sg :: w32
  sh :: w32

definition sha256_init :: sha256_state where
  "sha256_init = \<lparr>sa = 0x6a09e667, sb = 0xbb67ae85, sc = 0x3c6ef372, sd = 0xa54ff53a,
     se = 0x510e527f, sf = 0x9b05688c, sg = 0x1f83d9ab, sh = 0x5be0cd19\<rparr>"

text \<open>The schedule grows backwards: the newest word is the head.\<close>

definition sha256_next :: "w32 list \<Rightarrow> w32" where
  "sha256_next ws = (let x = ws ! 1; y = ws ! 14 in
     (rotr 17 x XOR rotr 19 x XOR drop_bit 10 x) + ws ! 6 + (rotr 7 y XOR rotr 18 y XOR drop_bit 3 y) + ws ! 15)"

definition sha256_schedule :: "w32 list \<Rightarrow> w32 list" where
  "sha256_schedule block = rev (((\<lambda>ws. sha256_next ws # ws) ^^ 48) (rev block))"

definition sha256_round :: "sha256_state \<Rightarrow> w32 \<times> w32 \<Rightarrow> sha256_state" where
  "sha256_round s kw =
     (let e = se s; a = sa s;
          t1 = sh s + (rotr 6 e XOR rotr 11 e XOR rotr 25 e) + ((e AND sf s) XOR (NOT e AND sg s)) + fst kw + snd kw;
          t2 = (rotr 2 a XOR rotr 13 a XOR rotr 22 a) + ((a AND sb s) XOR (a AND sc s) XOR (sb s AND sc s))
      in \<lparr>sa = t1 + t2, sb = a, sc = sb s, sd = sc s, se = sd s + t1, sf = e, sg = sf s, sh = sg s\<rparr>)"

definition sha256_block :: "sha256_state \<Rightarrow> w32 list \<Rightarrow> sha256_state" where
  "sha256_block s block =
     (let r = foldl sha256_round s (zip sha256_K (sha256_schedule block))
      in \<lparr>sa = sa s + sa r, sb = sb s + sb r, sc = sc s + sc r, sd = sd s + sd r,
          se = se s + se r, sf = sf s + sf r, sg = sg s + sg r, sh = sh s + sh r\<rparr>)"

definition sha256 :: "bytes \<Rightarrow> bytes" where
  "sha256 m = (let s = foldl sha256_block sha256_init (sha_blocks m)
     in concat (map be_bytes [sa s, sb s, sc s, sd s, se s, sf s, sg s, sh s]))"

subsection \<open>SHA-1\<close>

definition sha1_next :: "w32 list \<Rightarrow> w32" where
  "sha1_next ws = rotl 1 (ws ! 2 XOR ws ! 7 XOR ws ! 13 XOR ws ! 15)"

definition sha1_schedule :: "w32 list \<Rightarrow> w32 list" where
  "sha1_schedule block = rev (((\<lambda>ws. sha1_next ws # ws) ^^ 64) (rev block))"

type_synonym sha1_state = "w32 \<times> w32 \<times> w32 \<times> w32 \<times> w32"

definition sha1_f :: "nat \<Rightarrow> w32 \<Rightarrow> w32 \<Rightarrow> w32 \<Rightarrow> w32" where
  "sha1_f t b c d = (if t < 20 then (b AND c) OR (NOT b AND d)
     else if t < 40 then b XOR c XOR d
     else if t < 60 then (b AND c) OR (b AND d) OR (c AND d)
     else b XOR c XOR d)"

definition sha1_k :: "nat \<Rightarrow> w32" where
  "sha1_k t = (if t < 20 then 0x5a827999 else if t < 40 then 0x6ed9eba1
     else if t < 60 then 0x8f1bbcdc else 0xca62c1d6)"

fun sha1_round :: "sha1_state \<Rightarrow> nat \<times> w32 \<Rightarrow> sha1_state" where
  "sha1_round (a, b, c, d, e) (t, w) = (rotl 5 a + sha1_f t b c d + e + sha1_k t + w, a, rotl 30 b, c, d)"

fun sha1_block :: "sha1_state \<Rightarrow> w32 list \<Rightarrow> sha1_state" where
  "sha1_block (a, b, c, d, e) block =
     (case foldl sha1_round (a, b, c, d, e) (zip [0..<80] (sha1_schedule block)) of
       (a', b', c', d', e') \<Rightarrow> (a + a', b + b', c + c', d + d', e + e'))"

definition sha1 :: "bytes \<Rightarrow> bytes" where
  "sha1 m = (case foldl sha1_block (0x67452301, 0xefcdab89, 0x98badcfe, 0x10325476, 0xc3d2e1f0) (sha_blocks m) of
     (a, b, c, d, e) \<Rightarrow> concat (map be_bytes [a, b, c, d, e]))"

subsection \<open>Both are instances of the interface\<close>

lemma length_be_bytes [simp]: "length (be_bytes w) = 4"
  by (simp add: be_bytes_def)

lemma length_sha256 [simp]: "length (sha256 m) = 32"
  by (simp add: sha256_def Let_def)

lemma length_sha1 [simp]: "length (sha1 m) = 20"
  by (simp add: sha1_def split: prod.split)

interpretation sha256: hash_function sha256 32
  by unfold_locales simp

interpretation sha1: hash_function sha1 20
  by unfold_locales simp

text \<open>Two different messages with one digest.\<close>

definition sha256_collision :: "bytes \<Rightarrow> bytes \<Rightarrow> bool" where
  "sha256_collision a b = (a \<noteq> b \<and> sha256 a = sha256 b)"

end
