(* ===== verification/Vk_Canonical.thy ===== *)
theory Vk_Canonical
  imports Vk_Canonical_Json Vk_Hashlib
begin

section \<open>Deterministic helpers\<close>

text \<open>
  The module \<^verbatim>\<open>_canonical.py\<close>: digests in the two spellings the adapter uses, and the validators
  that turn a dynamic value into a bounded token, integer, flag, fingerprint or JSON key. What the
  adapter takes from the packages around it (the canonical JSON writer and \<^verbatim>\<open>ResourceRef.parse\<close>
  of \<^verbatim>\<open>meridian_storage\<close>) are the fields of the record \<open>lib\<close>.
\<close>

subsection \<open>What the surrounding packages provide\<close>

text \<open>
  A \<^verbatim>\<open>ResourceRef\<close> as the adapter reads it: its catalog, its canonical text, its \<^verbatim>\<open>str\<close> and its
  \<^verbatim>\<open>to_dict()\<close>. An \<^verbatim>\<open>OperationContext\<close>: its tenant and its scope labels.
\<close>

record resource_ref =
  rr_catalog :: string
  rr_canonical :: string
  rr_str :: string
  rr_dict :: pyval

record op_context =
  ctx_tenant :: pyval
  ctx_scope :: "(string \<times> pyval) list"

text \<open>
  The external functions, and the interpreter's nesting bound for \<^verbatim>\<open>json.loads\<close>.
\<close>

record lib =
  canonical_json_bytes :: "pyval \<Rightarrow> bytes res"
  resource_ref_parse :: "resource_ref \<Rightarrow> resource_ref res"
  recursion_limit :: nat

text \<open>
  The named hypothesis on the writer: it meets the contract of \<^const>\<open>canonical_json\<close>.
\<close>

definition lawful_json :: "lib \<Rightarrow> bool" where
  "lawful_json L = canonical_json (canonical_json_bytes L) (recursion_limit L)"

text \<open>An instance: the reference writer and a parser that accepts every reference.\<close>

definition ref_lib :: lib where
  "ref_lib = \<lparr>canonical_json_bytes = ref_json 100, resource_ref_parse = Inr, recursion_limit = 100\<rparr>"

lemma lawful_ref_lib: "lawful_json ref_lib"
  by (simp add: lawful_json_def ref_lib_def canonical_json_ref_json)

subsection \<open>Digests\<close>

definition sha256_hex :: "bytes \<Rightarrow> string" where
  "sha256_hex b = ''sha256:'' @ hexdigest (sha256 b)"

definition sha1_hex :: "bytes \<Rightarrow> string" where
  "sha1_hex b = ''sha1:'' @ hexdigest (sha1 b)"

definition base64url_digest :: "bytes \<Rightarrow> string" where
  "base64url_digest b = rstrip_eq (urlsafe_b64encode (sha256 b))"

subsection \<open>Validators\<close>

text \<open>\<^verbatim>\<open>^sha256:[0-9a-f]{64}$\<close>\<close>

definition is_fingerprint :: "string \<Rightarrow> bool" where
  "is_fingerprint s = (take 7 s = ''sha256:'' \<and> length s = 71 \<and> list_all is_hex_lower (drop 7 s))"

definition is_alnum :: "char \<Rightarrow> bool" where
  "is_alnum c = (let n = (of_char c :: nat) in
     (48 \<le> n \<and> n \<le> 57) \<or> (65 \<le> n \<and> n \<le> 90) \<or> (97 \<le> n \<and> n \<le> 122))"

text \<open>\<^verbatim>\<open>^[A-Za-z0-9][A-Za-z0-9_.:/-]{0,255}$\<close>\<close>

definition is_safe_token :: "string \<Rightarrow> bool" where
  "is_safe_token s = (case s of [] \<Rightarrow> False
     | c # cs \<Rightarrow> is_alnum c \<and> length cs \<le> 255 \<and>
         list_all (\<lambda>x. is_alnum x \<or> x \<in> {CHR ''_'', CHR ''.'', CHR '':'', CHR ''/'', CHR ''-''}) cs)"

definition require_fingerprint :: "pyval \<Rightarrow> string \<Rightarrow> string res" where
  "require_fingerprint v field = (case v of
     PStr s \<Rightarrow> if is_fingerprint s then Inr s
       else Inl (ValueError (field @ '' must be a lowercase SHA-256 fingerprint''))
   | _ \<Rightarrow> Inl (ValueError (field @ '' must be a lowercase SHA-256 fingerprint'')))"

definition safe_token :: "pyval \<Rightarrow> string \<Rightarrow> nat \<Rightarrow> string res" where
  "safe_token v field maximum =
     (let bad = Inl (ValueError (field @ '' must be a bounded safe token'')) in
      case v of
        PStr s \<Rightarrow> if s = [] then bad
          else bindE (utf8_encode s) (\<lambda>b.
            if maximum < length b \<or> \<not> is_safe_token s then bad else Inr s)
      | _ \<Rightarrow> bad)"

definition integer :: "pyval \<Rightarrow> string \<Rightarrow> int \<Rightarrow> int \<Rightarrow> int res" where
  "integer v field minimum maximum =
     (let bad = Inl (ValueError (field @ '' must be between '' @ show_int minimum @ '' and '' @ show_int maximum)) in
      case v of PInt i \<Rightarrow> if minimum \<le> i \<and> i \<le> maximum then Inr i else bad | _ \<Rightarrow> bad)"

definition boolean :: "pyval \<Rightarrow> string \<Rightarrow> bool res" where
  "boolean v field = (case v of PBool b \<Rightarrow> Inr b | _ \<Rightarrow> Inl (ValueError (field @ '' must be boolean'')))"

definition json_scalar_or_array :: "lib \<Rightarrow> pyval \<Rightarrow> string \<Rightarrow> pyval res" where
  "json_scalar_or_array L v field =
     (let bad = Inl (ValueError (field @ '' must be a non-null JSON scalar or array'')) in
      bindE
        (if v = PNone \<or> is_mapping v then bad
         else (case seq_items v of
           Some xs \<Rightarrow> Inr (PList xs)
         | None \<Rightarrow>
             (case v of
               PStr _ \<Rightarrow> Inr v
             | PInt _ \<Rightarrow> Inr v
             | PBool _ \<Rightarrow> Inr v
             | PFloat f \<Rightarrow> if float_isfinite f then Inr v
                 else Inl (ValueError (field @ '' must contain finite JSON values''))
             | _ \<Rightarrow> bad)))
        (\<lambda>normalized. bindE (canonical_json_bytes L normalized) (\<lambda>_. Inr normalized)))"

definition json_mapping :: "pyval \<Rightarrow> string \<Rightarrow> (pyval \<times> pyval) list res" where
  "json_mapping v field = (case v of
     PDict kvs \<Rightarrow> if list_all (\<lambda>kv. is_str (fst kv)) kvs then Inr kvs
       else Inl (ValueError (field @ '' must be an object''))
   | _ \<Rightarrow> Inl (ValueError (field @ '' must be an object'')))"

subsection \<open>Facts\<close>

lemma base64url_digest_eq: "base64url_digest b = b64_unpadded (map of_char (sha256 b))"
  by (simp add: base64url_digest_def rstrip_urlsafe_b64encode)

lemma length_base64url_digest [simp]: "length (base64url_digest b) = 43"
  using sha256.length_base64 [of b] by (simp add: base64url_digest_eq)

lemma base64url_digest_url: "list_all is_b64url (base64url_digest b)"
  by (simp add: base64url_digest_eq b64_unpadded_url)

lemma base64url_digest_cong: "base64url_digest a = base64url_digest b \<longleftrightarrow> sha256 a = sha256 b"
  by (simp add: base64url_digest_eq sha256.same_base64)

lemma base64url_digest_same: "base64url_digest a = base64url_digest b \<Longrightarrow> a = b \<or> sha256_collision a b"
  by (auto simp: base64url_digest_cong sha256_collision_def)

lemma sha256_hex_same: "sha256_hex a = sha256_hex b \<Longrightarrow> a = b \<or> sha256_collision a b"
  by (auto simp: sha256_hex_def sha256.same_hex sha256_collision_def)

lemma length_sha256_hex [simp]: "length (sha256_hex b) = 71"
  using sha256.length_hex [of b] by (simp add: sha256_hex_def)

lemma is_fingerprint_sha256_hex [simp]: "is_fingerprint (sha256_hex b)"
  using sha256.length_hex [of b] sha256.hex_lower [of b] by (simp add: is_fingerprint_def sha256_hex_def)

lemma is_fingerprint_facts:
  assumes "is_fingerprint s"
  shows "length s = 71" "is_ascii s"
proof -
  have s: "s = ''sha256:'' @ drop 7 s"
    using assms append_take_drop_id [of 7 s] by (simp add: is_fingerprint_def)
  have "is_ascii (drop 7 s)" using assms by (simp add: is_fingerprint_def is_ascii_hex)
  moreover have "is_ascii ''sha256:''" by (simp add: is_ascii_def)
  ultimately show "is_ascii s" using s is_ascii_append by metis
qed (use assms in \<open>simp add: is_fingerprint_def\<close>)

lemma require_fingerprint_eq_Inr [res_simps]:
  "require_fingerprint v f = Inr s \<longleftrightarrow> v = PStr s \<and> is_fingerprint s"
  by (auto simp: require_fingerprint_def split: pyval.splits)

lemma require_fingerprint_eq_Inl:
  "require_fingerprint v f = Inl e \<Longrightarrow> e = ValueError (f @ '' must be a lowercase SHA-256 fingerprint'')"
  by (auto simp: require_fingerprint_def split: pyval.splits if_splits)

lemma safe_token_eq_Inr [res_simps]:
  "safe_token v f n = Inr s \<longleftrightarrow> v = PStr s \<and> utf8_ok s \<and> length s \<le> n \<and> is_safe_token s"
  by (auto simp: safe_token_def utf8_encode_def is_safe_token_def Let_def split: pyval.splits)

lemma safe_token_eq_Inl: "safe_token v f n = Inl e \<Longrightarrow> is_ValueError e"
  by (auto simp: safe_token_def utf8_encode_def Let_def split: pyval.splits if_splits)

lemma integer_eq_Inr [res_simps]:
  "integer v f lo hi = Inr i \<longleftrightarrow> v = PInt i \<and> lo \<le> i \<and> i \<le> hi"
  by (auto simp: integer_def Let_def split: pyval.splits)

lemma integer_eq_Inl: "integer v f lo hi = Inl e \<Longrightarrow> is_ValueError e"
  by (auto simp: integer_def Let_def split: pyval.splits if_splits)

lemma boolean_eq_Inr [res_simps]: "boolean v f = Inr b \<longleftrightarrow> v = PBool b"
  by (auto simp: boolean_def split: pyval.splits)

lemma boolean_eq_Inl: "boolean v f = Inl e \<Longrightarrow> is_ValueError e"
  by (auto simp: boolean_def split: pyval.splits)

lemma validators_only [only_intros]:
  "(\<And>e. is_ValueError e \<Longrightarrow> P e) \<Longrightarrow> onlyE P (require_fingerprint v f)"
  "(\<And>e. is_ValueError e \<Longrightarrow> P e) \<Longrightarrow> onlyE P (safe_token v f n)"
  "(\<And>e. is_ValueError e \<Longrightarrow> P e) \<Longrightarrow> onlyE P (integer v f lo hi)"
  "(\<And>e. is_ValueError e \<Longrightarrow> P e) \<Longrightarrow> onlyE P (boolean v f)"
  by (auto intro!: onlyE_I dest!: require_fingerprint_eq_Inl safe_token_eq_Inl integer_eq_Inl boolean_eq_Inl)

text \<open>
  A Cache key that passes is not null and not an object, its sequence forms are one value (a
  list), and the canonical writer accepts it.
\<close>

lemma json_scalar_or_array_eq_Inr:
  "json_scalar_or_array L v f = Inr w \<Longrightarrow>
    (\<exists>b. canonical_json_bytes L w = Inr b) \<and> w \<noteq> PNone \<and> \<not> is_mapping w \<and>
    (w = v \<or> (\<exists>xs. seq_items v = Some xs \<and> w = PList xs))"
  by (auto simp: json_scalar_or_array_def Let_def res_simps split: if_splits option.splits pyval.splits)

text \<open>A fingerprint for the examples.\<close>

definition sample_schema :: string where
  "sample_schema = ''sha256:'' @ replicate 64 CHR ''0''"

lemma sample_schema_ok [simp]: "is_fingerprint sample_schema"
  by (simp add: is_fingerprint_def sample_schema_def list_all_iff is_hex_lower_def is_dec_digit_def)

end
