(* ===== verification/Vk_Errors.thy ===== *)
theory Vk_Errors
  imports Vk_Prelude
begin

section \<open>Translation of engine failures\<close>

text \<open>
  The module \<^verbatim>\<open>errors.py\<close>: one Meridian failure for each failure of the client library. A code of
  the core's own \<^verbatim>\<open>ErrorCode\<close> enumeration is represented by the name of its member. Shown: the
  translation does not depend on the engine's message, and it is the table \<open>engine_failures\<close>, of
  which the first row that names a class of the failure decides.
\<close>

subsection \<open>Codes and details\<close>

datatype ValkeyErrorCode =
    AUTHENTICATION | AUTHORIZATION | CONFLICT | CORRUPT | CROSS_SLOT | LIMIT | TIMEOUT | UNAVAILABLE

fun ValkeyErrorCode_value :: "ValkeyErrorCode \<Rightarrow> string" where
  "ValkeyErrorCode_value AUTHENTICATION = ''MERIDIAN_VALKEY_AUTHENTICATION''"
| "ValkeyErrorCode_value AUTHORIZATION = ''MERIDIAN_VALKEY_AUTHORIZATION''"
| "ValkeyErrorCode_value CONFLICT = ''MERIDIAN_VALKEY_CONFLICT''"
| "ValkeyErrorCode_value CORRUPT = ''MERIDIAN_VALKEY_CORRUPT''"
| "ValkeyErrorCode_value CROSS_SLOT = ''MERIDIAN_VALKEY_CROSS_SLOT''"
| "ValkeyErrorCode_value LIMIT = ''MERIDIAN_VALKEY_LIMIT''"
| "ValkeyErrorCode_value TIMEOUT = ''MERIDIAN_VALKEY_TIMEOUT''"
| "ValkeyErrorCode_value UNAVAILABLE = ''MERIDIAN_VALKEY_UNAVAILABLE''"

text \<open>\<^verbatim>\<open>type(exc).__name__\<close>\<close>

fun exn_type_name :: "exn \<Rightarrow> string" where
  "exn_type_name (ValkeyError n _ _) = n"
| "exn_type_name (ValueError _) = ''ValueError''"
| "exn_type_name (TypeError _) = ''TypeError''"
| "exn_type_name (RuntimeError _) = ''RuntimeError''"
| "exn_type_name OverflowError = ''OverflowError''"
| "exn_type_name RecursionError = ''RecursionError''"
| "exn_type_name UnicodeDecodeError = ''UnicodeDecodeError''"
| "exn_type_name UnicodeEncodeError = ''UnicodeEncodeError''"
| "exn_type_name JSONDecodeError = ''JSONDecodeError''"
| "exn_type_name (KeyError _) = ''KeyError''"
| "exn_type_name (EnvelopeError _) = ''EnvelopeError''"
| "exn_type_name (EnvelopeCorruptionError _) = ''EnvelopeCorruptionError''"
| "exn_type_name (EnvelopeExpiredError _) = ''EnvelopeExpiredError''"
| "exn_type_name (EnvelopeSchemaMismatchError _) = ''EnvelopeSchemaMismatchError''"
| "exn_type_name (EnvelopeTooLargeError _) = ''EnvelopeTooLargeError''"
| "exn_type_name (MeridianError _) = ''MeridianError''"
| "exn_type_name (OtherError n) = n"
| "exn_type_name OutOfFuel = ''OutOfFuel''"

fun opt_str :: "string option \<Rightarrow> pyval" where
  "opt_str None = PNone"
| "opt_str (Some s) = PStr s"

text \<open>A Meridian failure with the given class, code and message; not marked retryable.\<close>

definition meridian :: "mclass \<Rightarrow> string \<Rightarrow> string \<Rightarrow> (string \<times> pyval) list \<Rightarrow> exn" where
  "meridian cls code msg details =
     MeridianError \<lparr>me_class = cls, me_code = code, me_message = msg, me_retryable = False, me_details = details\<rparr>"

definition retryable :: "mclass \<Rightarrow> string \<Rightarrow> string \<Rightarrow> (string \<times> pyval) list \<Rightarrow> exn" where
  "retryable cls code msg details =
     MeridianError \<lparr>me_class = cls, me_code = code, me_message = msg, me_retryable = True, me_details = details\<rparr>"

subsection \<open>The translation\<close>

text \<open>The failure that \<^verbatim>\<open>translate_engine_error\<close> raises.\<close>

definition engine_error_details ::
    "exn \<Rightarrow> string option \<Rightarrow> string option \<Rightarrow> string option \<Rightarrow> string option \<Rightarrow> (string \<times> pyval) list" where
  "engine_error_details exc operation_contract resource_ref request_id execution_id = [
     (''operation_contract'', opt_str operation_contract),
     (''resource_ref'', opt_str resource_ref),
     (''request_id'', opt_str request_id),
     (''execution_id'', opt_str execution_id),
     (''cause'', PDict [(PStr ''type'', PStr (exn_type_name exc))]),
     (''adapter_provenance'', PDict [(PStr ''engineErrorType'', PStr (exn_type_name exc))])]"

definition translate_engine_error ::
    "exn \<Rightarrow> string option \<Rightarrow> string option \<Rightarrow> string option \<Rightarrow> string option \<Rightarrow> exn" where
  "translate_engine_error exc operation_contract resource_ref request_id execution_id =
     (let details = engine_error_details exc operation_contract resource_ref request_id execution_id in
      if has_vclass exc VAuthenticationError then
        meridian AuthenticationErrorC (ValkeyErrorCode_value AUTHENTICATION)
          ''Valkey rejected the configured identity'' details
      else if has_vclass exc VAuthorizationError \<or> has_vclass exc VNoPermissionError then
        meridian AuthorizationErrorC (ValkeyErrorCode_value AUTHORIZATION)
          ''Valkey denied an adapter-owned command'' details
      else if has_vclass exc VTimeoutError then
        retryable MeridianTimeoutErrorC (ValkeyErrorCode_value TIMEOUT)
          ''Valkey did not complete before the bounded deadline'' details
      else if has_vclass exc VClusterCrossSlotError then
        meridian ValidationErrorC (ValkeyErrorCode_value CROSS_SLOT)
          ''Valkey rejected keys that do not share an atomic hash slot'' details
      else if has_vclass exc VWatchError then
        retryable ConflictErrorC (ValkeyErrorCode_value CONFLICT)
          ''Valkey compare-and-set contention exceeded its retry bound'' details
      else if has_vclass exc VMaxConnectionsError \<or> has_vclass exc VOutOfMemoryError then
        retryable RateLimitErrorC (ValkeyErrorCode_value LIMIT)
          ''Valkey rejected work because a configured capacity limit was reached'' details
      else if has_vclass exc VBusyLoadingError \<or> has_vclass exc VClusterDownError \<or> has_vclass exc VConnectionError
          \<or> has_vclass exc VMasterDownError \<or> has_vclass exc VReadOnlyError \<or> has_vclass exc VTryAgainError then
        retryable UnavailableErrorC (ValkeyErrorCode_value UNAVAILABLE)
          ''Valkey is temporarily unavailable'' details
      else if has_vclass exc VDataError \<or> has_vclass exc VResponseError then
        meridian ValidationErrorC ''OPERATION_INVALID''
          ''Valkey rejected the bounded adapter request'' details
      else meridian InternalErrorC ''ADAPTER_FAILURE''
          ''the Valkey client failed without a recognized safe category'' details)"

subsection \<open>Properties\<close>

fun meridian_of :: "exn \<Rightarrow> meridian_error option" where
  "meridian_of (MeridianError e) = Some e"
| "meridian_of _ = None"

text \<open>
  The translated failure is the same whatever the engine's own message says: two engine
  failures of one type and one set of classes translate alike, so no host name, credential or
  key of the message can reach the caller.
\<close>

theorem translate_engine_error_redacts:
  "translate_engine_error (ValkeyError n cs msg) oc rr rq ex =
   translate_engine_error (ValkeyError n cs msg') oc rr rq ex"
  unfolding translate_engine_error_def engine_error_details_def has_vclass.simps exn_type_name.simps ..

text \<open>
  The contract of the translation as a table: the categories of the client library in the order in
  which they decide, each with the class, the code, whether a retry may help, and the fixed text,
  written out and not through the functions of the code.
\<close>

definition engine_failures :: "(vclass list \<times> mclass \<times> string \<times> bool \<times> string) list" where
  "engine_failures = [
     ([VAuthenticationError],
      AuthenticationErrorC, ''MERIDIAN_VALKEY_AUTHENTICATION'', False, ''Valkey rejected the configured identity''),
     ([VAuthorizationError, VNoPermissionError],
      AuthorizationErrorC, ''MERIDIAN_VALKEY_AUTHORIZATION'', False, ''Valkey denied an adapter-owned command''),
     ([VTimeoutError],
      MeridianTimeoutErrorC, ''MERIDIAN_VALKEY_TIMEOUT'', True, ''Valkey did not complete before the bounded deadline''),
     ([VClusterCrossSlotError],
      ValidationErrorC, ''MERIDIAN_VALKEY_CROSS_SLOT'', False, ''Valkey rejected keys that do not share an atomic hash slot''),
     ([VWatchError],
      ConflictErrorC, ''MERIDIAN_VALKEY_CONFLICT'', True, ''Valkey compare-and-set contention exceeded its retry bound''),
     ([VMaxConnectionsError, VOutOfMemoryError],
      RateLimitErrorC, ''MERIDIAN_VALKEY_LIMIT'', True, ''Valkey rejected work because a configured capacity limit was reached''),
     ([VBusyLoadingError, VClusterDownError, VConnectionError, VMasterDownError, VReadOnlyError, VTryAgainError],
      UnavailableErrorC, ''MERIDIAN_VALKEY_UNAVAILABLE'', True, ''Valkey is temporarily unavailable''),
     ([VDataError, VResponseError],
      ValidationErrorC, ''OPERATION_INVALID'', False, ''Valkey rejected the bounded adapter request'')]"

definition outcome_of :: "meridian_error \<Rightarrow> mclass \<times> string \<times> bool \<times> string" where
  "outcome_of e = (me_class e, me_code e, me_retryable e, me_message e)"

definition expected_outcome :: "exn \<Rightarrow> mclass \<times> string \<times> bool \<times> string" where
  "expected_outcome exc = (case find (\<lambda>(classes, _). \<exists>c\<in>set classes. has_vclass exc c) engine_failures of
     Some (_, outcome) \<Rightarrow> outcome
   | None \<Rightarrow> (InternalErrorC, ''ADAPTER_FAILURE'', False, ''the Valkey client failed without a recognized safe category''))"

lemma translated_outcome:
  "map_option outcome_of (meridian_of (translate_engine_error exc oc rr rq ex)) = Some (expected_outcome exc)"
  by (simp add: translate_engine_error_def expected_outcome_def engine_failures_def outcome_of_def meridian_def retryable_def Let_def)

lemma translated_details:
  "translate_engine_error exc oc rr rq ex = MeridianError e \<Longrightarrow> me_details e = engine_error_details exc oc rr rq ex"
  unfolding translate_engine_error_def meridian_def retryable_def Let_def
  by (simp split: if_split_asm) (hypsubst, simp)+

lemma specific_outcome:
  assumes "(classes, outcome) \<in> set engine_failures" "c \<in> set classes - {VDataError, VResponseError}" "has_vclass exc c"
    "{c'. has_vclass exc c'} \<subseteq> {c, VConnectionError, VDataError, VResponseError}"
  shows "expected_outcome exc = outcome"
proof -
  have no: "\<not> has_vclass exc c'" if "c' \<notin> {c, VConnectionError, VDataError, VResponseError}" for c'
    using assms(4) that by blast
  have row: "outcome = snd (the (find (\<lambda>(classes, _). c \<in> set classes) engine_failures))"
    using assms(1,2) by (force simp: engine_failures_def)
  have "c \<noteq> VNoScriptError" using assms(1,2) by (auto simp: engine_failures_def)
  with assms(2,3) no show ?thesis unfolding row expected_outcome_def engine_failures_def
    by (cases c) simp_all
qed

lemma expected_outcome_order:
  assumes "outcome_of e = expected_outcome exc"
  shows "{c. has_vclass exc c} \<inter> {VAuthenticationError, VAuthorizationError, VNoPermissionError} \<noteq> {} \<Longrightarrow>
      \<not> me_retryable e \<and> me_class e \<in> {AuthenticationErrorC, AuthorizationErrorC}"
    "{c. has_vclass exc c} \<inter> {VAuthenticationError, VAuthorizationError, VNoPermissionError} = {} \<Longrightarrow> has_vclass exc VTimeoutError \<Longrightarrow>
      me_retryable e \<and> me_class e = MeridianTimeoutErrorC"
    "me_class e = UnavailableErrorC \<Longrightarrow>
      me_retryable e \<and> {c. has_vclass exc c} \<inter> {VTimeoutError, VWatchError, VMaxConnectionsError, VOutOfMemoryError} = {}"
    "me_retryable e \<longleftrightarrow> me_class e \<in> {MeridianTimeoutErrorC, ConflictErrorC, RateLimitErrorC, UnavailableErrorC}"
proof -
  have e: "me_class e = fst (expected_outcome exc)" "me_retryable e = fst (snd (snd (expected_outcome exc)))"
    by (simp_all add: outcome_of_def flip: assms)
  show "me_retryable e \<longleftrightarrow> me_class e \<in> {MeridianTimeoutErrorC, ConflictErrorC, RateLimitErrorC, UnavailableErrorC}"
    unfolding e by (simp add: expected_outcome_def engine_failures_def)
  show "\<not> me_retryable e \<and> me_class e \<in> {AuthenticationErrorC, AuthorizationErrorC}"
    if "{c. has_vclass exc c} \<inter> {VAuthenticationError, VAuthorizationError, VNoPermissionError} \<noteq> {}"
    using that unfolding e by (simp add: expected_outcome_def engine_failures_def) blast
  show "me_retryable e \<and> me_class e = MeridianTimeoutErrorC"
    if "{c. has_vclass exc c} \<inter> {VAuthenticationError, VAuthorizationError, VNoPermissionError} = {}" "has_vclass exc VTimeoutError"
    using that unfolding e by (simp add: expected_outcome_def engine_failures_def disjoint_iff) blast
  show "me_retryable e \<and> {c. has_vclass exc c} \<inter> {VTimeoutError, VWatchError, VMaxConnectionsError, VOutOfMemoryError} = {}"
    if "me_class e = UnavailableErrorC"
    using that unfolding e by (simp add: expected_outcome_def engine_failures_def split: if_split_asm)
qed

text \<open>
  C28: every failure translates to exactly one Meridian failure. Its class, code, retryability and
  text are those of the first row of the table that names a class of the failure, or the internal
  failure when no row does; its details are the caller's identifiers and the name of the type, and
  nothing of the engine's message. Hence a class of the table decides alone also when the client
  library files the failure under its general connection, data or response errors; a refused
  identity or permission is never retryable; a capacity, watch or timeout failure is never reported as
  plain unavailability.
\<close>

theorem translate_engine_error_precedence:
  "\<exists>e. translate_engine_error exc oc rr rq ex = MeridianError e \<and>
    outcome_of e = (case find (\<lambda>(classes, _). \<exists>c\<in>set classes. has_vclass exc c) engine_failures of
        Some (_, outcome) \<Rightarrow> outcome
      | None \<Rightarrow> (InternalErrorC, ''ADAPTER_FAILURE'', False, ''the Valkey client failed without a recognized safe category'')) \<and>
    me_details e = [(''operation_contract'', opt_str oc), (''resource_ref'', opt_str rr), (''request_id'', opt_str rq),
      (''execution_id'', opt_str ex), (''cause'', PDict [(PStr ''type'', PStr (exn_type_name exc))]),
      (''adapter_provenance'', PDict [(PStr ''engineErrorType'', PStr (exn_type_name exc))])] \<and>
    (\<forall>(classes, outcome)\<in>set engine_failures. \<forall>c\<in>set classes - {VDataError, VResponseError}.
       has_vclass exc c \<and> {c'. has_vclass exc c'} \<subseteq> {c, VConnectionError, VDataError, VResponseError} \<longrightarrow> outcome_of e = outcome) \<and>
    ({c. has_vclass exc c} \<inter> {VAuthenticationError, VAuthorizationError, VNoPermissionError} \<noteq> {} \<longrightarrow>
       \<not> me_retryable e \<and> me_class e \<in> {AuthenticationErrorC, AuthorizationErrorC}) \<and>
    ({c. has_vclass exc c} \<inter> {VAuthenticationError, VAuthorizationError, VNoPermissionError} = {} \<and> has_vclass exc VTimeoutError \<longrightarrow>
       me_retryable e \<and> me_class e = MeridianTimeoutErrorC) \<and>
    (me_class e = UnavailableErrorC \<longrightarrow> me_retryable e \<and>
       {c. has_vclass exc c} \<inter> {VTimeoutError, VWatchError, VMaxConnectionsError, VOutOfMemoryError} = {}) \<and>
    (me_retryable e \<longleftrightarrow> me_class e \<in> {MeridianTimeoutErrorC, ConflictErrorC, RateLimitErrorC, UnavailableErrorC})"
proof -
  obtain e where e: "translate_engine_error exc oc rr rq ex = MeridianError e"
    using translated_outcome [of exc oc rr rq ex] by (cases "translate_engine_error exc oc rr rq ex") auto
  then have row: "outcome_of e = expected_outcome exc" using translated_outcome [of exc oc rr rq ex] by simp
  have "outcome_of e = outcome" if "(classes, outcome) \<in> set engine_failures" "c \<in> set classes - {VDataError, VResponseError}"
    "has_vclass exc c" "{c'. has_vclass exc c'} \<subseteq> {c, VConnectionError, VDataError, VResponseError}" for classes outcome c
    unfolding row using that by (rule specific_outcome)
  moreover note expected_outcome_order [OF row]
  ultimately show ?thesis
    using e row translated_details [OF e] unfolding expected_outcome_def engine_error_details_def
    by (intro exI [of _ e] conjI) blast+
qed

theorem translate_engine_error_precedence_witness:
  "(\<exists>e. translate_engine_error (ValkeyError ''AuthenticationError'' [VAuthenticationError, VConnectionError] ''secret'')
      None None None None = MeridianError e \<and> \<not> me_retryable e \<and> me_class e \<in> {AuthenticationErrorC, AuthorizationErrorC}) \<and>
   (\<exists>e. translate_engine_error (ValkeyError ''ReadOnlyError'' [VReadOnlyError, VResponseError] ''secret'')
      None None None None = MeridianError e \<and>
      outcome_of e = (UnavailableErrorC, ''MERIDIAN_VALKEY_UNAVAILABLE'', True, ''Valkey is temporarily unavailable''))"
  using translate_engine_error_precedence [of "ValkeyError ''AuthenticationError'' [VAuthenticationError, VConnectionError] ''secret''" None None None None]
    translate_engine_error_precedence [of "ValkeyError ''ReadOnlyError'' [VReadOnlyError, VResponseError] ''secret''" None None None None]
  unfolding engine_failures_def by (intro conjI; elim exE conjE) auto

end
