(* ===== verification/Vk_Configuration.thy ===== *)
theory Vk_Configuration
  imports Vk_Canonical Vk_Errors
begin

section \<open>Binding settings\<close>

text \<open>
  The module \<^verbatim>\<open>configuration.py\<close>: the closed settings of a Binding, read from a dynamic mapping,
  the policy of a Resource and the effective TTL of a write. Of the messages, the \<^verbatim>\<open>repr\<close> of the
  offending names is left out, and the \<^verbatim>\<open>SafeCause\<close> of a failure is its type name. Shown: what a
  parsed setting satisfies, which failures parsing has, and the bounds of the effective TTL.
\<close>

subsection \<open>Helpers\<close>

definition SERIALIZER_CANONICAL_JSON :: string where
  "SERIALIZER_CANONICAL_JSON = ''canonical-json''"

definition SERIALIZER_RAW_BYTES :: string where
  "SERIALIZER_RAW_BYTES = ''raw-bytes''"

definition SUPPORTED_SERIALIZERS :: "string list" where
  "SUPPORTED_SERIALIZERS = [SERIALIZER_CANONICAL_JSON, SERIALIZER_RAW_BYTES]"

definition TOPOLOGY_STANDALONE :: string where
  "TOPOLOGY_STANDALONE = ''standalone''"

definition TOPOLOGY_SENTINEL :: string where
  "TOPOLOGY_SENTINEL = ''sentinel''"

definition INT31_MAX :: int where
  "INT31_MAX = 2147483647"

text \<open>\<^verbatim>\<open>str(exc)\<close> of the exceptions the readers raise.\<close>

fun exn_str :: "exn \<Rightarrow> string" where
  "exn_str (ValueError m) = m"
| "exn_str e = exn_type_name e"

text \<open>\<^verbatim>\<open>_fail\<close>, without and with a cause.\<close>

definition fail :: "string \<Rightarrow> exn" where
  "fail msg = meridian ConfigurationErrorC ''CONFIG_INVALID'' msg []"

definition fail_from :: "exn \<Rightarrow> exn" where
  "fail_from exc = meridian ConfigurationErrorC ''CONFIG_INVALID'' (exn_str exc)
     [(''cause'', PDict [(PStr ''type'', PStr (exn_type_name exc))])]"

text \<open>\<^verbatim>\<open>try: m except ValueError as exc: _fail(str(exc), exc)\<close>\<close>

definition try_fail :: "'a res \<Rightarrow> 'a res" where
  "try_fail m = catchE m is_ValueError (\<lambda>exc. Inl (fail_from exc))"

type_synonym mapping = "(pyval \<times> pyval) list"

text \<open>\<^verbatim>\<open>item.get(k)\<close> and \<^verbatim>\<open>item.get(k, default)\<close>\<close>

definition dict_get :: "mapping \<Rightarrow> string \<Rightarrow> pyval \<Rightarrow> pyval" where
  "dict_get item k dflt = (case map_of item (PStr k) of Some v \<Rightarrow> v | None \<Rightarrow> dflt)"

definition closed :: "pyval \<Rightarrow> string \<Rightarrow> string list \<Rightarrow> mapping res" where
  "closed v field allowed = (case v of
     PDict item \<Rightarrow>
       if \<not> list_all (\<lambda>kv. is_str (fst kv)) item then Inl (fail (field @ '' must be an object''))
       else if \<not> list_all (\<lambda>kv. key_text (fst kv) \<in> set allowed) item
         then Inl (fail (field @ '' contains unknown fields''))
       else Inr item
   | _ \<Rightarrow> Inl (fail (field @ '' must be an object'')))"

definition strings :: "pyval \<Rightarrow> string \<Rightarrow> nat \<Rightarrow> string list res" where
  "strings v field maximum = (case seq_items v of
     None \<Rightarrow> Inl (fail (field @ '' must be an array''))
   | Some items \<Rightarrow>
       bindE (try_fail (mapE (\<lambda>item. safe_token item field maximum) items)) (\<lambda>tokens.
       let result = sort tokens in
       if result = [] \<or> \<not> distinct result then Inl (fail (field @ '' must contain unique values''))
       else Inr result))"

subsection \<open>Limits, TTLs and single flight\<close>

record adapter_limits =
  max_key_bytes :: int
  max_value_bytes :: int
  max_batch_size :: int

definition AdapterLimits_from_mapping :: "pyval \<Rightarrow> adapter_limits res" where
  "AdapterLimits_from_mapping v =
     bindE (closed v ''binding.settings.limits'' [''maxKeyBytes'', ''maxValueBytes'', ''maxBatchSize'']) (\<lambda>item.
     try_fail (
       bindE (integer (dict_get item ''maxKeyBytes'' (PInt 512)) ''limits.maxKeyBytes'' 96 4096) (\<lambda>k.
       bindE (integer (dict_get item ''maxValueBytes'' (PInt (4 * 1024 * 1024))) ''limits.maxValueBytes'' 1 (64 * 1024 * 1024)) (\<lambda>m.
       bindE (integer (dict_get item ''maxBatchSize'' (PInt 128)) ''limits.maxBatchSize'' 1 10000) (\<lambda>b.
       Inr \<lparr>max_key_bytes = k, max_value_bytes = m, max_batch_size = b\<rparr>)))))"

record ttl_policy =
  ttl_default_ms :: int
  ttl_minimum_ms :: int
  ttl_maximum_ms :: int
  ttl_negative_ms :: int

definition TTLPolicy_from_mapping :: "pyval \<Rightarrow> ttl_policy res" where
  "TTLPolicy_from_mapping v =
     bindE (closed v ''binding.settings.ttl'' [''defaultTtlMs'', ''minimumTtlMs'', ''maximumTtlMs'', ''negativeTtlMs'']) (\<lambda>item.
     bindE (try_fail (
       bindE (integer (dict_get item ''defaultTtlMs'' (PInt 60000)) ''ttl.defaultTtlMs'' 1 INT31_MAX) (\<lambda>d.
       bindE (integer (dict_get item ''minimumTtlMs'' (PInt 10)) ''ttl.minimumTtlMs'' 1 INT31_MAX) (\<lambda>lo.
       bindE (integer (dict_get item ''maximumTtlMs'' (PInt 86400000)) ''ttl.maximumTtlMs'' 1 INT31_MAX) (\<lambda>hi.
       bindE (integer (dict_get item ''negativeTtlMs'' (PInt 5000)) ''ttl.negativeTtlMs'' 1 INT31_MAX) (\<lambda>n.
       Inr \<lparr>ttl_default_ms = d, ttl_minimum_ms = lo, ttl_maximum_ms = hi, ttl_negative_ms = n\<rparr>)))))) (\<lambda>result.
     bindE (guardE
       (ttl_minimum_ms result \<le> ttl_default_ms result \<and> ttl_default_ms result \<le> ttl_maximum_ms result \<and>
        ttl_minimum_ms result \<le> ttl_negative_ms result \<and> ttl_negative_ms result \<le> ttl_maximum_ms result)
       (fail ''TTL defaults must fall within the deployment TTL bounds'')) (\<lambda>_.
     Inr result)))"

record single_flight_policy =
  lease_ms :: int
  wait_ms :: int
  poll_ms :: int

definition SingleFlightPolicy_from_mapping :: "pyval \<Rightarrow> single_flight_policy res" where
  "SingleFlightPolicy_from_mapping v =
     bindE (closed v ''binding.settings.singleFlight'' [''leaseMs'', ''waitMs'', ''pollMs'']) (\<lambda>item.
     bindE (try_fail (
       bindE (integer (dict_get item ''leaseMs'' (PInt 5000)) ''singleFlight.leaseMs'' 10 600000) (\<lambda>l.
       bindE (integer (dict_get item ''waitMs'' (PInt 250)) ''singleFlight.waitMs'' 0 600000) (\<lambda>w.
       bindE (integer (dict_get item ''pollMs'' (PInt 10)) ''singleFlight.pollMs'' 1 60000) (\<lambda>p.
       Inr \<lparr>lease_ms = l, wait_ms = w, poll_ms = p\<rparr>))))) (\<lambda>result.
     bindE (guardE (wait_ms result \<le> lease_ms result) (fail ''singleFlight.waitMs cannot exceed leaseMs'')) (\<lambda>_.
     Inr result)))"

subsection \<open>Memory and topology\<close>

record memory_expectation =
  require_maxmemory :: bool
  allowed_eviction_policies :: "string list"
  require_persistence_disabled :: bool

definition default_eviction_policies :: "string list" where
  "default_eviction_policies = [''allkeys-lfu'', ''allkeys-lru'', ''allkeys-random'', ''volatile-lfu'',
     ''volatile-lru'', ''volatile-random'', ''volatile-ttl'']"

definition MemoryExpectation_from_mapping :: "pyval \<Rightarrow> memory_expectation res" where
  "MemoryExpectation_from_mapping v =
     bindE (closed v ''binding.settings.memory''
       [''requireMaxmemory'', ''allowedEvictionPolicies'', ''requirePersistenceDisabled'']) (\<lambda>item.
     try_fail (
       bindE (boolean (dict_get item ''requireMaxmemory'' (PBool True)) ''memory.requireMaxmemory'') (\<lambda>m.
       bindE (strings (dict_get item ''allowedEvictionPolicies'' (PTuple (map PStr default_eviction_policies)))
         ''memory.allowedEvictionPolicies'' 64) (\<lambda>ps.
       bindE (boolean (dict_get item ''requirePersistenceDisabled'' (PBool True)) ''memory.requirePersistenceDisabled'') (\<lambda>p.
       Inr \<lparr>require_maxmemory = m, allowed_eviction_policies = ps, require_persistence_disabled = p\<rparr>)))))"

record topology_expectation =
  topo_mode :: string
  minimum_replicas :: int
  sentinel_master :: "string option"

definition TopologyExpectation_from_mapping :: "pyval \<Rightarrow> topology_expectation res" where
  "TopologyExpectation_from_mapping v =
     bindE (closed v ''binding.settings.topology'' [''mode'', ''minimumReplicas'', ''sentinelMaster'']) (\<lambda>item.
     bindE (try_fail (
       bindE (safe_token (dict_get item ''mode'' (PStr TOPOLOGY_STANDALONE)) ''topology.mode'' 32) (\<lambda>mode.
       bindE (integer (dict_get item ''minimumReplicas'' (PInt 0)) ''topology.minimumReplicas'' 0 100) (\<lambda>replicas.
       let raw_master = dict_get item ''sentinelMaster'' PNone in
       bindE (if raw_master = PNone then Inr None
         else bindE (safe_token raw_master ''topology.sentinelMaster'' 256) (\<lambda>m. Inr (Some m))) (\<lambda>master.
       Inr (mode, replicas, master)))))) (\<lambda>(mode, replicas, master).
     bindE (guardE (mode = TOPOLOGY_STANDALONE \<or> mode = TOPOLOGY_SENTINEL)
       (fail ''topology.mode must be standalone or sentinel'')) (\<lambda>_.
     bindE (guardE (\<not> (mode = TOPOLOGY_STANDALONE \<and> (master \<noteq> None \<or> replicas \<noteq> 0)))
       (fail ''standalone topology requires zero replicas and no Sentinel master'')) (\<lambda>_.
     bindE (guardE (\<not> (mode = TOPOLOGY_SENTINEL \<and> (master = None \<or> replicas < 1)))
       (fail ''sentinel topology requires sentinelMaster and at least one replica'')) (\<lambda>_.
     Inr \<lparr>topo_mode = mode, minimum_replicas = replicas, sentinel_master = master\<rparr>)))))"

subsection \<open>Resource policies\<close>

record resource_cache_policy =
  rp_schema_fingerprint :: string
  rp_serializer_id :: string
  rp_default_ttl_ms :: "int option"
  rp_maximum_staleness_ms :: "int option"
  rp_negative_caching :: bool

definition optional_ms :: "pyval \<Rightarrow> string \<Rightarrow> int option res" where
  "optional_ms v field = (if v = PNone then Inr None
     else bindE (integer v field 1 INT31_MAX) (\<lambda>i. Inr (Some i)))"

definition ResourceCachePolicy_from_mapping :: "pyval \<Rightarrow> string \<Rightarrow> resource_cache_policy res" where
  "ResourceCachePolicy_from_mapping v field =
     bindE (closed v field [''schemaFingerprint'', ''serializerId'', ''defaultTtlMs'', ''maximumStalenessMs'',
       ''negativeCaching'', ''authoritative'']) (\<lambda>item.
     bindE (guardE (dict_get item ''authoritative'' (PBool False) = PBool False)
       (fail (field @ ''.authoritative must be false''))) (\<lambda>_.
     try_fail (
       bindE (require_fingerprint (dict_get item ''schemaFingerprint'' PNone) ''schemaFingerprint'') (\<lambda>schema.
       bindE (safe_token (dict_get item ''serializerId'' (PStr SERIALIZER_CANONICAL_JSON)) ''serializerId'' 128) (\<lambda>serializer.
       bindE (guardE (serializer \<in> set SUPPORTED_SERIALIZERS)
         (ValueError ''serializerId is not supported by the Valkey V1 envelope'')) (\<lambda>_.
       bindE (optional_ms (dict_get item ''defaultTtlMs'' PNone) ''defaultTtlMs'') (\<lambda>default.
       bindE (optional_ms (dict_get item ''maximumStalenessMs'' PNone) ''maximumStalenessMs'') (\<lambda>staleness.
       bindE (boolean (dict_get item ''negativeCaching'' (PBool False)) ''negativeCaching'') (\<lambda>negative.
       Inr \<lparr>rp_schema_fingerprint = schema, rp_serializer_id = serializer, rp_default_ttl_ms = default,
            rp_maximum_staleness_ms = staleness, rp_negative_caching = negative\<rparr>)))))))))"

subsection \<open>Settings\<close>

record valkey_settings =
  namespace_generation :: int
  resources :: "(string \<times> resource_cache_policy) list"
  limits :: adapter_limits
  ttl :: ttl_policy
  single_flight :: single_flight_policy
  memory :: memory_expectation
  topology :: topology_expectation
  database :: int
  seed_endpoints :: "string list"
  allow_insecure_test_profile :: bool

definition seed_endpoint :: "pyval \<Rightarrow> string res" where
  "seed_endpoint v = (case v of
     PStr s \<Rightarrow> if s = [] then Inl (ValueError ''invalid seed endpoint'')
       else bindE (utf8_encode s) (\<lambda>b. if 2048 < length b then Inl (ValueError ''invalid seed endpoint'') else Inr s)
   | _ \<Rightarrow> Inl (ValueError ''invalid seed endpoint''))"

definition resource_policy :: "pyval \<times> pyval \<Rightarrow> (string \<times> resource_cache_policy) res" where
  "resource_policy = (\<lambda>(key, policy).
     bindE (safe_token key ''resource reference'' 768) (\<lambda>k.
     bindE (ResourceCachePolicy_from_mapping policy (''binding.settings.resources['' @ key_text key @ '']'')) (\<lambda>p.
     Inr (k, p))))"

text \<open>A mapping's items sorted by key, as \<^verbatim>\<open>sorted(items())\<close> orders distinct keys.\<close>

definition sorted_items :: "mapping \<Rightarrow> mapping" where
  "sorted_items kvs = sort_key (\<lambda>kv. key_text (fst kv)) kvs"

definition ValkeySettings_from_mapping :: "pyval \<Rightarrow> valkey_settings res" where
  "ValkeySettings_from_mapping v =
     bindE (closed v ''binding.settings'' [''namespaceGeneration'', ''resources'', ''limits'', ''ttl'', ''singleFlight'',
       ''memory'', ''topology'', ''database'', ''seedEndpoints'', ''allowInsecureTestProfile'']) (\<lambda>item.
     bindE (guardE (map_of item (PStr ''namespaceGeneration'') \<noteq> None \<and> map_of item (PStr ''resources'') \<noteq> None)
       (fail ''binding.settings requires namespaceGeneration and resources'')) (\<lambda>_.
     bindE (case dict_get item ''resources'' PNone of
         PDict rs \<Rightarrow> if list_all (\<lambda>kv. is_str (fst kv)) rs then Inr rs
           else Inl (fail ''binding.settings.resources must be an object'')
       | _ \<Rightarrow> Inl (fail ''binding.settings.resources must be an object'')) (\<lambda>raw_resources.
     bindE (mapE resource_policy (sorted_items raw_resources)) (\<lambda>policies.
     bindE (guardE (policies \<noteq> []) (fail ''binding.settings.resources cannot be empty'')) (\<lambda>_.
     bindE (case seq_items (dict_get item ''seedEndpoints'' (PTuple [])) of
         Some xs \<Rightarrow> Inr xs
       | None \<Rightarrow> Inl (fail ''binding.settings.seedEndpoints must be an array'')) (\<lambda>raw_seeds.
     try_fail (
       bindE (mapE seed_endpoint raw_seeds) (\<lambda>seeds.
       bindE (integer (dict_get item ''namespaceGeneration'' PNone) ''namespaceGeneration'' 1 INT31_MAX) (\<lambda>g.
       bindE (AdapterLimits_from_mapping (dict_get item ''limits'' (PDict []))) (\<lambda>lim.
       bindE (TTLPolicy_from_mapping (dict_get item ''ttl'' (PDict []))) (\<lambda>t.
       bindE (SingleFlightPolicy_from_mapping (dict_get item ''singleFlight'' (PDict []))) (\<lambda>sf.
       bindE (MemoryExpectation_from_mapping (dict_get item ''memory'' (PDict []))) (\<lambda>me.
       bindE (TopologyExpectation_from_mapping (dict_get item ''topology'' (PDict []))) (\<lambda>topo.
       bindE (integer (dict_get item ''database'' (PInt 0)) ''database'' 0 15) (\<lambda>db.
       bindE (boolean (dict_get item ''allowInsecureTestProfile'' (PBool False)) ''allowInsecureTestProfile'') (\<lambda>insecure.
       Inr \<lparr>namespace_generation = g, resources = policies, limits = lim, ttl = t, single_flight = sf, memory = me,
            topology = topo, database = db, seed_endpoints = seeds, allow_insecure_test_profile = insecure\<rparr>))))))))))))))))"

definition policy_for :: "valkey_settings \<Rightarrow> string \<Rightarrow> resource_cache_policy res" where
  "policy_for s ref = (case map_of (resources s) ref of
     Some policy \<Rightarrow> Inr policy
   | None \<Rightarrow> Inl (meridian ConfigurationErrorC ''PLACEMENT_UNRESOLVED''
       ''Binding has no disposable Cache policy for the requested Resource'' [(''resource_ref'', PStr ref)]))"

definition selected_ttl :: "valkey_settings \<Rightarrow> resource_cache_policy \<Rightarrow> pyval \<Rightarrow> bool \<Rightarrow> pyval" where
  "selected_ttl s policy requested_ttl_ms negative =
     (if negative then PInt (ttl_negative_ms (ttl s))
      else if requested_ttl_ms \<noteq> PNone then requested_ttl_ms
      else (case rp_default_ttl_ms policy of Some d \<Rightarrow> PInt d | None \<Rightarrow> PInt (ttl_default_ms (ttl s))))"

definition effective_ttl_ms :: "valkey_settings \<Rightarrow> resource_cache_policy \<Rightarrow> pyval \<Rightarrow> bool \<Rightarrow> int res" where
  "effective_ttl_ms s policy requested_ttl_ms negative =
     (let bad = Inl (meridian ConfigurationErrorC ''CONFIG_INVALID'' ''Cache TTL must be positive'' []) in
      case selected_ttl s policy requested_ttl_ms negative of
        PInt selected \<Rightarrow>
          if selected \<le> 0 then bad
          else
            (let upper = (case rp_maximum_staleness_ms policy of
                 None \<Rightarrow> [ttl_maximum_ms (ttl s)] | Some m \<Rightarrow> [ttl_maximum_ms (ttl s), m]);
               result = foldl min selected upper
             in if result < ttl_minimum_ms (ttl s) then
                  Inl (meridian ConfigurationErrorC ''CONFIG_INVALID'' ''effective Cache TTL falls below the deployment minimum'' [])
                else Inr result)
      | _ \<Rightarrow> bad)"

subsection \<open>What a parsed setting satisfies\<close>

definition wf_limits :: "adapter_limits \<Rightarrow> bool" where
  "wf_limits l = (96 \<le> max_key_bytes l \<and> max_key_bytes l \<le> 4096 \<and> 1 \<le> max_value_bytes l \<and>
     max_value_bytes l \<le> 67108864 \<and> 1 \<le> max_batch_size l \<and> max_batch_size l \<le> 10000)"

definition wf_ttl :: "ttl_policy \<Rightarrow> bool" where
  "wf_ttl t = (1 \<le> ttl_minimum_ms t \<and> ttl_minimum_ms t \<le> ttl_default_ms t \<and> ttl_default_ms t \<le> ttl_maximum_ms t \<and>
     ttl_minimum_ms t \<le> ttl_negative_ms t \<and> ttl_negative_ms t \<le> ttl_maximum_ms t \<and> ttl_maximum_ms t \<le> INT31_MAX)"

definition wf_single_flight :: "single_flight_policy \<Rightarrow> bool" where
  "wf_single_flight s = (10 \<le> lease_ms s \<and> lease_ms s \<le> 600000 \<and> 0 \<le> wait_ms s \<and> wait_ms s \<le> lease_ms s \<and>
     1 \<le> poll_ms s \<and> poll_ms s \<le> 60000)"

definition wf_memory :: "memory_expectation \<Rightarrow> bool" where
  "wf_memory m = (let ps = allowed_eviction_policies m in
     ps \<noteq> [] \<and> distinct ps \<and> sorted ps \<and> list_all (\<lambda>p. is_safe_token p \<and> length p \<le> 64) ps)"

definition wf_topology :: "topology_expectation \<Rightarrow> bool" where
  "wf_topology t =
     ((topo_mode t = TOPOLOGY_STANDALONE \<and> minimum_replicas t = 0 \<and> sentinel_master t = None) \<or>
      (topo_mode t = TOPOLOGY_SENTINEL \<and> 1 \<le> minimum_replicas t \<and> minimum_replicas t \<le> 100 \<and> sentinel_master t \<noteq> None))"

definition ms_in_range :: "int option \<Rightarrow> bool" where
  "ms_in_range m = (case m of None \<Rightarrow> True | Some i \<Rightarrow> 1 \<le> i \<and> i \<le> INT31_MAX)"

definition wf_policy :: "resource_cache_policy \<Rightarrow> bool" where
  "wf_policy p = (is_fingerprint (rp_schema_fingerprint p) \<and> rp_serializer_id p \<in> set SUPPORTED_SERIALIZERS \<and>
     ms_in_range (rp_default_ttl_ms p) \<and> ms_in_range (rp_maximum_staleness_ms p))"

definition wf_settings :: "valkey_settings \<Rightarrow> bool" where
  "wf_settings s = (1 \<le> namespace_generation s \<and> namespace_generation s \<le> INT31_MAX \<and> resources s \<noteq> [] \<and>
     list_all (\<lambda>(k, p). is_safe_token k \<and> wf_policy p) (resources s) \<and> wf_limits (limits s) \<and> wf_ttl (ttl s) \<and>
     wf_single_flight (single_flight s) \<and> wf_memory (memory s) \<and> wf_topology (topology s) \<and>
     0 \<le> database s \<and> database s \<le> 15 \<and> list_all (\<lambda>e. e \<noteq> [] \<and> length e \<le> 2048) (seed_endpoints s))"

lemma try_fail_eq_Inr [res_simps]: "try_fail m = Inr x \<longleftrightarrow> m = Inr x"
  by (cases m) (auto simp: try_fail_def)

lemma bindE_InrE: "bindE m f = Inr y \<Longrightarrow> (\<And>x. m = Inr x \<Longrightarrow> f x = Inr y \<Longrightarrow> P) \<Longrightarrow> P"
  by (cases m) auto

lemma try_fail_InrE: "try_fail m = Inr y \<Longrightarrow> (m = Inr y \<Longrightarrow> P) \<Longrightarrow> P"
  by (simp add: try_fail_eq_Inr)

lemma wf_AdapterLimits: "AdapterLimits_from_mapping v = Inr l \<Longrightarrow> wf_limits l"
  by (auto simp: AdapterLimits_from_mapping_def wf_limits_def res_simps)

lemma wf_TTLPolicy: "TTLPolicy_from_mapping v = Inr t \<Longrightarrow> wf_ttl t"
  by (auto simp: TTLPolicy_from_mapping_def wf_ttl_def res_simps)

lemma wf_SingleFlightPolicy: "SingleFlightPolicy_from_mapping v = Inr s \<Longrightarrow> wf_single_flight s"
  by (auto simp: SingleFlightPolicy_from_mapping_def wf_single_flight_def res_simps)

lemma strings_eq_Inr:
  "strings v f n = Inr ps \<Longrightarrow> ps \<noteq> [] \<and> distinct ps \<and> sorted ps \<and> list_all (\<lambda>p. is_safe_token p \<and> length p \<le> n) ps"
  by (auto simp: strings_def res_simps mapE_eq_Inr Let_def list_all_iff list_all2_conv_all_nth in_set_conv_nth
      split: option.splits if_splits)

lemma wf_MemoryExpectation: "MemoryExpectation_from_mapping v = Inr m \<Longrightarrow> wf_memory m"
  by (auto simp: MemoryExpectation_from_mapping_def wf_memory_def res_simps Let_def dest!: strings_eq_Inr)

lemma wf_TopologyExpectation: "TopologyExpectation_from_mapping v = Inr t \<Longrightarrow> wf_topology t"
proof -
  assume "TopologyExpectation_from_mapping v = Inr t"
  then obtain item where
    "integer (dict_get item ''minimumReplicas'' (PInt 0)) ''topology.minimumReplicas'' 0 100 = Inr (minimum_replicas t)"
    "topo_mode t = TOPOLOGY_STANDALONE \<or> topo_mode t = TOPOLOGY_SENTINEL"
    "\<not> (topo_mode t = TOPOLOGY_STANDALONE \<and> (sentinel_master t \<noteq> None \<or> minimum_replicas t \<noteq> 0))"
    "\<not> (topo_mode t = TOPOLOGY_SENTINEL \<and> (sentinel_master t = None \<or> minimum_replicas t < 1))"
    unfolding TopologyExpectation_from_mapping_def Let_def
    by (elim bindE_InrE try_fail_InrE) (auto simp: bindE_eq_Inr guardE_eq_Inr)
  then show "wf_topology t" by (auto simp: wf_topology_def integer_eq_Inr)
qed

lemma optional_ms_eq_Inr: "optional_ms v f = Inr m \<Longrightarrow> ms_in_range m"
  by (auto simp: optional_ms_def ms_in_range_def res_simps split: if_splits)

lemma wf_ResourceCachePolicy: "ResourceCachePolicy_from_mapping v f = Inr p \<Longrightarrow> wf_policy p"
  by (auto simp: ResourceCachePolicy_from_mapping_def wf_policy_def res_simps dest!: optional_ms_eq_Inr)

lemma resource_policy_eq_Inr: "resource_policy kv = Inr (k, p) \<Longrightarrow> is_safe_token k \<and> wf_policy p"
  by (auto simp: resource_policy_def res_simps split: prod.splits dest!: wf_ResourceCachePolicy)

lemma seed_endpoint_eq_Inr: "seed_endpoint v = Inr e \<Longrightarrow> e \<noteq> [] \<and> length e \<le> 2048"
  by (cases v) (auto simp: seed_endpoint_def res_simps split: if_splits)

lemma mapE_all: "mapE f xs = Inr ys \<Longrightarrow> (\<And>x y. f x = Inr y \<Longrightarrow> P y) \<Longrightarrow> list_all P ys"
  by (auto simp: mapE_eq_Inr list_all2_conv_all_nth list_all_length)

lemma wf_resources:
  "mapE resource_policy rs = Inr ps \<Longrightarrow> list_all (\<lambda>(k, p). is_safe_token k \<and> wf_policy p) ps"
  by (erule mapE_all) (auto dest: resource_policy_eq_Inr)

lemma wf_seeds: "mapE seed_endpoint xs = Inr es \<Longrightarrow> list_all (\<lambda>e. e \<noteq> [] \<and> length e \<le> 2048) es"
  by (erule mapE_all) (rule seed_endpoint_eq_Inr)

lemma wf_settings_parse:
  assumes "ValkeySettings_from_mapping v = Inr s"
  shows "wf_settings s"
  by (insert assms, unfold ValkeySettings_from_mapping_def, elim bindE_InrE try_fail_InrE,
      (drule wf_resources wf_seeds wf_AdapterLimits wf_TTLPolicy wf_SingleFlightPolicy wf_MemoryExpectation
        wf_TopologyExpectation)+,
      simp only: integer_eq_Inr guardE_eq_Inr sum.inject, clarsimp simp: wf_settings_def)

text \<open>
  C25: settings that parse are well-formed: every limit, TTL, lease and database number is in its
  range, the TTL defaults lie within the TTL bounds, the wait of single flight does not exceed its
  lease, the eviction policies are sorted and distinct, the topology is one of the two legal ones,
  and every Resource policy has a schema fingerprint and a supported serializer. The token syntax of the
  Sentinel master's name and the length bounds of texts are not part of the claim.
\<close>

theorem settings_well_formed:
  assumes "ValkeySettings_from_mapping v = Inr s"
  shows "wf_settings s"
  using assms by (rule wf_settings_parse)

subsection \<open>Failures of the reader\<close>

definition config_failure :: "exn \<Rightarrow> bool" where
  "config_failure e = (\<exists>msg details. e = meridian ConfigurationErrorC ''CONFIG_INVALID'' msg details)"

lemma config_failure_fail [simp]: "config_failure (fail m)" "config_failure (fail_from e)"
  by (auto simp: config_failure_def fail_def fail_from_def)

lemma onlyE_try_fail [only_intros]:
  "onlyE (\<lambda>e. is_ValueError e \<or> P e) m \<Longrightarrow> (\<And>e. config_failure e \<Longrightarrow> P e) \<Longrightarrow> onlyE P (try_fail m)"
  by (cases m) (auto simp: try_fail_def onlyE_def)

lemma closed_only [only_intros]: "(\<And>e. config_failure e \<Longrightarrow> P e) \<Longrightarrow> onlyE P (closed v f a)"
  by (cases v) (auto simp: closed_def intro!: only_intros)

lemma strings_only [only_intros]: "(\<And>e. config_failure e \<Longrightarrow> P e) \<Longrightarrow> onlyE P (strings v f n)"
  by (rule onlyE_mono [of config_failure])
    (auto simp: strings_def Let_def split: option.split intro!: only_intros)

lemma optional_ms_only [only_intros]: "(\<And>e. is_ValueError e \<Longrightarrow> P e) \<Longrightarrow> onlyE P (optional_ms v f)"
  by (auto simp: optional_ms_def intro!: only_intros)

lemma seed_endpoint_only [only_intros]: "(\<And>e. is_ValueError e \<Longrightarrow> P e) \<Longrightarrow> onlyE P (seed_endpoint v)"
  by (cases v) (auto simp: seed_endpoint_def utf8_encode_def intro!: only_intros)

lemma readers_only:
  "onlyE config_failure (AdapterLimits_from_mapping v)"
  "onlyE config_failure (TTLPolicy_from_mapping v)"
  "onlyE config_failure (SingleFlightPolicy_from_mapping v)"
  "onlyE config_failure (MemoryExpectation_from_mapping v)"
  "onlyE config_failure (TopologyExpectation_from_mapping v)"
  "onlyE config_failure (ResourceCachePolicy_from_mapping v f)"
  unfolding AdapterLimits_from_mapping_def TTLPolicy_from_mapping_def SingleFlightPolicy_from_mapping_def
    MemoryExpectation_from_mapping_def TopologyExpectation_from_mapping_def ResourceCachePolicy_from_mapping_def Let_def
  by (auto intro!: only_intros split: prod.split)

lemma readers_only_mono [only_intros]:
  "(\<And>e. config_failure e \<Longrightarrow> P e) \<Longrightarrow> onlyE P (AdapterLimits_from_mapping v)"
  "(\<And>e. config_failure e \<Longrightarrow> P e) \<Longrightarrow> onlyE P (TTLPolicy_from_mapping v)"
  "(\<And>e. config_failure e \<Longrightarrow> P e) \<Longrightarrow> onlyE P (SingleFlightPolicy_from_mapping v)"
  "(\<And>e. config_failure e \<Longrightarrow> P e) \<Longrightarrow> onlyE P (MemoryExpectation_from_mapping v)"
  "(\<And>e. config_failure e \<Longrightarrow> P e) \<Longrightarrow> onlyE P (TopologyExpectation_from_mapping v)"
  "(\<And>e. config_failure e \<Longrightarrow> P e) \<Longrightarrow> onlyE P (ResourceCachePolicy_from_mapping v f)"
  by (rule onlyE_mono [OF readers_only(1)] onlyE_mono [OF readers_only(2)] onlyE_mono [OF readers_only(3)]
      onlyE_mono [OF readers_only(4)] onlyE_mono [OF readers_only(5)] onlyE_mono [OF readers_only(6)], simp)+

definition bad_reference :: "exn \<Rightarrow> bool" where
  "bad_reference e = (e = ValueError ''resource reference must be a bounded safe token'' \<or> e = UnicodeEncodeError)"

lemma safe_token_reference: "onlyE bad_reference (safe_token v ''resource reference'' n)"
  by (cases v) (auto simp: safe_token_def utf8_encode_def bad_reference_def Let_def intro!: only_intros)

text \<open>
  C27: a mapping that is no valid setting is refused with a configuration error; the only failures
  of another kind are the bare \<^verbatim>\<open>ValueError\<close>s of a malformed resource reference.
\<close>

theorem settings_errors:
  assumes "ValkeySettings_from_mapping v = Inl e"
  shows "config_failure e \<or> bad_reference e"
proof -
  have rp: "onlyE (\<lambda>e. config_failure e \<or> bad_reference e) (resource_policy kv)" for kv
    unfolding resource_policy_def
    by (auto intro!: only_intros onlyE_mono [OF safe_token_reference] split: prod.split)
  have "onlyE (\<lambda>e. config_failure e \<or> bad_reference e) (ValkeySettings_from_mapping v)"
    unfolding ValkeySettings_from_mapping_def
    by (intro only_intros rp)
      (auto intro!: only_intros split: pyval.split option.split)
  with assms show ?thesis by (auto dest: onlyE_D)
qed

text \<open>
  A resource name that is no safe token makes the reader raise a bare \<^verbatim>\<open>ValueError\<close> instead of a
  configuration error: the names are checked before the \<^verbatim>\<open>try\<close> that converts such failures.
\<close>

theorem bad_resource_name_escapes:
  assumes "k \<noteq> []" "utf8_ok k" "\<not> is_safe_token k"
  shows "ValkeySettings_from_mapping (PDict [(PStr ''namespaceGeneration'', g), (PStr ''resources'', PDict [(PStr k, p)])]) =
    Inl (ValueError ''resource reference must be a bounded safe token'')"
  using assms
  by (simp add: ValkeySettings_from_mapping_def closed_def dict_get_def sorted_items_def resource_policy_def safe_token_def
      utf8_encode_def)

theorem bad_resource_name_escapes_witness:
  "ValkeySettings_from_mapping (PDict [(PStr ''namespaceGeneration'', PInt 1), (PStr ''resources'', PDict [(PStr ''a b'', PDict [])])]) =
    Inl (ValueError ''resource reference must be a bounded safe token'')"
  by (rule bad_resource_name_escapes) code_simp+

subsection \<open>The effective TTL\<close>

text \<open>The least upper bound that applies to a policy.\<close>

definition ttl_cap :: "valkey_settings \<Rightarrow> resource_cache_policy \<Rightarrow> int" where
  "ttl_cap s p = (case rp_maximum_staleness_ms p of
     None \<Rightarrow> ttl_maximum_ms (ttl s) | Some m \<Rightarrow> min (ttl_maximum_ms (ttl s)) m)"

lemma effective_ttl_ms_eq_Inr:
  "effective_ttl_ms s p req neg = Inr t \<longleftrightarrow>
    (\<exists>sel. selected_ttl s p req neg = PInt sel \<and> 0 < sel \<and> t = min sel (ttl_cap s p) \<and> ttl_minimum_ms (ttl s) \<le> t)"
  by (cases "selected_ttl s p req neg")
    (auto simp: effective_ttl_ms_def ttl_cap_def Let_def split: option.splits)

lemma effective_ttl_range: "wf_settings s \<Longrightarrow> effective_ttl_ms s p req neg = Inr t \<Longrightarrow> 0 < t \<and> t \<le> INT31_MAX"
  by (auto simp: effective_ttl_ms_eq_Inr wf_settings_def wf_ttl_def ttl_cap_def split: option.splits)

text \<open>
  C26: an effective TTL is the selected TTL (the negative one, else the requested, else the
  Resource's, else the deployment's) capped by the deployment maximum and the Resource's maximum
  staleness; it is positive, within the deployment's bounds and never above the staleness, and
  the selection fails only when the selected value is not a positive integer or the cap forces it
  below the deployment minimum.
\<close>

theorem effective_ttl_bounds:
  assumes "wf_settings s"
  shows "case effective_ttl_ms s p req neg of
    Inr t \<Rightarrow> 1 \<le> t \<and> ttl_minimum_ms (ttl s) \<le> t \<and> t \<le> ttl_maximum_ms (ttl s) \<and> t \<le> INT31_MAX \<and>
      (case rp_maximum_staleness_ms p of None \<Rightarrow> True | Some m \<Rightarrow> t \<le> m) \<and>
      (\<exists>sel. selected_ttl s p req neg = PInt sel \<and> t = min sel (ttl_cap s p))
  | Inl e \<Rightarrow> config_failure e \<and>
      (\<forall>sel. selected_ttl s p req neg = PInt sel \<longrightarrow> sel \<le> 0 \<or> min sel (ttl_cap s p) < ttl_minimum_ms (ttl s))"
proof (cases "effective_ttl_ms s p req neg")
  case (Inr t)
  then obtain sel where sel: "selected_ttl s p req neg = PInt sel" "t = min sel (ttl_cap s p)" "ttl_minimum_ms (ttl s) \<le> t"
    by (auto simp: effective_ttl_ms_eq_Inr)
  moreover have "wf_ttl (ttl s)" using assms by (simp add: wf_settings_def)
  moreover have "t \<le> ttl_maximum_ms (ttl s) \<and> (case rp_maximum_staleness_ms p of None \<Rightarrow> True | Some m \<Rightarrow> t \<le> m)"
    by (auto simp: sel(2) ttl_cap_def min_le_iff_disj split: option.split)
  ultimately show ?thesis using Inr by (cases "rp_maximum_staleness_ms p") (simp_all add: wf_ttl_def)
next
  case (Inl e)
  then have "config_failure e"
    by (cases "selected_ttl s p req neg")
      (auto simp: effective_ttl_ms_def config_failure_def Let_def split: if_splits)
  moreover have "sel \<le> 0 \<or> min sel (ttl_cap s p) < ttl_minimum_ms (ttl s)" if "selected_ttl s p req neg = PInt sel" for sel
    using Inl that effective_ttl_ms_eq_Inr [of s p req neg "min sel (ttl_cap s p)"] by force
  ultimately show ?thesis using Inl by simp
qed

subsection \<open>Examples\<close>

definition sample_mapping :: pyval where
  "sample_mapping = PDict [(PStr ''namespaceGeneration'', PInt 1),
     (PStr ''resources'', PDict [(PStr ''cache/users'', PDict [(PStr ''schemaFingerprint'', PStr sample_schema)])])]"

definition sample_policy :: resource_cache_policy where
  "sample_policy = \<lparr>rp_schema_fingerprint = sample_schema, rp_serializer_id = ''canonical-json'',
     rp_default_ttl_ms = None, rp_maximum_staleness_ms = None, rp_negative_caching = False\<rparr>"

definition sample_settings :: valkey_settings where
  "sample_settings = \<lparr>namespace_generation = 1, resources = [(''cache/users'', sample_policy)],
     limits = \<lparr>max_key_bytes = 512, max_value_bytes = 4194304, max_batch_size = 128\<rparr>,
     ttl = \<lparr>ttl_default_ms = 60000, ttl_minimum_ms = 10, ttl_maximum_ms = 86400000, ttl_negative_ms = 5000\<rparr>,
     single_flight = \<lparr>lease_ms = 5000, wait_ms = 250, poll_ms = 10\<rparr>,
     memory = \<lparr>require_maxmemory = True, allowed_eviction_policies = default_eviction_policies, require_persistence_disabled = True\<rparr>,
     topology = \<lparr>topo_mode = ''standalone'', minimum_replicas = 0, sentinel_master = None\<rparr>,
     database = 0, seed_endpoints = [], allow_insecure_test_profile = False\<rparr>"

lemma sample_policies: "is_safe_token ''cache/users''" "is_safe_token ''canonical-json''" "is_safe_token ''standalone''"
  "list_all is_safe_token default_eviction_policies"
  by (simp_all add: is_safe_token_def is_alnum_def default_eviction_policies_def list_all_iff Let_def)

lemma sample_eviction:
  "strings (PTuple (map PStr default_eviction_policies)) ''memory.allowedEvictionPolicies'' 64 = Inr default_eviction_policies"
proof -
  have "mapE (\<lambda>item. safe_token item ''memory.allowedEvictionPolicies'' 64) (map PStr default_eviction_policies) =
      Inr default_eviction_policies"
    using sample_policies(4) by (simp add: default_eviction_policies_def safe_token_def utf8_encode_def)
  moreover have "sort default_eviction_policies = default_eviction_policies"
    "distinct default_eviction_policies" "default_eviction_policies \<noteq> []"
    by (simp_all add: default_eviction_policies_def)
  ultimately show ?thesis by (simp add: strings_def try_fail_def)
qed

lemma sample_settings_parse: "ValkeySettings_from_mapping sample_mapping = Inr sample_settings"
  using sample_policies sample_eviction
  by (simp add: ValkeySettings_from_mapping_def sample_mapping_def sample_settings_def sample_policy_def closed_def
      dict_get_def sorted_items_def resource_policy_def safe_token_def utf8_encode_def try_fail_def
      ResourceCachePolicy_from_mapping_def AdapterLimits_from_mapping_def TTLPolicy_from_mapping_def
      SingleFlightPolicy_from_mapping_def MemoryExpectation_from_mapping_def TopologyExpectation_from_mapping_def
      integer_def boolean_def require_fingerprint_def optional_ms_def INT31_MAX_def SERIALIZER_CANONICAL_JSON_def
      SUPPORTED_SERIALIZERS_def TOPOLOGY_STANDALONE_def TOPOLOGY_SENTINEL_def)

theorem settings_well_formed_witness: "wf_settings sample_settings"
  by (rule settings_well_formed [OF sample_settings_parse])

theorem settings_errors_witness:
  "ValkeySettings_from_mapping (PDict []) = Inl (fail ''binding.settings requires namespaceGeneration and resources'') \<and>
   (config_failure (fail ''binding.settings requires namespaceGeneration and resources'') \<or>
    bad_reference (fail ''binding.settings requires namespaceGeneration and resources''))"
proof -
  have e: "ValkeySettings_from_mapping (PDict []) = Inl (fail ''binding.settings requires namespaceGeneration and resources'')"
    by (simp add: ValkeySettings_from_mapping_def closed_def)
  with settings_errors [OF e] show ?thesis by simp
qed

theorem effective_ttl_bounds_witness:
  "case effective_ttl_ms sample_settings sample_policy (PInt 1000) False of
     Inr t \<Rightarrow> 1 \<le> t \<and> t \<le> 86400000 | Inl e \<Rightarrow> False"
proof -
  have "wf_settings sample_settings" by (rule settings_well_formed [OF sample_settings_parse])
  from effective_ttl_bounds [OF this, of sample_policy "PInt 1000" False] show ?thesis
    by (simp add: effective_ttl_ms_def selected_ttl_def sample_settings_def sample_policy_def)
qed

end
