(* ===== verification/Vk_Codec.thy ===== *)
theory Vk_Codec
  imports Vk_Configuration
begin

section \<open>Value envelopes\<close>

text \<open>
  The module \<^verbatim>\<open>codec\<close>: the self-validating envelope around a cached value. An envelope is a magic
  prefix, its version (a fingerprint of header and payload), the length of the header in
  hexadecimal, the canonical header and the payload. The clock, which the methods read between
  two groups of checks, is an argument of the pure functions here; \<^verbatim>\<open>Vk_Engine\<close> adds the effect.
  Shown: decoding inverts encoding until the envelope expires, what a decoded envelope
  guarantees, which exceptions decoding raises, and where it is more liberal or raises more than
  its documentation says.
\<close>

subsection \<open>Data\<close>

definition ENVELOPE_FORMAT_VERSION :: string where
  "ENVELOPE_FORMAT_VERSION = ''meridian-valkey-envelope.v1''"

definition MAGIC :: bytes where
  "MAGIC = ''MRVK1|''"

definition VERSION_BYTES :: nat where
  "VERSION_BYTES = 71"

definition HEADER_LENGTH_BYTES :: nat where
  "HEADER_LENGTH_BYTES = 8"

record decoded_envelope =
  de_value :: pyval
  de_serializer_id :: string
  de_schema_fingerprint :: string
  de_source_version :: pyval
  de_created_at_ms :: int
  de_expires_at_ms :: int
  de_payload_digest :: string
  de_envelope_version :: string

definition de_negative :: "decoded_envelope \<Rightarrow> bool" where
  "de_negative e = (de_serializer_id e = SERIALIZER_CANONICAL_JSON \<and> de_value e = PNone)"

record envelope_codec =
  maximum_value_bytes :: int

definition EnvelopeCodec :: "int \<Rightarrow> envelope_codec res" where
  "EnvelopeCodec mx = bindE (guardE (1 \<le> mx) (ValueError ''maximum value bytes must be positive''))
     (\<lambda>_. Inr \<lparr>maximum_value_bytes = mx\<rparr>)"

text \<open>A source version is absent, text or an integer.\<close>

fun is_source_version :: "pyval \<Rightarrow> bool" where
  "is_source_version PNone = True"
| "is_source_version (PStr _) = True"
| "is_source_version (PInt _) = True"
| "is_source_version _ = False"

fun int_of :: "pyval \<Rightarrow> int" where
  "int_of (PInt i) = i"
| "int_of _ = 0"

fun is_nonneg_int :: "pyval \<Rightarrow> bool" where
  "is_nonneg_int (PInt i) = (0 \<le> i)"
| "is_nonneg_int _ = False"

fun is_pos_int :: "pyval \<Rightarrow> bool" where
  "is_pos_int (PInt i) = (0 < i)"
| "is_pos_int _ = False"

subsection \<open>Encoding\<close>

text \<open>The checks before the clock is read; the result is the schema fingerprint.\<close>

definition encode_checks :: "string \<Rightarrow> pyval \<Rightarrow> pyval \<Rightarrow> pyval \<Rightarrow> string res" where
  "encode_checks serializer_id schema_fingerprint ttl_ms source_version =
     bindE (guardE (serializer_id \<in> set SUPPORTED_SERIALIZERS) (EnvelopeError ''unsupported Valkey serializer'')) (\<lambda>_.
     bindE (require_fingerprint schema_fingerprint ''schema fingerprint'') (\<lambda>schema.
     bindE (guardE (is_pos_int ttl_ms) (EnvelopeError ''envelope TTL must be positive'')) (\<lambda>_.
     bindE (guardE (is_source_version source_version)
       (EnvelopeError ''source version must be a string, integer, or null'')) (\<lambda>_.
     Inr schema))))"

definition encode_payload :: "lib \<Rightarrow> pyval \<Rightarrow> string \<Rightarrow> bytes res" where
  "encode_payload L v serializer_id =
     (if serializer_id = SERIALIZER_CANONICAL_JSON then
        bindE (guardE (bytes_of v = None) (EnvelopeError ''canonical-json cannot encode a byte payload'')) (\<lambda>_.
        catchE (canonical_json_bytes L v) (\<lambda>e. is_TypeError e \<or> is_ValueError e)
          (\<lambda>_. Inl (EnvelopeError ''value is not canonical finite JSON'')))
      else (case bytes_of v of
        None \<Rightarrow> Inl (EnvelopeError ''raw-bytes requires a byte payload'')
      | Some b \<Rightarrow> Inr b))"

definition base_header :: "string \<Rightarrow> string \<Rightarrow> pyval \<Rightarrow> int \<Rightarrow> int \<Rightarrow> bytes \<Rightarrow> mapping" where
  "base_header serializer_id schema source_version created ttl_ms payload = [
     (PStr ''formatVersion'', PStr ENVELOPE_FORMAT_VERSION),
     (PStr ''serializerId'', PStr serializer_id),
     (PStr ''schemaFingerprint'', PStr schema),
     (PStr ''sourceVersion'', source_version),
     (PStr ''createdAtMs'', PInt created),
     (PStr ''expiresAtMs'', PInt (created + ttl_ms)),
     (PStr ''payloadDigest'', PStr (sha256_hex payload)),
     (PStr ''payloadLength'', PInt (int (length payload)))]"

definition frame :: "string \<Rightarrow> bytes \<Rightarrow> bytes \<Rightarrow> bytes" where
  "frame version header_bytes payload =
     MAGIC @ version @ ''|'' @ hex08 (length header_bytes) @ ''|'' @ header_bytes @ payload"

text \<open>What follows the reading of the clock.\<close>

definition encode_framed :: "lib \<Rightarrow> envelope_codec \<Rightarrow> pyval \<Rightarrow> string \<Rightarrow> string \<Rightarrow> int \<Rightarrow> pyval \<Rightarrow> pyval \<Rightarrow> bytes res" where
  "encode_framed L c v serializer_id schema ttl_ms source_version created =
     bindE (guardE (is_nonneg_int created) (EnvelopeError ''creation time must be a non-negative millisecond instant'')) (\<lambda>_.
     bindE (encode_payload L v serializer_id) (\<lambda>payload.
     bindE (guardE (int (length payload) \<le> maximum_value_bytes c)
       (EnvelopeTooLargeError ''payload exceeds the configured value limit'')) (\<lambda>_.
     let base = base_header serializer_id schema source_version (int_of created) ttl_ms payload in
     bindE (canonical_json_bytes L (PDict base)) (\<lambda>base_bytes.
     let version = sha256_hex (base_bytes @ [CHR 0x00] @ payload) in
     bindE (canonical_json_bytes L (PDict (base @ [(PStr ''envelopeVersion'', PStr version)]))) (\<lambda>header_bytes.
     bindE (guardE (length header_bytes \<le> 0xFFFFFFFF)
       (EnvelopeTooLargeError ''envelope header exceeds its framing bound'')) (\<lambda>_.
     let framed = frame version header_bytes payload in
     bindE (guardE (int (length framed) \<le> maximum_value_bytes c)
       (EnvelopeTooLargeError ''complete envelope exceeds the configured value limit'')) (\<lambda>_.
     Inr framed)))))))"

definition encode_at ::
    "lib \<Rightarrow> envelope_codec \<Rightarrow> pyval \<Rightarrow> string \<Rightarrow> pyval \<Rightarrow> pyval \<Rightarrow> pyval \<Rightarrow> pyval \<Rightarrow> bytes res" where
  "encode_at L c v serializer_id schema_fingerprint ttl_ms source_version created =
     bindE (encode_checks serializer_id schema_fingerprint ttl_ms source_version) (\<lambda>schema.
     encode_framed L c v serializer_id schema (int_of ttl_ms) source_version created)"

subsection \<open>Parsing\<close>

definition corrupt :: "string \<Rightarrow> 'a res" where
  "corrupt msg = Inl (EnvelopeCorruptionError msg)"

definition extract_version :: "bytes \<Rightarrow> string res" where
  "extract_version raw =
     (let minimum = length MAGIC + VERSION_BYTES + 1 in
      if length raw < minimum \<or> take (length MAGIC) raw \<noteq> MAGIC then corrupt ''envelope has no valid version prefix''
      else
        let version = py_slice (length MAGIC) (length MAGIC + VERSION_BYTES) raw in
        if py_slice (length MAGIC + VERSION_BYTES) minimum raw \<noteq> ''|'' then corrupt ''envelope version prefix is malformed''
        else catchE (bindE (ascii_decode version) (\<lambda>s. require_fingerprint (PStr s) ''envelope version'')) is_ValueError
          (\<lambda>_. corrupt ''envelope version is malformed''))"

text \<open>\<^verbatim>\<open>int(raw[offset:length_end].decode("ascii"), 16)\<close>\<close>

definition parse_length :: "bytes \<Rightarrow> int res" where
  "parse_length b = (if is_ascii b then (case py_int16 b of
       Some n \<Rightarrow> Inr n | None \<Rightarrow> corrupt ''envelope header length is malformed'')
     else corrupt ''envelope header length is malformed'')"

text \<open>The framing: the version, the bytes of the header and the payload.\<close>

definition parse_frame :: "bytes \<Rightarrow> (string \<times> bytes \<times> bytes) res" where
  "parse_frame raw =
     bindE (extract_version raw) (\<lambda>version.
     let offset = length MAGIC + VERSION_BYTES + 1; length_end = offset + HEADER_LENGTH_BYTES in
     if length raw \<le> length_end \<or> py_slice length_end (length_end + 1) raw \<noteq> ''|''
       then corrupt ''envelope header framing is truncated''
     else bindE (parse_length (py_slice offset length_end raw)) (\<lambda>header_length.
       let header_start = length_end + 1; header_end = int header_start + header_length in
       if header_length < 2 \<or> int (length raw) < header_end then corrupt ''envelope header length is inconsistent''
       else Inr (version, py_slice header_start (nat header_end) raw, drop (nat header_end) raw)))"

definition parse_header :: "lib \<Rightarrow> bytes \<Rightarrow> mapping res" where
  "parse_header L header_bytes =
     bindE (catchE (bindE (utf8_decode header_bytes) (json_loads (recursion_limit L)))
       (\<lambda>e. e = UnicodeDecodeError \<or> e = JSONDecodeError)
       (\<lambda>_. corrupt ''envelope header is not JSON'')) (\<lambda>parsed.
     (case parsed of
       PDict header \<Rightarrow> if list_all (\<lambda>kv. is_str (fst kv)) header then Inr header
         else corrupt ''envelope header must be an object''
     | _ \<Rightarrow> corrupt ''envelope header must be an object''))"

definition header_fields :: "string list" where
  "header_fields = [''formatVersion'', ''serializerId'', ''schemaFingerprint'', ''sourceVersion'', ''createdAtMs'',
     ''expiresAtMs'', ''payloadDigest'', ''payloadLength'', ''envelopeVersion'']"

definition hget :: "mapping \<Rightarrow> string \<Rightarrow> pyval" where
  "hget header k = dict_get header k PNone"

text \<open>\<^verbatim>\<open>except ValueError as exc: raise EnvelopeCorruptionError(str(exc))\<close>\<close>

definition fingerprint_field :: "mapping \<Rightarrow> string \<Rightarrow> string \<Rightarrow> string res" where
  "fingerprint_field header k field =
     catchE (require_fingerprint (hget header k) field) is_ValueError (\<lambda>exc. corrupt (exn_str exc))"

definition nonneg_field :: "mapping \<Rightarrow> string \<Rightarrow> unit res" where
  "nonneg_field header k = guardE (is_nonneg_int (hget header k))
     (EnvelopeCorruptionError (k @ '' must be a non-negative integer''))"

definition guardC :: "bool \<Rightarrow> string \<Rightarrow> unit res" where
  "guardC b msg = guardE b (EnvelopeCorruptionError msg)"

text \<open>The checks of the header's fields against each other, the payload and the version.\<close>

definition check_header :: "lib \<Rightarrow> string \<Rightarrow> bytes \<Rightarrow> bytes \<Rightarrow> mapping \<Rightarrow> unit res" where
  "check_header L version header_bytes payload header =
     bindE (guardC (set (map fst header) = set (map PStr header_fields)) ''envelope header fields do not match V1'') (\<lambda>_.
     bindE (guardC (hget header ''formatVersion'' = PStr ENVELOPE_FORMAT_VERSION)
       ''envelope format version is unsupported'') (\<lambda>_.
     bindE (guardC (hget header ''serializerId'' \<in> set (map PStr SUPPORTED_SERIALIZERS))
       ''envelope serializer is unsupported'') (\<lambda>_.
     bindE (fingerprint_field header ''schemaFingerprint'' ''schema fingerprint'') (\<lambda>_.
     bindE (fingerprint_field header ''payloadDigest'' ''payload digest'') (\<lambda>_.
     bindE (fingerprint_field header ''envelopeVersion'' ''envelope version'') (\<lambda>_.
     bindE (nonneg_field header ''createdAtMs'') (\<lambda>_.
     bindE (nonneg_field header ''expiresAtMs'') (\<lambda>_.
     bindE (nonneg_field header ''payloadLength'') (\<lambda>_.
     bindE (guardC (int_of (hget header ''createdAtMs'') < int_of (hget header ''expiresAtMs''))
       ''envelope expiry must follow creation'') (\<lambda>_.
     bindE (guardC (hget header ''payloadLength'' = PInt (int (length payload)))
       ''envelope payload length does not match'') (\<lambda>_.
     bindE (guardC (hget header ''payloadDigest'' = PStr (sha256_hex payload))
       ''envelope payload digest does not match'') (\<lambda>_.
     bindE (guardC (hget header ''envelopeVersion'' = PStr version)
       ''envelope version prefix does not match its header'') (\<lambda>_.
     bindE (canonical_json_bytes L (PDict (filter (\<lambda>kv. fst kv \<noteq> PStr ''envelopeVersion'') header))) (\<lambda>base_bytes.
     bindE (guardC (sha256_hex (base_bytes @ [CHR 0x00] @ payload) = version)
       ''envelope version digest does not match'') (\<lambda>_.
     bindE (canonical_json_bytes L (PDict header)) (\<lambda>canonical.
     bindE (guardC (canonical = header_bytes) ''envelope header is not canonical'') (\<lambda>_.
     guardC (is_source_version (hget header ''sourceVersion'')) ''sourceVersion is malformed'')))))))))))))))))"

definition parse_envelope :: "lib \<Rightarrow> bytes \<Rightarrow> (string \<times> mapping \<times> bytes) res" where
  "parse_envelope L raw =
     bindE (parse_frame raw) (\<lambda>(version, header_bytes, payload).
     bindE (parse_header L header_bytes) (\<lambda>header.
     bindE (check_header L version header_bytes payload header) (\<lambda>_.
     Inr (version, header, payload))))"

subsection \<open>Decoding\<close>

text \<open>The part before the clock is read.\<close>

definition decode_checks :: "lib \<Rightarrow> envelope_codec \<Rightarrow> bytes \<Rightarrow> pyval \<Rightarrow> (string \<times> mapping \<times> bytes) res" where
  "decode_checks L c raw expected_schema_fingerprint =
     bindE (guardC (raw \<noteq> [] \<and> int (length raw) \<le> maximum_value_bytes c)
       ''envelope exceeds its configured framing bound'') (\<lambda>_.
     bindE (parse_envelope L raw) (\<lambda>(version, header, payload).
     bindE (require_fingerprint expected_schema_fingerprint ''expected schema fingerprint'') (\<lambda>schema.
     bindE (guardE (hget header ''schemaFingerprint'' = PStr schema)
       (EnvelopeSchemaMismatchError ''envelope Schema fingerprint does not match the Resource'')) (\<lambda>_.
     Inr (version, header, payload)))))"

definition decode_payload :: "lib \<Rightarrow> string \<Rightarrow> bytes \<Rightarrow> pyval res" where
  "decode_payload L serializer payload =
     (if serializer = SERIALIZER_CANONICAL_JSON then
        catchE
          (bindE (bindE (utf8_decode payload) (json_loads (recursion_limit L))) (\<lambda>decoded.
           bindE (canonical_json_bytes L decoded) (\<lambda>canonical.
           bindE (guardC (canonical = payload) ''JSON payload is not canonical'') (\<lambda>_.
           Inr decoded))))
          (\<lambda>e. is_TypeError e \<or> is_ValueError e)
          (\<lambda>e. if is_EnvelopeCorruptionError e then Inl e
                else corrupt ''JSON payload cannot be decoded canonically'')
      else Inr (PBytes payload))"

definition decode_fresh :: "lib \<Rightarrow> string \<Rightarrow> mapping \<Rightarrow> bytes \<Rightarrow> int option \<Rightarrow> int \<Rightarrow> decoded_envelope res" where
  "decode_fresh L version header payload maximum_staleness_ms now =
     (let expires = int_of (hget header ''expiresAtMs''); created = int_of (hget header ''createdAtMs'');
          serializer = key_text (hget header ''serializerId'') in
      bindE (guardE (now < expires) (EnvelopeExpiredError ''envelope TTL has expired'')) (\<lambda>_.
      bindE (case maximum_staleness_ms of
          None \<Rightarrow> Inr ()
        | Some m \<Rightarrow>
            bindE (guardE (0 < m) (EnvelopeError ''maximum staleness must be positive'')) (\<lambda>_.
            guardE (now < created + m) (EnvelopeExpiredError ''envelope exceeded maximum staleness''))) (\<lambda>_.
      bindE (decode_payload L serializer payload) (\<lambda>result.
      Inr \<lparr>de_value = result, de_serializer_id = serializer,
           de_schema_fingerprint = key_text (hget header ''schemaFingerprint''),
           de_source_version = hget header ''sourceVersion'', de_created_at_ms = created, de_expires_at_ms = expires,
           de_payload_digest = key_text (hget header ''payloadDigest''), de_envelope_version = version\<rparr>))))"

definition decode_at :: "lib \<Rightarrow> envelope_codec \<Rightarrow> bytes \<Rightarrow> pyval \<Rightarrow> int option \<Rightarrow> int \<Rightarrow> decoded_envelope res" where
  "decode_at L c raw expected maximum_staleness_ms now =
     bindE (decode_checks L c raw expected) (\<lambda>(version, header, payload).
     decode_fresh L version header payload maximum_staleness_ms now)"

subsection \<open>Framing\<close>

text \<open>A frame with any spelling of its length field.\<close>

definition frame_with :: "string \<Rightarrow> string \<Rightarrow> bytes \<Rightarrow> bytes" where
  "frame_with version len rest = MAGIC @ version @ ''|'' @ len @ ''|'' @ rest"

lemma frame_frame_with: "frame version hb payload = frame_with version (hex08 (length hb)) (hb @ payload)"
  by (simp add: frame_def frame_with_def)

lemma length_MAGIC [simp]: "length MAGIC = 6"
  by (simp add: MAGIC_def)

lemma extract_version_frame_with:
  assumes "is_fingerprint version"
  shows "extract_version (frame_with version len rest) = Inr version"
proof -
  have v: "length version = 71" "is_ascii version" using is_fingerprint_facts [OF assms] .
  have s1: "py_slice 6 77 (frame_with version len rest) = version"
    using py_slice_append_exact [of MAGIC 6 77 version] v by (simp add: frame_with_def)
  have s2: "py_slice 77 78 (frame_with version len rest) = ''|''"
    using py_slice_append_exact [of "MAGIC @ version" 77 78 "''|''"] v by (simp add: frame_with_def)
  show ?thesis
    using s1 s2 v assms
    by (simp add: extract_version_def VERSION_BYTES_def frame_with_def ascii_decode_def require_fingerprint_def)
qed

lemma parse_frame_with:
  assumes "is_fingerprint version" "length len = 8" "is_ascii len" "py_int16 len = Some (int n)"
    "2 \<le> n" "n \<le> length rest"
  shows "parse_frame (frame_with version len rest) = Inr (version, take n rest, drop n rest)"
proof -
  have v: "length version = 71" using is_fingerprint_facts(1) [OF assms(1)] .
  let ?r = "frame_with version len rest"
  have s1: "py_slice 78 86 ?r = len"
    using py_slice_append_exact [of "MAGIC @ version @ ''|''" 78 86 len] v assms(2) by (simp add: frame_with_def)
  have s2: "py_slice 86 87 ?r = ''|''"
    using py_slice_append_exact [of "MAGIC @ version @ ''|'' @ len" 86 87 "''|''"] v assms(2) by (simp add: frame_with_def)
  have d: "drop 87 ?r = rest" "length ?r = 87 + length rest"
    using v assms(2) by (simp_all add: frame_with_def)
  have s3: "py_slice 87 (87 + n) ?r = take n rest" by (simp add: py_slice_def d)
  have s4: "drop (87 + n) ?r = drop n rest" using d(1) by (metis add.commute drop_drop)
  show ?thesis
    using s1 s2 s3 s4 d(2) assms extract_version_frame_with [OF assms(1)]
    by (simp add: parse_frame_def HEADER_LENGTH_BYTES_def VERSION_BYTES_def parse_length_def nat_add_distrib)
qed

lemma hex08_framing: "n \<le> 0xFFFFFFFF \<Longrightarrow> length (hex08 n) = 8 \<and> is_ascii (hex08 n) \<and> py_int16 (hex08 n) = Some (int n)"
  using length_hex08 [of n] hex08_hex [of n] py_int16_hex08 [of n] by (simp add: is_ascii_hex)

lemma parse_frame_frame:
  assumes "is_fingerprint version" "2 \<le> length hb" "length hb \<le> 0xFFFFFFFF"
  shows "parse_frame (frame version hb payload) = Inr (version, hb, payload)"
  using parse_frame_with [OF assms(1) _ _ _ assms(2), of _ "hb @ payload"] hex08_framing [OF assms(3)]
  by (simp add: frame_frame_with)

lemma length_frame: "length version = 71 \<Longrightarrow> length (frame version hb p) = 87 + length (hex08 (length hb)) - 8 + length hb + length p"
  by (simp add: frame_def)

subsection \<open>What encoding and decoding establish\<close>

definition full_header :: "string \<Rightarrow> string \<Rightarrow> pyval \<Rightarrow> int \<Rightarrow> int \<Rightarrow> bytes \<Rightarrow> string \<Rightarrow> mapping" where
  "full_header serializer schema source created ttl_ms payload version =
     base_header serializer schema source created ttl_ms payload @ [(PStr ''envelopeVersion'', PStr version)]"

lemma is_pos_int_iff: "is_pos_int v \<longleftrightarrow> (\<exists>i. v = PInt i \<and> 0 < i)"
  by (cases v) auto

lemma is_nonneg_int_iff: "is_nonneg_int v \<longleftrightarrow> (\<exists>i. v = PInt i \<and> 0 \<le> i)"
  by (cases v) auto

lemma encode_checks_eq_Inr [res_simps]:
  "encode_checks ser schema ttl_ms source = Inr s \<longleftrightarrow>
    ser \<in> set SUPPORTED_SERIALIZERS \<and> schema = PStr s \<and> is_fingerprint s \<and> is_pos_int ttl_ms \<and> is_source_version source"
  by (auto simp: encode_checks_def res_simps)

text \<open>The parts of an encoded envelope.\<close>

lemma encode_at_parts:
  assumes "encode_at L c v ser schema ttl_ms source created = Inr raw"
  obtains s t cr payload bb hb version where
    "ser \<in> set SUPPORTED_SERIALIZERS" "schema = PStr s" "is_fingerprint s" "ttl_ms = PInt t" "0 < t"
    "is_source_version source" "created = PInt cr" "0 \<le> cr"
    "encode_payload L v ser = Inr payload"
    "canonical_json_bytes L (PDict (base_header ser s source cr t payload)) = Inr bb"
    "version = sha256_hex (bb @ [CHR 0x00] @ payload)"
    "canonical_json_bytes L (PDict (full_header ser s source cr t payload version)) = Inr hb"
    "length hb \<le> 0xFFFFFFFF" "raw = frame version hb payload" "int (length raw) \<le> maximum_value_bytes c"
  using assms
  by (auto simp: encode_at_def encode_framed_def full_header_def Let_def bindE_eq_Inr guardE_eq_Inr encode_checks_eq_Inr
      is_pos_int_iff is_nonneg_int_iff)

lemma encode_at_intro:
  assumes "ser \<in> set SUPPORTED_SERIALIZERS" "is_fingerprint s" "0 < t" "is_source_version source" "0 \<le> cr"
    "encode_payload L v ser = Inr payload"
    "canonical_json_bytes L (PDict (base_header ser s source cr t payload)) = Inr bb"
    "canonical_json_bytes L (PDict (full_header ser s source cr t payload (sha256_hex (bb @ [CHR 0x00] @ payload)))) = Inr hb"
    "length hb \<le> 0xFFFFFFFF" "int (length (frame (sha256_hex (bb @ [CHR 0x00] @ payload)) hb payload)) \<le> maximum_value_bytes c"
  shows "encode_at L c v ser (PStr s) (PInt t) source (PInt cr) =
    Inr (frame (sha256_hex (bb @ [CHR 0x00] @ payload)) hb payload)"
proof -
  have "int (length payload) \<le> maximum_value_bytes c" using assms(10) by (simp add: frame_def)
  moreover have "encode_checks ser (PStr s) (PInt t) source = Inr s" using assms by (simp add: encode_checks_eq_Inr)
  ultimately show ?thesis using assms
    by (simp add: encode_at_def encode_framed_def full_header_def Let_def)
qed

lemma scan_number_no_dict: "scan_number s = Inr (v, r) \<Longrightarrow> v \<noteq> PDict kvs"
  by (auto simp: scan_number_def scan_frac_exp_def Let_def split: if_splits option.splits)

lemma scan_items_no_dict: "scan_items f n s acc \<noteq> Inr (PDict kvs, r)"
  by (induction f n s acc rule: scan_items.induct) (auto simp: res_simps Let_def split: if_splits)

lemma scan_body_dict_length:
  assumes "scan_body inner s = Inr (PDict kvs, r)"
  shows "2 \<le> length s"
proof -
  have "starts CHR ''{'' s"
    using assms scan_number_no_dict [of s "PDict kvs" r kvs]
    by (auto simp: scan_body_def res_simps Let_def scan_items_no_dict split: if_splits option.splits)
  then obtain s' where s: "s = CHR ''{'' # s'" by (cases s) auto
  have "s' \<noteq> []"
  proof
    assume "s' = []"
    with assms s show False by (auto simp: scan_body_def Let_def split: option.splits)
  qed
  then show ?thesis using s by (cases s') auto
qed

lemma json_loads_dict_length: "json_loads limit b = Inr (PDict kvs) \<Longrightarrow> 2 \<le> length b"
proof -
  assume "json_loads limit b = Inr (PDict kvs)"
  then obtain r where "scan_once limit (skip_ws b) = Inr (PDict kvs, r)"
    by (auto simp: json_loads_def res_simps split: if_splits)
  then have "2 \<le> length (skip_ws b)"
    by (cases limit) (auto dest: scan_body_dict_length)
  then show "2 \<le> length b" using length_skip_ws [of b] by simp
qed

lemma source_scalar: "is_source_version v \<Longrightarrow> is_scalar v \<and> float_free v"
  by (cases v) auto

lemma full_header_flat:
  assumes "is_source_version source"
  shows "list_all (\<lambda>kv. is_scalar (snd kv)) (full_header ser s source cr t payload version)"
    "float_free (PDict (full_header ser s source cr t payload version))"
    "list_all (\<lambda>kv. is_str (fst kv)) (full_header ser s source cr t payload version)"
    "distinct (map fst (full_header ser s source cr t payload version))"
  using source_scalar [OF assms] by (simp_all add: full_header_def base_header_def)

lemma hget_full_header:
  "hget (full_header ser s source cr t payload version) ''formatVersion'' = PStr ENVELOPE_FORMAT_VERSION"
  "hget (full_header ser s source cr t payload version) ''serializerId'' = PStr ser"
  "hget (full_header ser s source cr t payload version) ''schemaFingerprint'' = PStr s"
  "hget (full_header ser s source cr t payload version) ''sourceVersion'' = source"
  "hget (full_header ser s source cr t payload version) ''createdAtMs'' = PInt cr"
  "hget (full_header ser s source cr t payload version) ''expiresAtMs'' = PInt (cr + t)"
  "hget (full_header ser s source cr t payload version) ''payloadDigest'' = PStr (sha256_hex payload)"
  "hget (full_header ser s source cr t payload version) ''payloadLength'' = PInt (int (length payload))"
  "hget (full_header ser s source cr t payload version) ''envelopeVersion'' = PStr version"
  by (simp_all add: full_header_def base_header_def hget_def dict_get_def)

lemma filter_full_header:
  "filter (\<lambda>kv. fst kv \<noteq> PStr ''envelopeVersion'') (full_header ser s source cr t payload version) =
    base_header ser s source cr t payload"
  by (simp add: full_header_def base_header_def)

lemma set_full_header:
  "fst ` set (full_header ser s source cr t payload version) = PStr ` set header_fields"
  by (simp add: full_header_def base_header_def header_fields_def)

text \<open>The header is read back with its members, perhaps in another order.\<close>

lemma header_reads_back:
  assumes "lawful_json L" "is_source_version source"
    "canonical_json_bytes L (PDict (full_header ser s source cr t payload version)) = Inr hb"
  obtains header where "parse_header L hb = Inr header" "2 \<le> length hb"
    "mset header = mset (full_header ser s source cr t payload version)"
    "canonical_json_bytes L (PDict header) = Inr hb"
proof -
  let ?h = "full_header ser s source cr t payload version"
  note flat = full_header_flat [OF assms(2), of ser s cr t payload version]
  from canonical_json.reads_back [OF assms(1) [unfolded lawful_json_def] assms(3)] flat(2) obtain w where
    w: "utf8_ok hb" "json_loads (recursion_limit L) hb = Inr w" "canonical_json_bytes L w = Inr hb" "norm_json w = norm_json (PDict ?h)"
    by blast
  from norm_flat_dict [OF w(4) flat(1)] obtain header where h: "w = PDict header" "mset header = mset ?h" by blast
  have "list_all (\<lambda>kv. is_str (fst kv)) header"
    using flat(3) mset_eq_setD [OF h(2)] by (simp add: list_all_iff)
  then have "parse_header L hb = Inr header"
    using w(1,2) h(1) by (simp add: parse_header_def utf8_decode_def)
  moreover have "2 \<le> length hb" using json_loads_dict_length w(2) h(1) by blast
  ultimately show ?thesis using that h w(3) by blast
qed

lemma check_header_ok:
  assumes "lawful_json L" "is_source_version source" "ser \<in> set SUPPORTED_SERIALIZERS" "is_fingerprint s" "0 < t" "0 \<le> cr"
    "mset header = mset (full_header ser s source cr t payload version)"
    "canonical_json_bytes L (PDict (base_header ser s source cr t payload)) = Inr bb"
    "version = sha256_hex (bb @ [CHR 0x00] @ payload)"
    "canonical_json_bytes L (PDict header) = Inr hb"
  shows "check_header L version hb payload header = Inr ()"
    "hget header = hget (full_header ser s source cr t payload version)"
proof -
  let ?h = "full_header ser s source cr t payload version"
  let ?f = "filter (\<lambda>kv. fst kv \<noteq> PStr ''envelopeVersion'')"
  note flat = full_header_flat [OF assms(2), of ser s cr t payload version]
  show hg: "hget header = hget ?h"
    using map_of_perm [OF assms(7) flat(4)] by (simp add: hget_def dict_get_def fun_eq_iff)
  have "mset (?f header) = mset (?f ?h)" using assms(7) by simp
  then have "norm_json (PDict (?f header)) = norm_json (PDict (?f ?h))"
    by (rule norm_dict_perm) (use flat(3,4) in \<open>auto simp: list_all_iff distinct_map_filter\<close>)
  then have "canonical_json_bytes L (PDict (?f header)) = Inr bb"
    using canonical_json.order_free [OF assms(1) [unfolded lawful_json_def]] assms(8) by (metis filter_full_header)
  moreover have "fst ` set header = PStr ` set header_fields"
    using mset_eq_setD [OF assms(7)] set_full_header by simp
  ultimately show "check_header L version hb payload header = Inr ()"
    using assms by (simp add: check_header_def hg hget_full_header guardC_def fingerprint_field_def nonneg_field_def
        require_fingerprint_def)
qed

lemma encode_payload_eq_Inr:
  "encode_payload L v ser = Inr payload \<Longrightarrow>
    (if ser = SERIALIZER_CANONICAL_JSON then bytes_of v = None \<and> canonical_json_bytes L v = Inr payload
     else bytes_of v = Some payload)"
  by (auto simp: encode_payload_def res_simps split: if_splits option.splits)

text \<open>The value a payload decodes to: the same bytes, or a value with the same canonical form.\<close>

definition same_value :: "lib \<Rightarrow> string \<Rightarrow> pyval \<Rightarrow> pyval \<Rightarrow> bool" where
  "same_value L ser v w =
     (if ser = SERIALIZER_CANONICAL_JSON
      then canonical_json_bytes L w = canonical_json_bytes L v \<and> (float_free v \<longrightarrow> norm_json w = norm_json v)
      else (\<exists>b. bytes_of v = Some b \<and> w = PBytes b))"

lemma payload_reads_back:
  assumes "lawful_json L" "encode_payload L v ser = Inr payload"
  shows "\<exists>w. decode_payload L ser payload = Inr w \<and> same_value L ser v w"
proof (cases "ser = SERIALIZER_CANONICAL_JSON")
  case True
  with encode_payload_eq_Inr [OF assms(2)] have c: "canonical_json_bytes L v = Inr payload" by simp
  from canonical_json.reads_back [OF assms(1) [unfolded lawful_json_def] c] obtain w where
    "utf8_ok payload" "json_loads (recursion_limit L) payload = Inr w" "canonical_json_bytes L w = Inr payload"
    "float_free v \<longrightarrow> norm_json w = norm_json v" by blast
  with True c show ?thesis by (auto simp: decode_payload_def utf8_decode_def guardC_def same_value_def)
next
  case False
  with encode_payload_eq_Inr [OF assms(2)] show ?thesis by (simp add: decode_payload_def same_value_def)
qed

text \<open>An encoded envelope parses to its header and payload.\<close>

lemma encoded_parses:
  assumes "lawful_json L" "encode_at L c v ser schema ttl_ms source created = Inr raw"
  obtains s t cr payload version header where
    "schema = PStr s" "is_fingerprint s" "ttl_ms = PInt t" "0 < t" "created = PInt cr" "0 \<le> cr"
    "encode_payload L v ser = Inr payload" "is_fingerprint version" "extract_version raw = Inr version"
    "raw \<noteq> []" "int (length raw) \<le> maximum_value_bytes c"
    "parse_envelope L raw = Inr (version, header, payload)"
    "hget header = hget (full_header ser s source cr t payload version)"
proof -
  from assms(2) obtain s t cr payload bb hb version where
    p: "ser \<in> set SUPPORTED_SERIALIZERS" "schema = PStr s" "is_fingerprint s" "ttl_ms = PInt t" "0 < t"
    "is_source_version source" "created = PInt cr" "0 \<le> cr" "encode_payload L v ser = Inr payload"
    "canonical_json_bytes L (PDict (base_header ser s source cr t payload)) = Inr bb"
    "version = sha256_hex (bb @ [CHR 0x00] @ payload)"
    "canonical_json_bytes L (PDict (full_header ser s source cr t payload version)) = Inr hb"
    "length hb \<le> 0xFFFFFFFF" "raw = frame version hb payload" "int (length raw) \<le> maximum_value_bytes c"
    by (rule encode_at_parts)
  obtain header where h: "parse_header L hb = Inr header" "2 \<le> length hb"
    "mset header = mset (full_header ser s source cr t payload version)" "canonical_json_bytes L (PDict header) = Inr hb"
    using header_reads_back [OF assms(1) p(6) p(12)] .
  have v: "is_fingerprint version" by (simp add: p(11))
  note ck = check_header_ok [OF assms(1) p(6) p(1) p(3) p(5) p(8) h(3) p(10) p(11) h(4)]
  have "parse_envelope L raw = Inr (version, header, payload)"
    using parse_frame_frame [OF v h(2) p(13)] h(1) ck(1) by (simp add: parse_envelope_def p(14))
  moreover have "extract_version raw = Inr version"
    using extract_version_frame_with [OF v] by (simp add: p(14) frame_frame_with)
  moreover have "raw \<noteq> []" by (simp add: p(14) frame_def MAGIC_def)
  ultimately show ?thesis using that p v ck(2) by blast
qed

lemma decode_at_encoded:
  assumes "lawful_json L" "encode_at L c v ser (PStr s) (PInt t) source (PInt cr) = Inr raw"
    "is_fingerprint s'" "case stale of None \<Rightarrow> True | Some m \<Rightarrow> 0 < m"
  shows "if s' \<noteq> s then decode_at L c raw (PStr s') stale now =
      Inl (EnvelopeSchemaMismatchError ''envelope Schema fingerprint does not match the Resource'')
    else if cr + t \<le> now then decode_at L c raw (PStr s') stale now = Inl (EnvelopeExpiredError ''envelope TTL has expired'')
    else if \<not> (case stale of None \<Rightarrow> True | Some m \<Rightarrow> now < cr + m)
      then decode_at L c raw (PStr s') stale now = Inl (EnvelopeExpiredError ''envelope exceeded maximum staleness'')
    else \<exists>w version payload. same_value L ser v w \<and> extract_version raw = Inr version \<and> encode_payload L v ser = Inr payload \<and>
      decode_at L c raw (PStr s') stale now =
      Inr \<lparr>de_value = w, de_serializer_id = ser, de_schema_fingerprint = s, de_source_version = source,
        de_created_at_ms = cr, de_expires_at_ms = cr + t, de_payload_digest = sha256_hex payload, de_envelope_version = version\<rparr>"
proof -
  from assms(2) obtain payload version header where
    p: "encode_payload L v ser = Inr payload" "extract_version raw = Inr version"
    "raw \<noteq> []" "int (length raw) \<le> maximum_value_bytes c" "parse_envelope L raw = Inr (version, header, payload)"
    "hget header = hget (full_header ser s source cr t payload version)"
    by (elim encoded_parses [OF assms(1)]) auto
  obtain w where w: "decode_payload L ser payload = Inr w" "same_value L ser v w"
    using payload_reads_back [OF assms(1) p(1)] by blast
  have "decode_checks L c raw (PStr s') = (if s' = s then Inr (version, header, payload)
      else Inl (EnvelopeSchemaMismatchError ''envelope Schema fingerprint does not match the Resource''))"
    using p assms(3) by (simp add: decode_checks_def guardC_def require_fingerprint_def hget_full_header)
  with p w assms(4) show ?thesis
    by (auto simp: decode_at_def decode_fresh_def Let_def hget_full_header guardE_def not_less split: option.splits)
qed

text \<open>
  C1: decoding inverts encoding. An envelope encoded at time \<open>cr\<close> with TTL \<open>t\<close> decodes, for the same
  schema and until it expires or gets too stale, to the value that was stored (the same bytes, or a
  JSON value with the same canonical form, equal up to member order when it has no float), with
  its metadata; for another schema, and from its expiry or its staleness bound on, decoding fails
  with the exception of that case. The version of the result is the one in the frame's prefix.
\<close>

theorem decode_encode:
  assumes "lawful_json L" "encode_at L c v ser (PStr s) (PInt t) source (PInt cr) = Inr raw"
    "is_fingerprint s'" "case stale of None \<Rightarrow> True | Some m \<Rightarrow> 0 < m"
  shows "if s' \<noteq> s then decode_at L c raw (PStr s') stale now =
      Inl (EnvelopeSchemaMismatchError ''envelope Schema fingerprint does not match the Resource'')
    else if cr + t \<le> now then decode_at L c raw (PStr s') stale now = Inl (EnvelopeExpiredError ''envelope TTL has expired'')
    else if \<not> (case stale of None \<Rightarrow> True | Some m \<Rightarrow> now < cr + m)
      then decode_at L c raw (PStr s') stale now = Inl (EnvelopeExpiredError ''envelope exceeded maximum staleness'')
    else \<exists>w version payload. same_value L ser v w \<and> extract_version raw = Inr version \<and> encode_payload L v ser = Inr payload \<and>
      decode_at L c raw (PStr s') stale now =
      Inr \<lparr>de_value = w, de_serializer_id = ser, de_schema_fingerprint = s, de_source_version = source,
        de_created_at_ms = cr, de_expires_at_ms = cr + t, de_payload_digest = sha256_hex payload, de_envelope_version = version\<rparr>"
  using assms by (rule decode_at_encoded)

subsection \<open>What a decoded envelope guarantees\<close>

text \<open>What the version of an envelope signs: the canonical header without the version, NUL, the payload.\<close>

definition signed_bytes :: "lib \<Rightarrow> bytes \<Rightarrow> bytes" where
  "signed_bytes L raw = (case parse_envelope L raw of
     Inr (version, header, payload) \<Rightarrow>
       (case canonical_json_bytes L (PDict (filter (\<lambda>kv. fst kv \<noteq> PStr ''envelopeVersion'') header)) of
         Inr base_bytes \<Rightarrow> base_bytes @ [CHR 0x00] @ payload
       | Inl _ \<Rightarrow> [])
   | Inl _ \<Rightarrow> [])"

lemma fingerprint_field_eq_Inr [res_simps]:
  "fingerprint_field h k f = Inr s \<longleftrightarrow> hget h k = PStr s \<and> is_fingerprint s"
  by (auto simp: fingerprint_field_def res_simps corrupt_def)

lemma guardC_eq_Inr [res_simps]: "guardC b m = Inr u \<longleftrightarrow> b"
  by (simp add: guardC_def guardE_eq_Inr)

lemma nonneg_field_eq_Inr [res_simps]: "nonneg_field h k = Inr u \<longleftrightarrow> (\<exists>i. hget h k = PInt i \<and> 0 \<le> i)"
  by (simp add: nonneg_field_def guardE_eq_Inr is_nonneg_int_iff)

lemma check_header_facts:
  assumes "check_header L version hb payload header = Inr u"
  obtains ser schema created expires bb where
    "fst ` set header = PStr ` set header_fields" "hget header ''formatVersion'' = PStr ENVELOPE_FORMAT_VERSION"
    "hget header ''serializerId'' = PStr ser" "ser \<in> set SUPPORTED_SERIALIZERS"
    "hget header ''schemaFingerprint'' = PStr schema" "is_fingerprint schema"
    "hget header ''createdAtMs'' = PInt created" "0 \<le> created"
    "hget header ''expiresAtMs'' = PInt expires" "created < expires"
    "hget header ''payloadLength'' = PInt (int (length payload))"
    "hget header ''payloadDigest'' = PStr (sha256_hex payload)" "hget header ''envelopeVersion'' = PStr version"
    "canonical_json_bytes L (PDict (filter (\<lambda>kv. fst kv \<noteq> PStr ''envelopeVersion'') header)) = Inr bb"
    "version = sha256_hex (bb @ [CHR 0x00] @ payload)" "canonical_json_bytes L (PDict header) = Inr hb"
    "is_source_version (hget header ''sourceVersion'')"
  using assms by (auto simp: check_header_def res_simps)

lemma parse_envelope_eq_Inr [res_simps]:
  "parse_envelope L raw = Inr (version, header, payload) \<longleftrightarrow>
    (\<exists>hb. parse_frame raw = Inr (version, hb, payload) \<and> parse_header L hb = Inr header \<and>
      check_header L version hb payload header = Inr ())"
  by (auto simp: parse_envelope_def bindE_eq_Inr)

lemma parse_frame_facts:
  assumes "parse_frame raw = Inr (version, hb, payload)"
  shows "extract_version raw = Inr version" "\<exists>n. payload = drop n raw"
  using assms by (auto simp: parse_frame_def Let_def bindE_eq_Inr corrupt_def split: if_splits)

lemma extract_version_facts:
  assumes "extract_version raw = Inr version"
  shows "is_fingerprint version" "version = py_slice 6 77 raw" "take 6 raw = MAGIC"
  using assms
  by (auto simp: extract_version_def Let_def VERSION_BYTES_def corrupt_def res_simps split: if_splits)

lemma decode_at_facts:
  assumes "decode_at L c raw expected stale now = Inr env"
  shows "int (length raw) \<le> maximum_value_bytes c \<and> expected = PStr (de_schema_fingerprint env) \<and>
    is_fingerprint (de_schema_fingerprint env) \<and> de_serializer_id env \<in> set SUPPORTED_SERIALIZERS \<and>
    is_source_version (de_source_version env) \<and> 0 \<le> de_created_at_ms env \<and> de_created_at_ms env < de_expires_at_ms env \<and>
    now < de_expires_at_ms env \<and> (case stale of None \<Rightarrow> True | Some m \<Rightarrow> 0 < m \<and> now < de_created_at_ms env + m) \<and>
    take 6 raw = MAGIC \<and> de_envelope_version env = py_slice 6 77 raw \<and> is_fingerprint (de_envelope_version env) \<and>
    de_envelope_version env = sha256_hex (signed_bytes L raw) \<and>
    (\<exists>n. de_payload_digest env = sha256_hex (drop n raw) \<and>
      (if de_serializer_id env = SERIALIZER_CANONICAL_JSON then canonical_json_bytes L (de_value env) = Inr (drop n raw)
       else de_value env = PBytes (drop n raw)))"
proof -
  from assms obtain version header payload where
    d: "decode_checks L c raw expected = Inr (version, header, payload)"
    "decode_fresh L version header payload stale now = Inr env"
    by (auto simp: decode_at_def bindE_eq_Inr)
  from d(1) obtain schema where
    s: "int (length raw) \<le> maximum_value_bytes c" "parse_envelope L raw = Inr (version, header, payload)"
    "expected = PStr schema" "is_fingerprint schema" "hget header ''schemaFingerprint'' = PStr schema"
    by (auto simp: decode_checks_def bindE_eq_Inr guardC_eq_Inr guardE_eq_Inr require_fingerprint_eq_Inr)
  from s(2) obtain hb where h: "parse_frame raw = Inr (version, hb, payload)" "check_header L version hb payload header = Inr ()"
    by (auto simp: parse_envelope_eq_Inr)
  from h(2) obtain ser created expires bb where
    f: "hget header ''serializerId'' = PStr ser" "ser \<in> set SUPPORTED_SERIALIZERS"
    "hget header ''createdAtMs'' = PInt created" "0 \<le> created"
    "hget header ''expiresAtMs'' = PInt expires" "created < expires"
    "hget header ''payloadDigest'' = PStr (sha256_hex payload)"
    "canonical_json_bytes L (PDict (filter (\<lambda>kv. fst kv \<noteq> PStr ''envelopeVersion'') header)) = Inr bb"
    "version = sha256_hex (bb @ [CHR 0x00] @ payload)"
    "is_source_version (hget header ''sourceVersion'')"
    by (rule check_header_facts)
  from d(2) f obtain w where
    w: "now < expires" "case stale of None \<Rightarrow> True | Some m \<Rightarrow> 0 < m \<and> now < created + m" "decode_payload L ser payload = Inr w"
    and env: "env = \<lparr>de_value = w, de_serializer_id = ser, de_schema_fingerprint = schema,
      de_source_version = hget header ''sourceVersion'', de_created_at_ms = created, de_expires_at_ms = expires,
      de_payload_digest = sha256_hex payload, de_envelope_version = version\<rparr>"
    using s(5) by (auto simp: decode_fresh_def Let_def bindE_eq_Inr guardE_eq_Inr split: option.splits)
  obtain n where n: "payload = drop n raw" using parse_frame_facts(2) [OF h(1)] by blast
  have "if ser = SERIALIZER_CANONICAL_JSON then canonical_json_bytes L w = Inr payload else w = PBytes payload"
    using w(3) by (auto simp: decode_payload_def res_simps guardC_def corrupt_def split: if_splits)
  moreover have "signed_bytes L raw = bb @ [CHR 0x00] @ payload" using s(2) f(8) by (simp add: signed_bytes_def)
  ultimately show ?thesis
    using s f w env n parse_frame_facts(1) [OF h(1), THEN extract_version_facts(1)]
      parse_frame_facts(1) [OF h(1), THEN extract_version_facts(2)] parse_frame_facts(1) [OF h(1), THEN extract_version_facts(3)]
    by (auto split: option.splits)
qed

text \<open>
  C2: whatever bytes the engine returns, an envelope that decodes is one that was not altered and is
  still valid: it fits the configured bound, its schema is the expected one, its creation precedes
  its expiry, it is neither expired nor too stale, its serializer is supported, its version is the
  71 bytes of the frame's prefix, the fingerprint of the payload and the version digest match, and
  its value is the payload, or a JSON value whose canonical form is the payload.
\<close>

theorem decode_sound:
  assumes "decode_at L c raw expected stale now = Inr env"
  shows "int (length raw) \<le> maximum_value_bytes c \<and> expected = PStr (de_schema_fingerprint env) \<and>
    is_fingerprint (de_schema_fingerprint env) \<and> de_serializer_id env \<in> set SUPPORTED_SERIALIZERS \<and>
    is_source_version (de_source_version env) \<and> 0 \<le> de_created_at_ms env \<and> de_created_at_ms env < de_expires_at_ms env \<and>
    now < de_expires_at_ms env \<and> (case stale of None \<Rightarrow> True | Some m \<Rightarrow> 0 < m \<and> now < de_created_at_ms env + m) \<and>
    take 6 raw = MAGIC \<and> de_envelope_version env = py_slice 6 77 raw \<and> is_fingerprint (de_envelope_version env) \<and>
    de_envelope_version env = sha256_hex (signed_bytes L raw) \<and>
    (\<exists>n. de_payload_digest env = sha256_hex (drop n raw) \<and>
      (if de_serializer_id env = SERIALIZER_CANONICAL_JSON then canonical_json_bytes L (de_value env) = Inr (drop n raw)
       else de_value env = PBytes (drop n raw)))"
  using assms by (rule decode_at_facts)

lemma scan_members_distinct:
  "scan_members f n s acc = Inr (PDict d, r) \<Longrightarrow> distinct (map fst acc) \<Longrightarrow> distinct (map fst d)"
proof (induction f n s acc rule: scan_members.induct)
  case (2 f n s acc)
  have "distinct (map fst (dict_set acc k v))" for k v
    using "2.prems"(2) by (simp add: dict_set_def distinct_update)
  with 2 show ?case by (auto simp: res_simps Let_def split: if_splits)
qed simp

lemma scan_body_distinct:
  assumes "scan_body inner s = Inr (PDict d, r)"
  shows "distinct (map fst d)"
  using assms scan_number_no_dict [of s "PDict d" r d]
  by (auto simp: scan_body_def res_simps Let_def scan_items_no_dict simp del: scan_members.simps
      split: if_splits option.splits dest: scan_members_distinct)

lemma parse_header_distinct: "parse_header L hb = Inr header \<Longrightarrow> distinct (map fst header)"
proof -
  assume "parse_header L hb = Inr header"
  then have "json_loads (recursion_limit L) hb = Inr (PDict header)"
    unfolding parse_header_def
    by (elim bindE_InrE, rename_tac v, case_tac v) (auto simp: res_simps corrupt_def split: if_splits)
  then show ?thesis
    by (cases "recursion_limit L") (auto simp: json_loads_def res_simps split: if_splits dest: scan_body_distinct)
qed

lemma map_of_filter_other: "k \<noteq> k0 \<Longrightarrow> map_of (filter (\<lambda>kv. fst kv \<noteq> k0) h) k = map_of h k"
  by (induction h) auto

lemma checked_header_flat:
  assumes "check_header L version hb payload header = Inr ()" "distinct (map fst header)" "(k, v) \<in> set header"
  shows "is_str k \<and> is_scalar v \<and> float_free v"
proof -
  from assms(1) obtain ser schema created expires where
    f: "fst ` set header = PStr ` set header_fields" "hget header ''formatVersion'' = PStr ENVELOPE_FORMAT_VERSION"
    "hget header ''serializerId'' = PStr ser" "hget header ''schemaFingerprint'' = PStr schema"
    "hget header ''createdAtMs'' = PInt created" "hget header ''expiresAtMs'' = PInt expires"
    "hget header ''payloadLength'' = PInt (int (length payload))" "hget header ''payloadDigest'' = PStr (sha256_hex payload)"
    "hget header ''envelopeVersion'' = PStr version" "is_source_version (hget header ''sourceVersion'')"
    by (rule check_header_facts)
  have "k \<in> fst ` set header" using imageI [OF assms(3), of fst] by simp
  then obtain n where n: "k = PStr n" "n \<in> set header_fields" unfolding f(1) by blast
  have "map_of header k = Some v" using assms(2,3) by simp
  then have v: "hget header n = v" using n by (simp add: hget_def dict_get_def)
  have "list_all (\<lambda>n. is_scalar (hget header n) \<and> float_free (hget header n)) header_fields"
    unfolding header_fields_def list.pred_inject f(2-9) using source_scalar [OF f(10)] by simp
  with n(2) have "is_scalar (hget header n) \<and> float_free (hget header n)" by (simp add: list_all_iff)
  with n v show ?thesis by simp
qed

lemma decoded_parts:
  assumes "lawful_json L" "decode_at L c raw e stale now = Inr env"
  obtains header payload bb where
    "decode_fresh L (de_envelope_version env) header payload stale now = Inr env"
    "canonical_json_bytes L (PDict (filter (\<lambda>kv. fst kv \<noteq> PStr ''envelopeVersion'') header)) = Inr bb"
    "signed_bytes L raw = bb @ CHR 0x00 # payload" "CHR 0x00 \<notin> set bb"
    "de_envelope_version env = sha256_hex (signed_bytes L raw)"
    "float_free (PDict (filter (\<lambda>kv. fst kv \<noteq> PStr ''envelopeVersion'') header))"
    "list_all (\<lambda>kv. is_scalar (snd kv)) (filter (\<lambda>kv. fst kv \<noteq> PStr ''envelopeVersion'') header)"
    "distinct (map fst (filter (\<lambda>kv. fst kv \<noteq> PStr ''envelopeVersion'') header))"
proof -
  let ?f = "filter (\<lambda>kv. fst kv \<noteq> PStr ''envelopeVersion'')"
  from assms(2) obtain version header payload where
    d: "decode_checks L c raw e = Inr (version, header, payload)" "decode_fresh L version header payload stale now = Inr env"
    by (auto simp: decode_at_def bindE_eq_Inr)
  from d(1) have pe: "parse_envelope L raw = Inr (version, header, payload)"
    by (auto simp: decode_checks_def bindE_eq_Inr)
  then obtain hb where h: "parse_header L hb = Inr header" "check_header L version hb payload header = Inr ()"
    by (auto simp: parse_envelope_eq_Inr)
  from h(2) obtain bb where b: "canonical_json_bytes L (PDict (?f header)) = Inr bb" "version = sha256_hex (bb @ [CHR 0x00] @ payload)"
    by (rule check_header_facts)
  have nul: "CHR 0x00 \<notin> set bb"
    using canonical_json.reads_back [OF assms(1) [unfolded lawful_json_def] b(1)] json_loads_no_NUL by blast
  have v: "de_envelope_version env = version" using d(2) by (auto simp: decode_fresh_def Let_def bindE_eq_Inr)
  have s: "signed_bytes L raw = bb @ CHR 0x00 # payload" using pe b(1) by (simp add: signed_bytes_def)
  have flat: "float_free (PDict (?f header))" "list_all (\<lambda>kv. is_scalar (snd kv)) (?f header)"
    using checked_header_flat [OF h(2) parse_header_distinct [OF h(1)]] by (auto simp: list_all_iff)
  have "distinct (map fst (?f header))" using parse_header_distinct [OF h(1)] by (rule distinct_map_filter)
  from that [OF _ b(1) s nul _ flat this] show ?thesis using d(2) b(2) v s by simp
qed

lemma split_at_NUL: "a @ x # b = a' @ x # b' \<Longrightarrow> x \<notin> set a \<Longrightarrow> x \<notin> set a' \<Longrightarrow> a = a' \<and> b = b'"
  by (induction a arbitrary: a') (auto simp: Cons_eq_append_conv append_eq_Cons_conv)

lemma same_version_same_envelope:
  assumes "lawful_json L" "decode_at L c raw e stale now = Inr env" "decode_at L c' raw' e' stale' now' = Inr env'"
    "de_envelope_version env = de_envelope_version env'"
  shows "env = env' \<or> sha256_collision (signed_bytes L raw) (signed_bytes L raw')"
proof -
  let ?f = "filter (\<lambda>kv. fst kv \<noteq> PStr ''envelopeVersion'')"
  obtain header payload bb where
    a: "decode_fresh L (de_envelope_version env) header payload stale now = Inr env"
    "canonical_json_bytes L (PDict (?f header)) = Inr bb" "signed_bytes L raw = bb @ CHR 0x00 # payload" "CHR 0x00 \<notin> set bb"
    "de_envelope_version env = sha256_hex (signed_bytes L raw)" "float_free (PDict (?f header))"
    "list_all (\<lambda>kv. is_scalar (snd kv)) (?f header)" "distinct (map fst (?f header))"
    by (rule decoded_parts [OF assms(1,2)])
  obtain header' payload' bb' where
    a': "decode_fresh L (de_envelope_version env') header' payload' stale' now' = Inr env'"
    "canonical_json_bytes L (PDict (?f header')) = Inr bb'" "signed_bytes L raw' = bb' @ CHR 0x00 # payload'" "CHR 0x00 \<notin> set bb'"
    "de_envelope_version env' = sha256_hex (signed_bytes L raw')" "float_free (PDict (?f header'))"
    "list_all (\<lambda>kv. is_scalar (snd kv)) (?f header')" "distinct (map fst (?f header'))"
    by (rule decoded_parts [OF assms(1,3)])
  have "env = env'" if same: "signed_bytes L raw = signed_bytes L raw'"
  proof -
    have b: "bb = bb'" "payload = payload'" using split_at_NUL [of bb _ payload bb' payload'] same a(3,4) a'(3,4) by auto
    have "norm_json (PDict (?f header)) = norm_json (PDict (?f header'))"
      using canonical_json.same_bytes_same_value [OF assms(1) [unfolded lawful_json_def] a(2)] a'(2) a(6) a'(6) b(1) by simp
    from norm_flat_dict [OF this a'(7)] have "mset (?f header) = mset (?f header')" by simp
    from map_of_perm [OF this a'(8)] have "map_of header k = map_of header' k" if "k \<noteq> PStr ''envelopeVersion''" for k
      using map_of_filter_other [OF that] by metis
    then have "hget header k = hget header' k" if "k \<noteq> ''envelopeVersion''" for k
      using that by (simp add: hget_def dict_get_def)
    with a(1) a'(1) b(2) assms(4) show ?thesis by (auto simp: decode_fresh_def Let_def bindE_eq_Inr)
  qed
  moreover have "signed_bytes L raw = signed_bytes L raw' \<or> sha256_collision (signed_bytes L raw) (signed_bytes L raw')"
    using a(5) a'(5) assms(4) by (intro sha256_hex_same) simp
  ultimately show ?thesis by blast
qed

text \<open>
  C21: the version of an envelope identifies its content: if two stored byte strings decode with one
  version, they decode to one envelope (the same value, serializer, schema, source version and
  times), unless SHA-256 collides on what the versions sign.
\<close>

theorem version_binds:
  assumes "lawful_json L" "decode_at L c raw e stale now = Inr env" "decode_at L c' raw' e' stale' now' = Inr env'"
    "de_envelope_version env = de_envelope_version env'"
  shows "env = env' \<or> sha256_collision (signed_bytes L raw) (signed_bytes L raw')"
  using same_version_same_envelope [OF assms] .

subsection \<open>The failures of decoding\<close>

definition writer_error :: "lib \<Rightarrow> exn \<Rightarrow> bool" where
  "writer_error L e = (\<exists>v. canonical_json_bytes L v = Inl e)"

text \<open>The exceptions \<^verbatim>\<open>lookup\<close> treats as a miss.\<close>

definition is_miss_error :: "exn \<Rightarrow> bool" where
  "is_miss_error e = (is_EnvelopeCorruptionError e \<or> is_EnvelopeExpiredError e \<or> is_EnvelopeSchemaMismatchError e)"

definition decode_error :: "lib \<Rightarrow> exn \<Rightarrow> bool" where
  "decode_error L e = (is_miss_error e \<or> e = RecursionError \<or> e = digits_error \<or> writer_error L e)"

lemma decode_error_simps [simp]:
  "decode_error L (EnvelopeCorruptionError m)" "decode_error L (EnvelopeExpiredError m)"
  "decode_error L (EnvelopeSchemaMismatchError m)"
  by (simp_all add: decode_error_def is_miss_error_def)

lemma corrupt_only [only_intros]: "onlyE (decode_error L) (corrupt m)"
  by (simp add: corrupt_def only_intros)

lemma guardC_only [only_intros]: "onlyE (decode_error L) (guardC b m)"
  by (simp add: guardC_def only_intros)

lemma writer_only [only_intros]: "onlyE (decode_error L) (canonical_json_bytes L v)"
  by (rule onlyE_I) (auto simp: decode_error_def writer_error_def)

lemma extract_version_only [only_intros]: "onlyE (decode_error L) (extract_version raw)"
proof -
  have "onlyE is_ValueError (bindE (ascii_decode b) (\<lambda>s. require_fingerprint (PStr s) f))" for b f
    by (intro only_intros onlyE_I) (auto simp: res_simps)
  note ver = onlyE_catchE [OF this, where p = is_ValueError]
  show ?thesis unfolding extract_version_def Let_def
    by (intro onlyE_if corrupt_only ver) auto
qed

lemma parse_frame_only [only_intros]: "onlyE (decode_error L) (parse_frame raw)"
  unfolding parse_frame_def Let_def parse_length_def
  by (auto intro!: only_intros split: option.split)

lemma json_only: "onlyE (\<lambda>e. json_error e \<or> e = UnicodeDecodeError) (bindE (utf8_decode b) (json_loads n))"
  by (auto intro!: onlyE_I simp: res_simps dest: json_loads_error)

lemma parse_header_only [only_intros]: "onlyE (decode_error L) (parse_header L hb)"
  unfolding parse_header_def
proof (rule onlyE_bindE [OF onlyE_catchE [OF json_only]])
  fix v show "onlyE (decode_error L) (case v of
      PDict header \<Rightarrow> if list_all (\<lambda>kv. is_str (fst kv)) header then Inr header
        else corrupt ''envelope header must be an object''
    | _ \<Rightarrow> corrupt ''envelope header must be an object'')"
    by (cases v) (auto intro: only_intros)
qed (auto simp: json_error_def decode_error_def intro: corrupt_only)

lemma check_header_only [only_intros]: "onlyE (decode_error L) (check_header L v hb p h)"
proof -
  have ff: "onlyE (decode_error L) (fingerprint_field h k f)" for k f
    unfolding fingerprint_field_def by (rule onlyE_catchE [of is_ValueError]) (auto intro: only_intros)
  have "onlyE (decode_error L) (nonneg_field h k)" for k
    unfolding nonneg_field_def by (rule onlyE_guardE) simp
  with ff show ?thesis unfolding check_header_def by (intro only_intros)
qed

lemma decode_at_only:
  assumes "is_fingerprint s" "case stale of None \<Rightarrow> True | Some m \<Rightarrow> 0 < m"
  shows "onlyE (decode_error L) (decode_at L c raw (PStr s) stale now)"
proof -
  have pay: "onlyE (decode_error L) (decode_payload L ser p)" for ser p
  proof (cases "ser = SERIALIZER_CANONICAL_JSON")
    case True
    let ?Q = "\<lambda>e. json_error e \<or> e = UnicodeDecodeError \<or> decode_error L e"
    have "onlyE ?Q (bindE (bindE (utf8_decode p) (json_loads (recursion_limit L))) (\<lambda>decoded.
        bindE (canonical_json_bytes L decoded) (\<lambda>canonical.
        bindE (guardC (canonical = p) ''JSON payload is not canonical'') (\<lambda>_. Inr decoded))))"
      by (intro onlyE_bindE onlyE_mono [OF json_only] onlyE_mono [OF writer_only] onlyE_mono [OF guardC_only] onlyE_Inr) auto
    with True show ?thesis unfolding decode_payload_def
      by (auto elim!: onlyE_catchE intro!: only_intros simp: json_error_def decode_error_def is_miss_error_def digits_error_def)
  qed (simp add: decode_payload_def only_intros)
  show ?thesis
    unfolding decode_at_def decode_checks_def decode_fresh_def parse_envelope_def Let_def
    using assms
    by (auto intro!: only_intros pay simp: require_fingerprint_def split: prod.split option.splits)
qed

text \<open>
  C22: whatever the stored bytes, decoding for a valid schema and a positive staleness fails only with
  a corruption, expiry or schema mismatch, which callers treat as a miss, or with one of three
  exceptions they do not: a \<^verbatim>\<open>RecursionError\<close> for too deep a document, a bare \<^verbatim>\<open>ValueError\<close> for an
  integer of more than 4300 digits, or an exception of the canonical writer.
\<close>

theorem decode_failures:
  assumes "decode_at L c raw (PStr s) stale now = Inl e" "is_fingerprint s" "case stale of None \<Rightarrow> True | Some m \<Rightarrow> 0 < m"
  shows "is_miss_error e \<or> e = RecursionError \<or> e = digits_error \<or> writer_error L e"
  using onlyE_D [OF decode_at_only [OF assms(2,3)] assms(1)] by (simp add: decode_error_def)

text \<open>
  A frame whose header is an integer of more than 4300 digits makes decoding raise a bare
  \<^verbatim>\<open>ValueError\<close>, which is neither a corruption nor an expiry nor a schema mismatch: bytes like
  these, stored under a key, are not treated as a miss.
\<close>

theorem long_integer_header_escapes:
  assumes "is_fingerprint version" "max_str_digits < n" "n \<le> 0xFFFFFFFF"
    "int (length (frame version (replicate n CHR ''1'') payload)) \<le> maximum_value_bytes c"
  shows "decode_at L c (frame version (replicate n CHR ''1'') payload) expected stale now = Inl digits_error \<and>
    \<not> is_EnvelopeError digits_error"
proof -
  let ?d = "replicate n CHR ''1''"
  obtain m where m: "n = Suc m" using assms(2) by (cases n) auto
  have "is_dec_digit CHR ''1''" by (simp add: is_dec_digit_def)
  then have tw: "takeWhile is_dec_digit ?d = ?d" "dropWhile is_dec_digit ?d = []"
    by (simp_all add: takeWhile_eq_all_conv dropWhile_eq_Nil_conv)
  have "scan_number ?d = scan_frac_exp False ?d []"
    unfolding scan_number_def Let_def tw by (simp add: m is_dec_digit_def)
  then have num: "scan_number ?d = Inl digits_error"
    using assms(2) by (simp add: scan_frac_exp_def scan_frac_def scan_exp_def digits_error_def)
  have "scan_body inner ?d = scan_number ?d" for inner
    using scan_body_digit(1) [of "CHR ''1''" inner "replicate m CHR ''1''"] m by (simp add: is_dec_digit_def)
  with num have once: "scan_once k ?d = Inl digits_error" for k by (cases k) auto
  have "\<not> has_prefix [CHR 0xEF, CHR 0xBB, CHR 0xBF] ?d" "skip_ws ?d = ?d"
    using m by (simp_all add: has_prefix_def skip_ws_def is_json_ws_def)
  then have js: "json_loads k ?d = Inl digits_error" for k by (simp add: json_loads_def once)
  have "utf8_ok ?d" by (rule utf8_ok_ascii) (simp add: is_ascii_def list_all_iff)
  then have "parse_header L ?d = Inl digits_error"
    by (simp add: parse_header_def utf8_decode_def js) (simp add: digits_error_def)
  moreover have "parse_frame (frame version ?d payload) = Inr (version, ?d, payload)"
    using assms(2,3) by (intro parse_frame_frame [OF assms(1)]) (simp_all add: max_str_digits_def)
  ultimately have "parse_envelope L (frame version ?d payload) = Inl digits_error" by (simp add: parse_envelope_def)
  moreover have "frame version ?d payload \<noteq> []" by (simp add: frame_def MAGIC_def)
  ultimately show ?thesis
    using assms(4) by (simp add: decode_at_def decode_checks_def guardC_def) (simp add: digits_error_def)
qed

text \<open>
  The length field of a frame is read liberally: any eight ASCII characters that \<^verbatim>\<open>int(s, 16)\<close>
  reads as the length of the header (upper case, \<^verbatim>\<open>0x\<close>, a sign, underscores, spaces) are accepted
  like the eight lower-case digits the encoder writes, so one envelope has several stored forms.
\<close>

theorem length_field_is_liberal:
  assumes "is_fingerprint version" "length hb \<le> 0xFFFFFFFF" "2 \<le> length hb"
    "length len = 8" "is_ascii len" "py_int16 len = Some (int (length hb))"
  shows "decode_at L c (frame_with version len (hb @ payload)) expected stale now =
    decode_at L c (frame version hb payload) expected stale now"
proof -
  have "parse_frame (frame_with version len (hb @ payload)) = parse_frame (frame version hb payload)"
    using parse_frame_with [OF assms(1,4,5,6,3), of "hb @ payload"] parse_frame_frame [OF assms(1,3,2)] by simp
  moreover have "length (frame_with version len (hb @ payload)) = length (frame version hb payload)"
    using hex08_framing [OF assms(2)] assms(4) by (simp add: frame_with_def frame_def)
  moreover have "frame_with version len (hb @ payload) \<noteq> []" "frame version hb payload \<noteq> []"
    by (simp_all add: frame_with_def frame_def MAGIC_def)
  ultimately show ?thesis by (simp add: decode_at_def decode_checks_def parse_envelope_def)
qed

subsection \<open>Examples\<close>

definition sample_codec :: envelope_codec where
  "sample_codec = \<lparr>maximum_value_bytes = 4194304\<rparr>"

lemma show_small: "\<bar>i\<bar> < 10 ^ 20 \<Longrightarrow> length (show_nat (nat \<bar>i\<bar>)) \<le> 20"
  by (rule length_show_nat) simp_all

lemma show_small_ok: "\<bar>i\<bar> < 10 ^ 20 \<Longrightarrow> length (show_nat (nat \<bar>i\<bar>)) \<le> max_str_digits"
  using show_small [of i] by (simp add: max_str_digits_def)

lemma utf8_sha256_hex [simp]: "utf8_ok (sha256_hex b)"
  using is_fingerprint_facts(2) [OF is_fingerprint_sha256_hex] by (rule utf8_ok_ascii)

lemma utf8_sample [simp]: "utf8_ok sample_schema" "length sample_schema = 71"
  using is_fingerprint_facts [OF sample_schema_ok] by (simp_all add: utf8_ok_ascii)

text \<open>Small values encode with the reference writer.\<close>

lemma sample_encode:
  assumes "printable 100 v" "json_size v \<le> 1000" "bytes_of v = None" "0 < t" "t < 10 ^ 15" "0 \<le> cr" "cr < 10 ^ 15"
  obtains raw where "encode_at ref_lib sample_codec v SERIALIZER_CANONICAL_JSON (PStr sample_schema) (PInt t) PNone (PInt cr) = Inr raw"
proof -
  let ?cj = "canonical_json_bytes ref_lib"
  have ok: "\<exists>b. ?cj x = Inr b \<and> length b \<le> json_size x" if "printable 100 x" for x
    using ref_json_ok [OF that] ref_json_size by (auto simp: ref_lib_def)
  obtain payload where p: "?cj v = Inr payload" "length payload \<le> 1000" using ok [OF assms(1)] assms(2) by auto
  have small: "length (show_nat (nat \<bar>cr\<bar>)) \<le> 20" "length (show_nat (nat \<bar>cr + t\<bar>)) \<le> 20"
    "length (show_nat (nat \<bar>int (length payload)\<bar>)) \<le> 20"
    using assms p(2) by (intro show_small; simp)+
  then have digits: "length (show_nat (nat \<bar>cr\<bar>)) \<le> max_str_digits" "length (show_nat (nat \<bar>cr + t\<bar>)) \<le> max_str_digits"
    "length (show_nat (nat \<bar>int (length payload)\<bar>)) \<le> max_str_digits"
    by (simp_all add: max_str_digits_def)
  let ?base = "base_header SERIALIZER_CANONICAL_JSON sample_schema PNone cr t payload"
  let ?full = "full_header SERIALIZER_CANONICAL_JSON sample_schema PNone cr t payload"
  have "printable 100 (PDict ?base)"
    using digits by (simp add: base_header_def ENVELOPE_FORMAT_VERSION_def SERIALIZER_CANONICAL_JSON_def del: abs_of_nat)
  then obtain bb where bb: "?cj (PDict ?base) = Inr bb" using ok by blast
  let ?v = "sha256_hex (bb @ [CHR 0x00] @ payload)"
  have "printable 100 (PDict (?full ?v))"
    using digits by (simp add: full_header_def base_header_def ENVELOPE_FORMAT_VERSION_def SERIALIZER_CANONICAL_JSON_def del: abs_of_nat)
  then obtain hb where hb: "?cj (PDict (?full ?v)) = Inr hb" "length hb \<le> json_size (PDict (?full ?v))" using ok by blast
  have "json_size (PDict (?full ?v)) \<le> 4000"
    using small by (simp add: full_header_def base_header_def ENVELOPE_FORMAT_VERSION_def SERIALIZER_CANONICAL_JSON_def del: abs_of_nat)
  with hb(2) have len: "length hb \<le> 4000" by simp
  have "length (hex08 (length hb)) = 8" using len by (intro length_hex08) simp
  then have "int (length (frame ?v hb payload)) \<le> maximum_value_bytes sample_codec"
    using len p(2) by (simp add: frame_def sample_codec_def)
  moreover have "encode_payload ref_lib v SERIALIZER_CANONICAL_JSON = Inr payload"
    using p(1) assms(3) by (simp add: encode_payload_def)
  ultimately show ?thesis
    using that encode_at_intro [of SERIALIZER_CANONICAL_JSON sample_schema t PNone cr ref_lib v payload bb hb sample_codec]
      assms bb hb(1) len by (simp add: SUPPORTED_SERIALIZERS_def)
qed

lemma sample_hello: "printable 100 (PStr ''hello'')" "json_size (PStr ''hello'') \<le> 1000"
  by simp_all

theorem decode_encode_witness:
  "\<exists>raw w version payload.
    encode_at ref_lib sample_codec (PStr ''hello'') SERIALIZER_CANONICAL_JSON (PStr sample_schema) (PInt 60000) PNone (PInt 1000) = Inr raw \<and>
    same_value ref_lib SERIALIZER_CANONICAL_JSON (PStr ''hello'') w \<and> extract_version raw = Inr version \<and>
    decode_at ref_lib sample_codec raw (PStr sample_schema) (Some 30000) 2000 =
      Inr \<lparr>de_value = w, de_serializer_id = SERIALIZER_CANONICAL_JSON, de_schema_fingerprint = sample_schema,
        de_source_version = PNone, de_created_at_ms = 1000, de_expires_at_ms = 61000, de_payload_digest = sha256_hex payload,
        de_envelope_version = version\<rparr>"
proof -
  obtain raw where raw: "encode_at ref_lib sample_codec (PStr ''hello'') SERIALIZER_CANONICAL_JSON (PStr sample_schema) (PInt 60000) PNone (PInt 1000) = Inr raw"
    by (rule sample_encode [OF sample_hello, of 60000 1000]) auto
  from decode_encode [OF lawful_ref_lib this sample_schema_ok, of "Some 30000" 2000] raw show ?thesis by auto
qed

lemma sample_decodes:
  obtains raw env env' where "decode_at ref_lib sample_codec raw (PStr sample_schema) None 2000 = Inr env"
    "decode_at ref_lib sample_codec raw (PStr sample_schema) None 3000 = Inr env'"
    "de_envelope_version env = de_envelope_version env'"
proof -
  obtain raw where raw: "encode_at ref_lib sample_codec (PStr ''hello'') SERIALIZER_CANONICAL_JSON (PStr sample_schema) (PInt 60000) PNone (PInt 1000) = Inr raw"
    by (rule sample_encode [OF sample_hello, of 60000 1000]) auto
  obtain s' t' cr' payload version header where
    p: "encode_payload ref_lib (PStr ''hello'') SERIALIZER_CANONICAL_JSON = Inr payload"
    "raw \<noteq> []" "int (length raw) \<le> maximum_value_bytes sample_codec" "PStr sample_schema = PStr s'" "PInt 60000 = PInt t'" "PInt 1000 = PInt cr'"
    "parse_envelope ref_lib raw = Inr (version, header, payload)"
    "hget header = hget (full_header SERIALIZER_CANONICAL_JSON s' PNone cr' t' payload version)"
    by (rule encoded_parses [OF lawful_ref_lib raw])
  obtain w where "decode_payload ref_lib SERIALIZER_CANONICAL_JSON payload = Inr w"
    using payload_reads_back [OF lawful_ref_lib p(1)] by blast
  with p have "\<exists>env env'. decode_at ref_lib sample_codec raw (PStr sample_schema) None 2000 = Inr env \<and>
      decode_at ref_lib sample_codec raw (PStr sample_schema) None 3000 = Inr env' \<and>
      de_envelope_version env = de_envelope_version env'"
    by (auto simp: decode_at_def decode_checks_def guardC_def require_fingerprint_def decode_fresh_def hget_full_header Let_def)
  with that show ?thesis by blast
qed

theorem decode_sound_witness:
  "\<exists>raw env. decode_at ref_lib sample_codec raw (PStr sample_schema) None 2000 = Inr env \<and>
    2000 < de_expires_at_ms env \<and> de_envelope_version env = sha256_hex (signed_bytes ref_lib raw)"
proof -
  obtain raw env where d: "decode_at ref_lib sample_codec raw (PStr sample_schema) None 2000 = Inr env" by (rule sample_decodes)
  with decode_sound [OF d] show ?thesis by blast
qed

theorem version_binds_witness:
  "\<exists>raw env env'. decode_at ref_lib sample_codec raw (PStr sample_schema) None 2000 = Inr env \<and>
    decode_at ref_lib sample_codec raw (PStr sample_schema) None 3000 = Inr env' \<and> env = env'"
proof -
  obtain raw env env' where d: "decode_at ref_lib sample_codec raw (PStr sample_schema) None 2000 = Inr env"
    "decode_at ref_lib sample_codec raw (PStr sample_schema) None 3000 = Inr env'"
    "de_envelope_version env = de_envelope_version env'" by (rule sample_decodes)
  with version_binds [OF lawful_ref_lib d] show ?thesis by (auto simp: sha256_collision_def)
qed

theorem decode_failures_witness:
  "\<exists>e. decode_at ref_lib sample_codec [] (PStr sample_schema) None 0 = Inl e \<and>
    (is_miss_error e \<or> e = RecursionError \<or> e = digits_error \<or> writer_error ref_lib e)"
proof -
  have e: "decode_at ref_lib sample_codec [] (PStr sample_schema) None 0 =
      Inl (EnvelopeCorruptionError ''envelope exceeds its configured framing bound'')"
    by (simp add: decode_at_def decode_checks_def guardC_def)
  with decode_failures [OF e sample_schema_ok] show ?thesis by auto
qed

theorem long_integer_header_escapes_witness:
  "decode_at ref_lib sample_codec (frame sample_schema (replicate 4301 CHR ''1'') []) (PStr sample_schema) None 0 = Inl digits_error"
proof -
  have "length (hex08 4301) = 8" by (rule length_hex08) simp
  then have "int (length (frame sample_schema (replicate 4301 CHR ''1'') [])) \<le> maximum_value_bytes sample_codec"
    by (simp add: frame_def sample_codec_def)
  from long_integer_header_escapes [OF sample_schema_ok _ _ this] show ?thesis by (simp add: max_str_digits_def)
qed

theorem length_field_is_liberal_witness:
  "decode_at ref_lib sample_codec (frame_with sample_schema ''  0x0_0A'' (replicate 10 CHR ''1'' @ [])) (PStr sample_schema) None 0 =
    decode_at ref_lib sample_codec (frame sample_schema (replicate 10 CHR ''1'') []) (PStr sample_schema) None 0"
proof (rule length_field_is_liberal [OF sample_schema_ok])
  show "py_int16 ''  0x0_0A'' = Some (int (length (replicate 10 CHR ''1'')))" by code_simp
qed (simp_all add: is_ascii_def)

end
