(* ===== verification/Vk_Engine.thy ===== *)
theory Vk_Engine
  imports Vk_Codec
begin

section \<open>The client and the host\<close>

text \<open>
  What the stateful parts of the adapter call: the operations of \<^verbatim>\<open>ClientProtocol\<close> and of its
  pipelines (\<open>client\<close>), and the clocks, the random source, the event sink and \<^verbatim>\<open>sleep\<close> (\<open>host\<close>).
  Both are parameters: an operation is any computation over the state \<open>'s\<close> outside the adapter, it
  may raise any exception and return any value. The methods of the codec read the clock between two
  groups of checks; \<open>codec_encode\<close> and \<open>codec_decode\<close> compose the pure halves of \<^verbatim>\<open>Vk_Codec\<close>.
\<close>

subsection \<open>Interfaces\<close>

text \<open>
  Arguments and results the adapter never inspects dynamically keep their static type; the others
  are \<open>pyval\<close>. The \<open>SET\<close> of the client takes the flags \<^verbatim>\<open>nx\<close> and \<^verbatim>\<open>px\<close>; a pipeline is a handle.
\<close>

record 's client =
  c_ping :: "('s, pyval) py"
  c_info :: "string \<Rightarrow> ('s, mapping) py"
  c_config_get :: "string \<Rightarrow> ('s, mapping) py"
  c_execute_command :: "string list \<Rightarrow> ('s, pyval) py"
  c_script_load :: "bytes \<Rightarrow> ('s, pyval) py"
  c_script_exists :: "string list \<Rightarrow> ('s, pyval list) py"
  c_evalsha :: "string \<Rightarrow> nat \<Rightarrow> pyval list \<Rightarrow> ('s, pyval) py"
  c_get :: "bytes \<Rightarrow> ('s, pyval) py"
  c_mget :: "bytes list \<Rightarrow> ('s, pyval list) py"
  c_set :: "bytes \<Rightarrow> bytes \<Rightarrow> bool \<Rightarrow> int \<Rightarrow> ('s, pyval) py"
  c_delete :: "bytes \<Rightarrow> ('s, pyval) py"
  c_close :: "('s, unit) py"
  c_pipeline :: "('s, nat) py"
  p_watch :: "nat \<Rightarrow> bytes \<Rightarrow> ('s, unit) py"
  p_get :: "nat \<Rightarrow> bytes \<Rightarrow> ('s, pyval) py"
  p_multi :: "nat \<Rightarrow> ('s, unit) py"
  p_set :: "nat \<Rightarrow> bytes \<Rightarrow> bytes \<Rightarrow> int \<Rightarrow> ('s, unit) py"
  p_execute :: "nat \<Rightarrow> ('s, unit) py"
  p_reset :: "nat \<Rightarrow> ('s, unit) py"

record 's host =
  h_clock_ms :: "('s, int) py"
  h_token_bytes :: "('s, bytes) py"
  h_emit :: "string \<Rightarrow> (string \<times> string) list \<Rightarrow> ('s, unit) py"
  h_sleep :: "pyfloat \<Rightarrow> ('s, unit) py"
  h_monotonic :: "('s, pyfloat) py"

subsection \<open>The codec with its clock\<close>

definition codec_encode ::
    "lib \<Rightarrow> 's host \<Rightarrow> envelope_codec \<Rightarrow> pyval \<Rightarrow> string \<Rightarrow> pyval \<Rightarrow> pyval \<Rightarrow> pyval \<Rightarrow> ('s, bytes) py" where
  "codec_encode L H c v serializer_id schema_fingerprint ttl_ms source_version =
     bindM (liftM (encode_checks serializer_id schema_fingerprint ttl_ms source_version)) (\<lambda>schema.
     bindM (h_clock_ms H) (\<lambda>created.
     liftM (encode_framed L c v serializer_id schema (int_of ttl_ms) source_version (PInt created))))"

definition codec_decode ::
    "lib \<Rightarrow> 's host \<Rightarrow> envelope_codec \<Rightarrow> bytes \<Rightarrow> pyval \<Rightarrow> int option \<Rightarrow> ('s, decoded_envelope) py" where
  "codec_decode L H c raw expected_schema_fingerprint maximum_staleness_ms =
     bindM (liftM (decode_checks L c raw expected_schema_fingerprint)) (\<lambda>(version, header, payload).
     bindM (h_clock_ms H) (\<lambda>now.
     liftM (decode_fresh L version header payload maximum_staleness_ms now)))"

subsection \<open>Numbers\<close>

text \<open>\<^verbatim>\<open>int(b)\<close> of an ASCII numeral; \<open>u\<close> says that an underscore may not come next.\<close>

fun int10_digits :: "int \<Rightarrow> nat \<Rightarrow> bool \<Rightarrow> string \<Rightarrow> (int \<times> nat) option" where
  "int10_digits acc n u [] = (if u then None else Some (acc, n))"
| "int10_digits acc n u (c # cs) =
     (if c = CHR ''_'' then (if u then None else int10_digits acc n True cs)
      else if is_dec_digit c then int10_digits (acc * 10 + (of_char c - 48)) (n + 1) False cs else None)"

definition py_int10 :: "string \<Rightarrow> int res" where
  "py_int10 s =
     (let t = strip s; neg = (t \<noteq> [] \<and> hd t = CHR ''-'');
          ds = (if t \<noteq> [] \<and> (hd t = CHR ''-'' \<or> hd t = CHR ''+'') then tl t else t) in
      case int10_digits 0 0 True ds of
        None \<Rightarrow> Inl (ValueError ''invalid literal for int() with base 10'')
      | Some (i, n) \<Rightarrow> if max_str_digits < n then Inl digits_error else Inr (if neg then - i else i))"

text \<open>\<^verbatim>\<open>v == n\<close> for an integer \<open>n\<close>: Booleans and floats compare by their value.\<close>

fun py_eq_int :: "pyval \<Rightarrow> int \<Rightarrow> bool" where
  "py_eq_int (PInt i) n = (i = n)"
| "py_eq_int (PBool b) n = (of_bool b = n)"
| "py_eq_int (PFloat (FFinite s m e)) n = ((if s then - 1 else 1) * int m * 2 ^ nat e = n * 2 ^ nat (- e))"
| "py_eq_int _ n = False"

definition is_int_or_float :: "pyval \<Rightarrow> bool" where
  "is_int_or_float v = (case v of PInt _ \<Rightarrow> True | PFloat _ \<Rightarrow> True | _ \<Rightarrow> False)"

text \<open>\<^verbatim>\<open>a + b\<close> of two numbers: an integer beside a float is converted first.\<close>

fun py_add :: "pyval \<Rightarrow> pyval \<Rightarrow> pyval res" where
  "py_add (PInt a) (PInt b) = Inr (PInt (a + b))"
| "py_add (PInt a) (PFloat y) = bindE (float_of_int a) (\<lambda>x. Inr (PFloat (float_add x y)))"
| "py_add (PFloat x) (PInt b) = bindE (float_of_int b) (\<lambda>y. Inr (PFloat (float_add x y)))"
| "py_add (PFloat x) (PFloat y) = Inr (PFloat (float_add x y))"
| "py_add _ _ = Inl (TypeError ''unsupported operand type(s)'')"

fun not_finite :: "pyval \<Rightarrow> bool" where
  "not_finite (PFloat f) = (\<not> float_isfinite f)"
| "not_finite _ = False"

text \<open>\<^verbatim>\<open>x < y\<close> of two doubles.\<close>

fun float_less :: "pyfloat \<Rightarrow> pyfloat \<Rightarrow> bool" where
  "float_less (FFinite s m e) (FFinite s' m' e') =
     (let e0 = min e e' in float_scaled s m e e0 < float_scaled s' m' e' e0)"
| "float_less (FFinite _ _ _) (FInf s') = (\<not> s')"
| "float_less (FInf s) (FFinite _ _ _) = s"
| "float_less (FInf s) (FInf s') = (s \<and> \<not> s')"
| "float_less _ _ = False"

text \<open>\<^verbatim>\<open>n / 1000\<close>: true division of integers rounds once.\<close>

definition seconds_of_ms :: "int \<Rightarrow> pyfloat" where
  "seconds_of_ms n = round_ratio (n < 0) \<bar>n\<bar> 1000"

definition removeprefix :: "string \<Rightarrow> string \<Rightarrow> string" where
  "removeprefix p s = (if take (length p) s = p then drop (length p) s else s)"

subsection \<open>Lemmas\<close>

lemma codec_decode_value:
  assumes "codec_decode L H c raw expected stale s = (Inr d, s')"
  obtains now where "decode_at L c raw expected stale now = Inr d" "\<exists>s0. h_clock_ms H s0 = (Inr now, s')"
proof -
  from assms obtain now s0 v h p where "decode_checks L c raw expected = Inr (v, h, p)" "h_clock_ms H s0 = (Inr now, s')"
    "decode_fresh L v h p stale now = Inr d"
    by (auto simp: codec_decode_def res_simps split: prod.splits)
  with that show ?thesis by (auto simp: decode_at_def)
qed

lemma codec_encode_value:
  assumes "codec_encode L H c v ser schema ttl_ms source s = (Inr raw, s')"
  obtains created where "encode_at L c v ser schema ttl_ms source (PInt created) = Inr raw"
    "\<exists>s0. h_clock_ms H s0 = (Inr created, s')"
  using assms by (auto simp: codec_encode_def encode_at_def res_simps)

text \<open>With a clock that answers, the methods are the pure functions at that instant.\<close>

lemma codec_decode_at:
  assumes "h_clock_ms H s = (Inr now, s)"
  shows "codec_decode L H c raw expected stale s = (decode_at L c raw expected stale now, s)"
  using assms by (cases "decode_checks L c raw expected")
    (auto simp: codec_decode_def decode_at_def bindM_def split: prod.splits)

lemma codec_encode_at:
  assumes "h_clock_ms H s = (Inr now, s)"
  shows "codec_encode L H c v ser schema ttl_ms source s = (encode_at L c v ser schema ttl_ms source (PInt now), s)"
  using assms by (cases "encode_checks ser schema ttl_ms source")
    (auto simp: codec_encode_def encode_at_def bindM_def split: prod.splits)

end
