(* ===== verification/Vk_Key.thy ===== *)
theory Vk_Key
  imports Vk_Canonical
begin

section \<open>Physical keys\<close>

text \<open>
  The module \<^verbatim>\<open>key\<close>: the material of a key, the encoder that turns it into a digest-only physical
  key, lease keys, and the cluster hash slot of a key. Shown: the length bounds, that keys of
  different material differ unless SHA-256 collides, that generations and the data and lease
  key spaces are disjoint outright, and which keys share a hash slot.
\<close>

subsection \<open>Key material\<close>

record key_material =
  km_context :: op_context
  km_resource_ref :: resource_ref
  km_logical_key :: pyval
  km_schema_fingerprint :: string
  km_atomic_group :: pyval

definition KEY_FORMAT_VERSION :: string where
  "KEY_FORMAT_VERSION = ''meridian-valkey-key.v1''"

text \<open>The constructor with its \<^verbatim>\<open>__post_init__\<close>; an absent atomic group is \<^const>\<open>PNone\<close>.\<close>

definition KeyMaterial :: "lib \<Rightarrow> op_context \<Rightarrow> resource_ref \<Rightarrow> pyval \<Rightarrow> pyval \<Rightarrow> pyval \<Rightarrow> key_material res" where
  "KeyMaterial L context ref logical_key schema_fingerprint atomic_group =
     bindE (resource_ref_parse L ref) (\<lambda>ref'.
     bindE (guardE (rr_catalog ref' = ''cache'')
       (ValueError ''Valkey physical keys are restricted to the Cache Catalog'')) (\<lambda>_.
     bindE (json_scalar_or_array L logical_key ''logical Cache key'') (\<lambda>logical.
     bindE (require_fingerprint schema_fingerprint ''schema fingerprint'') (\<lambda>schema.
     bindE (if atomic_group = PNone then Inr PNone
       else json_scalar_or_array L atomic_group ''atomic group'') (\<lambda>group.
     Inr \<lparr>km_context = context, km_resource_ref = ref', km_logical_key = logical,
          km_schema_fingerprint = schema, km_atomic_group = group\<rparr>)))))"

subsection \<open>The encoder\<close>

record key_encoder =
  ke_namespace_generation :: int
  ke_maximum_key_bytes :: int
  ke_prefix :: string

definition KeyEncoder :: "string \<Rightarrow> pyval \<Rightarrow> int \<Rightarrow> key_encoder res" where
  "KeyEncoder physical_namespace namespace_generation maximum_key_bytes =
     bindE (guardE (physical_namespace \<noteq> []) (ValueError ''physical namespace must be bounded and non-empty'')) (\<lambda>_.
     bindE (utf8_encode physical_namespace) (\<lambda>ns.
     bindE (guardE (length ns \<le> 512) (ValueError ''physical namespace must be bounded and non-empty'')) (\<lambda>_.
     (case namespace_generation of
       PInt g \<Rightarrow>
         if g < 1 then Inl (ValueError ''namespace generation must be positive'')
         else Inr \<lparr>ke_namespace_generation = g, ke_maximum_key_bytes = maximum_key_bytes,
           ke_prefix = ''mrvk:v1:'' @ take 16 (base64url_digest ns) @ '':g'' @ show_int g\<rparr>
     | _ \<Rightarrow> Inl (ValueError ''namespace generation must be positive'')))))"

definition safe_prefix :: "key_encoder \<Rightarrow> string" where
  "safe_prefix ke = ke_prefix ke"

definition key_scope :: "key_material \<Rightarrow> pyval" where
  "key_scope m = PDict [
     (PStr ''tenant'', ctx_tenant (km_context m)),
     (PStr ''labels'', PDict (map (\<lambda>(k, v). (PStr k, v)) (sort_key fst (ctx_scope (km_context m)))))]"

definition key_body :: "key_encoder \<Rightarrow> key_material \<Rightarrow> pyval" where
  "key_body ke m = PDict [
     (PStr ''formatVersion'', PStr KEY_FORMAT_VERSION),
     (PStr ''scope'', key_scope m),
     (PStr ''resource'', rr_dict (km_resource_ref m)),
     (PStr ''logicalKey'', km_logical_key m),
     (PStr ''schemaFingerprint'', PStr (km_schema_fingerprint m)),
     (PStr ''namespaceGeneration'', PInt (ke_namespace_generation ke))]"

definition tag_body :: "key_encoder \<Rightarrow> key_material \<Rightarrow> pyval" where
  "tag_body ke m = PDict [
     (PStr ''formatVersion'', PStr KEY_FORMAT_VERSION),
     (PStr ''scope'', key_scope m),
     (PStr ''resource'', rr_dict (km_resource_ref m)),
     (PStr ''atomicGroup'', km_atomic_group m),
     (PStr ''namespaceGeneration'', PInt (ke_namespace_generation ke))]"

definition encode_key :: "lib \<Rightarrow> key_encoder \<Rightarrow> key_material \<Rightarrow> bytes res" where
  "encode_key L ke m =
     bindE (canonical_json_bytes L (key_body ke m)) (\<lambda>body.
     let digest = base64url_digest body in
     bindE
       (if km_atomic_group m = PNone then Inr (ke_prefix ke @ '':d:'' @ digest)
        else bindE (canonical_json_bytes L (tag_body ke m)) (\<lambda>tagged.
          let tag = take 22 (base64url_digest tagged) in
          Inr (ke_prefix ke @ '':{'' @ tag @ ''}:d:'' @ digest)))
       (\<lambda>k. bindE (guardE (int (length k) \<le> ke_maximum_key_bytes ke)
              (ValueError ''encoded physical key exceeds the configured key limit'')) (\<lambda>_. Inr k)))"

subsection \<open>Hash tags and slots\<close>

definition hash_tag :: "bytes \<Rightarrow> bytes option" where
  "hash_tag key = (case find_byte CHR ''{'' 0 key of
     None \<Rightarrow> None
   | Some start \<Rightarrow>
       (case find_byte CHR ''}'' (start + 1) key of
         None \<Rightarrow> None
       | Some stop \<Rightarrow> if stop \<le> start + 1 then None else Some (py_slice (start + 1) stop key)))"

definition hash_slot :: "bytes \<Rightarrow> nat" where
  "hash_slot key = unat (crc_hqx (case hash_tag key of Some tagged \<Rightarrow> tagged | None \<Rightarrow> key) 0) mod 16384"

definition require_shared_hash_slot :: "bytes list \<Rightarrow> nat res" where
  "require_shared_hash_slot keys =
     (if keys = [] then Inl (ValueError ''at least one key is required'')
      else (case remdups (map hash_slot keys) of
        [slot] \<Rightarrow> Inr slot
      | _ \<Rightarrow> Inl (ValueError ''multi-key atomic groups must share one Valkey hash slot'')))"

definition lease_key :: "key_encoder \<Rightarrow> bytes \<Rightarrow> bytes res" where
  "lease_key ke key =
     (let digest = base64url_digest key in
      bindE
        (case hash_tag key of
          None \<Rightarrow> Inr (ke_prefix ke @ '':l:'' @ digest)
        | Some tag \<Rightarrow> bindE (ascii_decode tag) (\<lambda>t. Inr (ke_prefix ke @ '':{'' @ t @ ''}:l:'' @ digest)))
        (\<lambda>k. bindE (guardE (int (length k) \<le> ke_maximum_key_bytes ke)
               (ValueError ''encoded lease key exceeds the configured key limit'')) (\<lambda>_. Inr k)))"

subsection \<open>The shape of a key\<close>

text \<open>What the constructor of the encoder establishes.\<close>

definition wf_encoder :: "key_encoder \<Rightarrow> bool" where
  "wf_encoder ke = (1 \<le> ke_namespace_generation ke \<and>
     (\<exists>ns. length ns = 16 \<and> list_all is_b64url ns \<and>
       ke_prefix ke = ''mrvk:v1:'' @ ns @ '':g'' @ show_int (ke_namespace_generation ke)))"

lemma list_all_take: "list_all P xs \<Longrightarrow> list_all P (take n xs)"
  by (auto simp: list_all_iff dest: in_set_takeD)

lemma take_base64url [simp]:
  "length (take 16 (base64url_digest b)) = 16" "list_all is_b64url (take n (base64url_digest b))"
  "length (take 22 (base64url_digest b)) = 22"
  by (simp_all add: list_all_take base64url_digest_url)

lemma wf_KeyEncoder:
  assumes "KeyEncoder ns g mx = Inr ke"
  shows "wf_encoder ke" "ke_maximum_key_bytes ke = mx" "g = PInt (ke_namespace_generation ke)"
proof -
  from assms obtain i where
    "g = PInt i" "1 \<le> i" "ke = \<lparr>ke_namespace_generation = i, ke_maximum_key_bytes = mx,
      ke_prefix = ''mrvk:v1:'' @ take 16 (base64url_digest ns) @ '':g'' @ show_int i\<rparr>"
    by (cases g) (auto simp: KeyEncoder_def res_simps split: if_splits)
  then show "wf_encoder ke" "ke_maximum_key_bytes ke = mx" "g = PInt (ke_namespace_generation ke)"
    by (auto simp: wf_encoder_def intro!: exI [of _ "take 16 (base64url_digest ns)"] simp del: length_take)
qed

text \<open>A key is its prefix, an optional tag, its kind and a digest of 43 characters.\<close>

definition key_shape :: "string \<Rightarrow> string option \<Rightarrow> char \<Rightarrow> string \<Rightarrow> string" where
  "key_shape p tag kind d =
     p @ (case tag of None \<Rightarrow> [] | Some t \<Rightarrow> '':{'' @ t @ ''}'') @ '':'' @ [kind] @ '':'' @ d"

lemma encode_key_shape:
  assumes "encode_key L ke m = Inr k"
  obtains b where "canonical_json_bytes L (key_body ke m) = Inr b" "km_atomic_group m = PNone"
      "k = key_shape (ke_prefix ke) None CHR ''d'' (base64url_digest b)" "int (length k) \<le> ke_maximum_key_bytes ke"
    | b t where "canonical_json_bytes L (key_body ke m) = Inr b" "km_atomic_group m \<noteq> PNone"
      "canonical_json_bytes L (tag_body ke m) = Inr t"
      "k = key_shape (ke_prefix ke) (Some (take 22 (base64url_digest t))) CHR ''d'' (base64url_digest b)"
      "int (length k) \<le> ke_maximum_key_bytes ke"
  using assms by (auto simp: encode_key_def key_shape_def res_simps Let_def split: if_splits)

lemma encode_key_digest:
  assumes "encode_key L ke m = Inr k"
  obtains b t where "canonical_json_bytes L (key_body ke m) = Inr b"
    "k = key_shape (ke_prefix ke) t CHR ''d'' (base64url_digest b)"
  using assms by (cases rule: encode_key_shape) auto

lemma lease_key_shape:
  assumes "lease_key ke key = Inr k"
  shows "k = key_shape (ke_prefix ke) (hash_tag key) CHR ''l'' (base64url_digest key)"
    "int (length k) \<le> ke_maximum_key_bytes ke"
  using assms
  by (auto simp: lease_key_def key_shape_def res_simps ascii_decode_def Let_def split: option.splits if_splits)

lemma key_shape_tail:
  assumes "length d = 43" "length d' = 43" "key_shape p t c d = key_shape p' t' c' d'"
  shows "c = c'" "d = d'"
proof -
  have split: "key_shape p t c d = (p @ (case t of None \<Rightarrow> [] | Some t \<Rightarrow> '':{'' @ t @ ''}'') @ '':'') @ (c # CHR '':'' # d)"
    for p t c d by (simp add: key_shape_def)
  have "c # CHR '':'' # d = c' # CHR '':'' # d'"
    using assms unfolding split by (subst (asm) append_eq_append_conv) auto
  then show "c = c'" "d = d'" by auto
qed

lemma b64url_chars:
  assumes "is_b64url c"
  shows "c \<noteq> CHR ''{''" "c \<noteq> CHR ''}''" "c \<noteq> CHR '':''" "of_char c < (128 :: nat)"
  using assms by (auto simp: is_b64url_def Let_def)

lemma b64url_no_brace:
  "list_all is_b64url s \<Longrightarrow> CHR ''{'' \<notin> set s" "list_all is_b64url s \<Longrightarrow> CHR ''}'' \<notin> set s"
  by (auto simp: list_all_iff dest: b64url_chars)

lemma dec_digit_chars: "is_dec_digit c \<Longrightarrow> c \<noteq> CHR ''{'' \<and> c \<noteq> CHR '':''"
  by (auto simp: is_dec_digit_def)

lemma show_pos: "1 \<le> g \<Longrightarrow> show_int g = show_nat (nat g)"
  by (simp add: show_int_def)

lemma show_nat_chars: "CHR ''{'' \<notin> set (show_nat n)" "CHR '':'' \<notin> set (show_nat n)"
  using show_nat_digits [of n] by (auto simp: list_all_iff dest: dec_digit_chars)

lemma prefix_no_brace: "wf_encoder ke \<Longrightarrow> CHR ''{'' \<notin> set (ke_prefix ke)"
  using show_nat_chars(1) by (auto simp: wf_encoder_def show_pos b64url_no_brace)

lemma hash_tag_shape:
  assumes "CHR ''{'' \<notin> set p" "CHR ''}'' \<notin> set t" "t \<noteq> []"
  shows "hash_tag (key_shape p (Some t) c d) = Some t"
proof -
  let ?r = "t @ CHR ''}'' # CHR '':'' # c # CHR '':'' # d"
  have k: "key_shape p (Some t) c d = (p @ [CHR '':'']) @ CHR ''{'' # ?r" by (simp add: key_shape_def)
  have start: "find_byte CHR ''{'' 0 (key_shape p (Some t) c d) = Some (Suc (length p))"
    using find_byte_first [of "CHR ''{''" "p @ [CHR '':'']" ?r] assms(1) unfolding k by simp
  have "find_byte CHR ''}'' (length (p @ '':{'') + 0) ((p @ '':{'') @ ?r) = Some (length (p @ '':{'') + length t)"
    using find_byte_first [of "CHR ''}''" t] assms(2) by (subst find_byte_append_skip) simp
  then have stop: "find_byte CHR ''}'' (Suc (Suc (length p))) (key_shape p (Some t) c d) = Some (Suc (Suc (length p)) + length t)"
    by (simp add: key_shape_def)
  have "py_slice (Suc (Suc (length p))) (Suc (Suc (length p)) + length t) (key_shape p (Some t) c d) = t"
    using py_slice_append_exact [of "p @ '':{''" _ _ t "CHR ''}'' # CHR '':'' # c # CHR '':'' # d", OF refl refl]
    by (simp add: key_shape_def)
  with start stop assms(3) show ?thesis by (simp add: hash_tag_def)
qed

lemma hash_tag_no_brace: "CHR ''{'' \<notin> set k \<Longrightarrow> hash_tag k = None"
  by (simp add: hash_tag_def find_byte_absent)

lemma length_key_shape:
  "length d = 43 \<Longrightarrow> length (key_shape p t c d) = length p + (case t of None \<Rightarrow> 46 | Some t \<Rightarrow> 49 + length t)"
  by (simp add: key_shape_def split: option.split)

lemma length_prefix:
  assumes "wf_encoder ke" "ke_namespace_generation ke \<le> 2147483647"
  shows "length (ke_prefix ke) \<le> 36"
proof -
  have "nat (ke_namespace_generation ke) < 10 ^ 10" using assms(2) by simp
  then have "length (show_nat (nat (ke_namespace_generation ke))) \<le> 10" by (rule length_show_nat) simp
  with assms(1) show ?thesis by (auto simp: wf_encoder_def show_pos)
qed

lemma encoded_tag:
  assumes "wf_encoder ke" "encode_key L ke m = Inr k" "km_atomic_group m \<noteq> PNone"
    "canonical_json_bytes L (tag_body ke m) = Inr t"
  shows "hash_tag k = Some (take 22 (base64url_digest t))"
  using assms(2)
proof (cases rule: encode_key_shape)
  case (2 b t')
  have "take 22 (base64url_digest t) \<noteq> []"
    using take_base64url(3) [of t] by (intro notI) (simp only: list.size zero_neq_numeral)
  then show ?thesis
    using 2 assms prefix_no_brace by (simp add: hash_tag_shape b64url_no_brace)
qed (use assms in simp)

subsection \<open>Lengths\<close>

lemma lease_of_data_key:
  assumes "wf_encoder ke" "encode_key L ke m = Inr k"
  shows "hash_tag k = None \<and> km_atomic_group m = PNone \<or> (\<exists>t. hash_tag k = Some t \<and> length t = 22 \<and> is_ascii t)"
  using assms(2)
proof (cases rule: encode_key_shape)
  case (1 b)
  have "CHR ''{'' \<notin> set k"
    using 1 prefix_no_brace [OF assms(1)] by (simp add: key_shape_def b64url_no_brace base64url_digest_url)
  with 1 show ?thesis by (simp add: hash_tag_no_brace)
next
  case (2 b t)
  have "is_ascii (take 22 (base64url_digest t))"
    using take_base64url(2) [of 22 t] by (auto simp: is_ascii_def list_all_iff dest: b64url_chars)
  with encoded_tag [OF assms 2(2,3)] show ?thesis by simp
qed

lemma lease_key_of_data_key:
  assumes "wf_encoder ke" "encode_key L ke m = Inr k" "ke_namespace_generation ke \<le> 2147483647"
    "107 \<le> ke_maximum_key_bytes ke"
  shows "\<exists>l. lease_key ke k = Inr l"
proof -
  have p: "length (ke_prefix ke) \<le> 36" using assms length_prefix by blast
  from lease_of_data_key [OF assms(1,2)] show ?thesis
    using p assms(4) by (auto simp: lease_key_def ascii_decode_def Let_def guardE_def)
qed

text \<open>With the generation in its configured range, a physical key has at most 82 bytes, at most
  107 with an atomic group, and never more than the configured limit.\<close>

theorem encode_key_bounds:
  assumes "KeyEncoder ns (PInt g) mx = Inr ke" "g \<le> 2147483647" "encode_key L ke m = Inr k"
  shows "length k \<le> (if km_atomic_group m = PNone then 82 else 107) \<and> int (length k) \<le> mx"
proof -
  note wf = wf_KeyEncoder [OF assms(1)]
  then have p: "length (ke_prefix ke) \<le> 36" using assms(2) length_prefix by auto
  from assms(3) show ?thesis
    by (cases rule: encode_key_shape) (use p wf in \<open>simp_all add: length_key_shape\<close>)
qed

subsection \<open>Key spaces\<close>

text \<open>The keys an encoder makes: data keys and lease keys.\<close>

definition adapter_key :: "lib \<Rightarrow> key_encoder \<Rightarrow> bytes \<Rightarrow> bool" where
  "adapter_key L ke k = ((\<exists>m. encode_key L ke m = Inr k) \<or> (\<exists>x. lease_key ke x = Inr k))"

lemma adapter_key_prefix:
  assumes "wf_encoder ke" "adapter_key L ke k"
  shows "takeWhile (\<lambda>c. c \<noteq> CHR '':'') (drop 26 k) = show_int (ke_namespace_generation ke)"
proof -
  have "\<exists>r. k = ke_prefix ke @ CHR '':'' # r"
    using assms(2) by (auto simp: adapter_key_def key_shape_def elim!: encode_key_shape dest!: lease_key_shape(1)
        split: option.splits)
  then obtain r ns where "k = (''mrvk:v1:'' @ ns @ '':g'') @ show_int (ke_namespace_generation ke) @ CHR '':'' # r"
    and len: "length ns = 16" and g: "1 \<le> ke_namespace_generation ke"
    using assms(1) by (auto simp: wf_encoder_def)
  then have "drop 26 k = show_int (ke_namespace_generation ke) @ CHR '':'' # r" by simp
  then show ?thesis
    using show_nat_chars(2) by (auto simp: show_pos [OF g] takeWhile_tail intro!: takeWhile_append2 [THEN trans])
qed

lemma adapter_keys_differ:
  assumes "wf_encoder ke" "wf_encoder ke'" "ke_namespace_generation ke \<noteq> ke_namespace_generation ke'" "adapter_key L ke k"
  shows "\<not> adapter_key L' ke' k"
proof
  let ?g = "ke_namespace_generation ke" and ?g' = "ke_namespace_generation ke'"
  assume "adapter_key L' ke' k"
  then have "show_int ?g = show_int ?g'"
    using adapter_key_prefix [OF assms(1,4)] adapter_key_prefix [OF assms(2)] by simp
  moreover have "1 \<le> ?g" "1 \<le> ?g'" using assms(1,2) by (auto simp: wf_encoder_def)
  ultimately have "nat ?g = nat ?g'" using show_nat_inj by (simp add: show_pos)
  with \<open>1 \<le> ?g\<close> \<open>1 \<le> ?g'\<close> assms(3) show False by simp
qed

text \<open>No key of one namespace generation, data or lease, is a key of another generation, whatever
  the namespaces and the material: advancing the generation invalidates every key.\<close>

theorem generations_disjoint:
  assumes "KeyEncoder ns (PInt g) mx = Inr ke" "KeyEncoder ns' (PInt g') mx' = Inr ke'" "g \<noteq> g'"
    "adapter_key L ke k"
  shows "\<not> adapter_key L' ke' k"
  using adapter_keys_differ [of ke ke' L k L'] wf_KeyEncoder [OF assms(1)] wf_KeyEncoder [OF assms(2)] assms(3,4) by simp

lemma data_key_not_lease:
  assumes "encode_key L ke m = Inr k" "lease_key ke' x = Inr l"
  shows "k \<noteq> l"
proof -
  obtain b t where "k = key_shape (ke_prefix ke) t CHR ''d'' (base64url_digest b)"
    using assms(1) by (rule encode_key_digest)
  with lease_key_shape(1) [OF assms(2)] show ?thesis
    using key_shape_tail(1) [of "base64url_digest b" "base64url_digest x"] by fastforce
qed

text \<open>A data key is never a lease key, of the same or of another encoder, and two data keys share a
  lease key only if SHA-256 collides on them.\<close>

theorem lease_keys_separate:
  assumes "encode_key L ke m = Inr k" "lease_key ke' x = Inr l"
  shows "k \<noteq> l \<and> (lease_key ke'' y = Inr l \<longrightarrow> x = y \<or> sha256_collision x y)"
proof (intro conjI impI)
  note l = lease_key_shape(1) [OF assms(2)]
  show "k \<noteq> l" using assms by (rule data_key_not_lease)
  assume "lease_key ke'' y = Inr l"
  from lease_key_shape(1) [OF this] l have "base64url_digest x = base64url_digest y"
    using key_shape_tail(2) by (metis length_base64url_digest)
  then show "x = y \<or> sha256_collision x y" by (rule base64url_digest_same)
qed

subsection \<open>Isolation\<close>

text \<open>The members of a canonical body, whatever their order.\<close>

lemma norm_key_body:
  "norm_json (key_body ke m) = PDict [
     (PStr ''formatVersion'', PStr KEY_FORMAT_VERSION),
     (PStr ''logicalKey'', norm_json (km_logical_key m)),
     (PStr ''namespaceGeneration'', PInt (ke_namespace_generation ke)),
     (PStr ''resource'', norm_json (rr_dict (km_resource_ref m))),
     (PStr ''schemaFingerprint'', PStr (km_schema_fingerprint m)),
     (PStr ''scope'', norm_json (key_scope m))]"
  by (simp add: key_body_def)

lemma norm_key_scope:
  "norm_json (key_scope m) = PDict [
     (PStr ''labels'', norm_json (PDict (map (\<lambda>(k, v). (PStr k, v)) (sort_key fst (ctx_scope (km_context m)))))),
     (PStr ''tenant'', norm_json (ctx_tenant (km_context m)))]"
  by (simp add: key_scope_def)

text \<open>
  C23: if two encoders give one physical key for two materials, then the canonical bodies of the
  materials are one byte string, unless SHA-256 collides on them; and one canonical body means one
  tenant, one set of scope labels, one resource, one logical key, one schema fingerprint and one
  generation (for material without floating-point numbers, up to the order of object members).
\<close>

theorem key_isolation:
  assumes "lawful_json L" "encode_key L ke m = Inr k" "encode_key L ke' m' = Inr k"
    "canonical_json_bytes L (key_body ke m) = Inr b" "canonical_json_bytes L (key_body ke' m') = Inr b'"
    "\<not> sha256_collision b b'"
  shows "b = b' \<and>
    (float_free (key_body ke m) \<and> float_free (key_body ke' m') \<longrightarrow>
      norm_json (ctx_tenant (km_context m)) = norm_json (ctx_tenant (km_context m')) \<and>
      norm_json (key_scope m) = norm_json (key_scope m') \<and>
      norm_json (rr_dict (km_resource_ref m)) = norm_json (rr_dict (km_resource_ref m')) \<and>
      norm_json (km_logical_key m) = norm_json (km_logical_key m') \<and>
      km_schema_fingerprint m = km_schema_fingerprint m' \<and>
      ke_namespace_generation ke = ke_namespace_generation ke')"
proof -
  obtain t where k: "k = key_shape (ke_prefix ke) t CHR ''d'' (base64url_digest b)"
    using assms(2,4) by (auto elim: encode_key_digest)
  obtain t' where k': "k = key_shape (ke_prefix ke') t' CHR ''d'' (base64url_digest b')"
    using assms(3,5) by (auto elim: encode_key_digest)
  have "base64url_digest b = base64url_digest b'"
    using key_shape_tail(2) [OF _ _ trans [OF k [symmetric] k']] by simp
  with assms(6) have b: "b = b'" using base64url_digest_same by blast
  have "norm_json (key_body ke m) = norm_json (key_body ke' m')"
    if "float_free (key_body ke m)" "float_free (key_body ke' m')"
    using canonical_json.same_bytes_same_value [OF assms(1) [unfolded lawful_json_def] assms(4)] assms(5) b that by simp
  with b show ?thesis by (auto simp: norm_key_body norm_key_scope)
qed

subsection \<open>Hash slots\<close>

text \<open>
  The check accepts exactly the non-empty collections of keys in one hash slot and returns that
  slot, which is below 16384; the empty collection and a split one are rejected.
\<close>

theorem require_shared_hash_slot_exact:
  "(require_shared_hash_slot keys = Inr s \<longleftrightarrow> set (map hash_slot keys) = {s}) \<and> hash_slot k < 16384 \<and>
   require_shared_hash_slot [] = Inl (ValueError ''at least one key is required'') \<and>
   (hash_slot k = hash_slot k' \<or> require_shared_hash_slot (k # keys @ k' # keys') =
      Inl (ValueError ''multi-key atomic groups must share one Valkey hash slot''))"
proof (intro conjI)
  have one: "remdups xs = [s] \<longleftrightarrow> set xs = {s}" for xs and s :: nat
  proof
    assume "remdups xs = [s]"
    then show "set xs = {s}" using set_remdups [of xs] by simp
  next
    assume s: "set xs = {s}"
    then have "length (remdups xs) = 1" by (simp add: length_remdups_card_conv)
    then obtain y where "remdups xs = [y]" by (cases "remdups xs") auto
    with s show "remdups xs = [s]" using set_remdups [of xs] by simp
  qed
  show "require_shared_hash_slot keys = Inr s \<longleftrightarrow> set (map hash_slot keys) = {s}"
    using one [of "map hash_slot keys" s] by (auto simp: require_shared_hash_slot_def split: list.splits)
  show "hash_slot k < 16384" by (simp add: hash_slot_def)
  show "require_shared_hash_slot [] = Inl (ValueError ''at least one key is required'')"
    by (simp add: require_shared_hash_slot_def)
  show "hash_slot k = hash_slot k' \<or> require_shared_hash_slot (k # keys @ k' # keys') =
      Inl (ValueError ''multi-key atomic groups must share one Valkey hash slot'')"
  proof (cases "hash_slot k = hash_slot k'")
    case False
    then have "remdups (map hash_slot (k # keys @ k' # keys')) \<noteq> [s]" for s
      unfolding one by auto
    then show ?thesis
      by (auto simp: require_shared_hash_slot_def simp del: remdups.simps list.map split: list.split)
  qed simp
qed

text \<open>
  C24: the keys one encoder makes for members of one atomic group (one scope, one resource, one
  group) share a hash slot, whatever their logical keys and schemas, and the lease key of such a
  key is in that slot too.
\<close>

theorem atomic_group_slot:
  assumes "KeyEncoder ns g mx = Inr ke" "encode_key L ke m = Inr k" "encode_key L ke m' = Inr k'"
    "km_atomic_group m \<noteq> PNone" "km_atomic_group m' = km_atomic_group m"
    "km_context m' = km_context m" "km_resource_ref m' = km_resource_ref m" "lease_key ke k = Inr l"
  shows "require_shared_hash_slot [k, k', l] = Inr (hash_slot k)"
proof -
  note wf = wf_KeyEncoder(1) [OF assms(1)]
  have tb: "tag_body ke m' = tag_body ke m" by (simp add: tag_body_def key_scope_def assms)
  obtain t where t: "canonical_json_bytes L (tag_body ke m) = Inr t"
    using assms(2,4) by (auto elim: encode_key_shape)
  let ?t = "take 22 (base64url_digest t)"
  have k: "hash_tag k = Some ?t" "hash_tag k' = Some ?t"
    using encoded_tag [OF wf assms(2,4) t] encoded_tag [OF wf assms(3)] assms(4,5) t tb by simp_all
  have "?t \<noteq> []" using take_base64url(3) [of t] by (intro notI) (simp only: list.size zero_neq_numeral)
  then have "hash_tag l = Some ?t"
    using lease_key_shape(1) [OF assms(8)] k(1) prefix_no_brace [OF wf] take_base64url(2) [of 22 t]
    by (simp add: hash_tag_shape b64url_no_brace)
  with k show ?thesis by (simp add: require_shared_hash_slot_def hash_slot_def)
qed

subsection \<open>Examples\<close>

text \<open>Concrete material, for the examples that show the hypotheses above can hold.\<close>

definition sample_context :: op_context where
  "sample_context = \<lparr>ctx_tenant = PStr ''acme'', ctx_scope = [(''region'', PStr ''eu''), (''env'', PStr ''qa'')]\<rparr>"

definition swapped_context :: op_context where
  "swapped_context = \<lparr>ctx_tenant = PStr ''acme'', ctx_scope = [(''env'', PStr ''qa''), (''region'', PStr ''eu'')]\<rparr>"

definition sample_ref :: resource_ref where
  "sample_ref = \<lparr>rr_catalog = ''cache'', rr_canonical = ''cache/users'', rr_str = ''cache/users'',
     rr_dict = PDict [(PStr ''catalog'', PStr ''cache''), (PStr ''name'', PStr ''users'')]\<rparr>"

definition sample_material :: "string \<Rightarrow> pyval \<Rightarrow> key_material" where
  "sample_material key grp = \<lparr>km_context = sample_context, km_resource_ref = sample_ref,
     km_logical_key = PStr key, km_schema_fingerprint = sample_schema, km_atomic_group = grp\<rparr>"

definition sample_encoder :: "int \<Rightarrow> key_encoder" where
  "sample_encoder g = \<lparr>ke_namespace_generation = g, ke_maximum_key_bytes = 512,
     ke_prefix = ''mrvk:v1:'' @ take 16 (base64url_digest ''app'') @ '':g'' @ show_int g\<rparr>"

lemma sample_encoder_ok: "1 \<le> g \<Longrightarrow> KeyEncoder ''app'' (PInt g) 512 = Inr (sample_encoder g)"
  by (simp add: KeyEncoder_def sample_encoder_def utf8_encode_def)

lemma encode_key_total:
  assumes "wf_encoder ke" "ke_namespace_generation ke \<le> 2147483647" "107 \<le> ke_maximum_key_bytes ke"
    "canonical_json_bytes L (key_body ke m) = Inr b" "canonical_json_bytes L (tag_body ke m) = Inr t"
  shows "\<exists>k l. encode_key L ke m = Inr k \<and> lease_key ke k = Inr l"
proof -
  have "length (ke_prefix ke) \<le> 36" using assms length_prefix by blast
  then have "\<exists>k. encode_key L ke m = Inr k"
    using assms by (auto simp: encode_key_def guardE_def Let_def)
  then show ?thesis using lease_key_of_data_key [OF assms(1) _ assms(2,3)] by blast
qed

lemma sample_printable:
  assumes "is_ascii key" "grp = PNone \<or> grp = PStr ''g''" "1 \<le> g" "g \<le> 2147483647"
  shows "printable 100 (key_body (sample_encoder g) (sample_material key grp))"
    "printable 100 (tag_body (sample_encoder g) (sample_material key grp))"
proof -
  have "length (show_nat (nat g)) \<le> 10" using assms(4) by (intro length_show_nat) simp_all
  then have len: "length (show_nat (nat g)) \<le> 4300" by simp
  show "printable 100 (key_body (sample_encoder g) (sample_material key grp))"
    "printable 100 (tag_body (sample_encoder g) (sample_material key grp))"
    using len assms is_fingerprint_facts(2) [OF sample_schema_ok]
    by (auto simp: key_body_def tag_body_def key_scope_def sample_material_def sample_encoder_def sample_context_def
        sample_ref_def KEY_FORMAT_VERSION_def utf8_ok_ascii max_str_digits_def)
qed

lemma sample_key:
  assumes "is_ascii key" "grp = PNone \<or> grp = PStr ''g''" "1 \<le> g" "g \<le> 2147483647"
  obtains k l b where "encode_key ref_lib (sample_encoder g) (sample_material key grp) = Inr k"
    "lease_key (sample_encoder g) k = Inr l"
    "canonical_json_bytes ref_lib (key_body (sample_encoder g) (sample_material key grp)) = Inr b"
proof -
  have wf: "wf_encoder (sample_encoder g)"
    using wf_KeyEncoder(1) [OF sample_encoder_ok [OF assms(3)]] .
  obtain b t where bt:
    "canonical_json_bytes ref_lib (key_body (sample_encoder g) (sample_material key grp)) = Inr b"
    "canonical_json_bytes ref_lib (tag_body (sample_encoder g) (sample_material key grp)) = Inr t"
    using ref_json_ok [OF sample_printable(1) [OF assms]] ref_json_ok [OF sample_printable(2) [OF assms]]
    by (auto simp: ref_lib_def)
  have "ke_namespace_generation (sample_encoder g) \<le> 2147483647" "107 \<le> ke_maximum_key_bytes (sample_encoder g)"
    using assms(4) by (simp_all add: sample_encoder_def)
  from encode_key_total [OF wf this bt] bt(1) that show ?thesis by blast
qed

lemma sample_chars [simp]: "is_ascii ''u1''" "is_ascii ''u2''"
  by (simp_all add: is_ascii_def)

theorem encode_key_bounds_witness:
  "\<exists>k. encode_key ref_lib (sample_encoder 1) (sample_material ''u1'' PNone) = Inr k \<and> length k \<le> 82 \<and> int (length k) \<le> 512"
proof -
  obtain k where "encode_key ref_lib (sample_encoder 1) (sample_material ''u1'' PNone) = Inr k"
    by (rule sample_key [of "''u1''" PNone 1]) auto
  with encode_key_bounds [OF sample_encoder_ok _ this] show ?thesis by (simp add: sample_material_def)
qed

theorem generations_disjoint_witness:
  "\<exists>k. encode_key ref_lib (sample_encoder 1) (sample_material ''u1'' PNone) = Inr k \<and> \<not> adapter_key ref_lib (sample_encoder 2) k"
proof -
  obtain k where k: "encode_key ref_lib (sample_encoder 1) (sample_material ''u1'' PNone) = Inr k"
    by (rule sample_key [of "''u1''" PNone 1]) auto
  then have "adapter_key ref_lib (sample_encoder 1) k" by (auto simp: adapter_key_def)
  with k generations_disjoint [OF sample_encoder_ok sample_encoder_ok, of 1 2] show ?thesis by auto
qed

theorem lease_keys_separate_witness:
  "\<exists>k l. encode_key ref_lib (sample_encoder 1) (sample_material ''u1'' PNone) = Inr k \<and>
    lease_key (sample_encoder 1) k = Inr l \<and> k \<noteq> l"
proof -
  obtain k l where "encode_key ref_lib (sample_encoder 1) (sample_material ''u1'' PNone) = Inr k"
    "lease_key (sample_encoder 1) k = Inr l"
    by (rule sample_key [of "''u1''" PNone 1]) auto
  with lease_keys_separate [OF this] show ?thesis by auto
qed

theorem key_isolation_witness:
  "\<exists>k b. encode_key ref_lib (sample_encoder 1) (sample_material ''u1'' PNone) = Inr k \<and>
    encode_key ref_lib (sample_encoder 1) ((sample_material ''u1'' PNone)\<lparr>km_context := swapped_context\<rparr>) = Inr k \<and>
    canonical_json_bytes ref_lib (key_body (sample_encoder 1) (sample_material ''u1'' PNone)) = Inr b \<and>
    ctx_scope swapped_context = rev (ctx_scope sample_context) \<and>
    norm_json (key_scope (sample_material ''u1'' PNone)) =
      norm_json (key_scope ((sample_material ''u1'' PNone)\<lparr>km_context := swapped_context\<rparr>))"
proof -
  let ?m = "sample_material ''u1'' PNone"
  let ?m' = "?m\<lparr>km_context := swapped_context\<rparr>"
  obtain k b where k: "encode_key ref_lib (sample_encoder 1) ?m = Inr k"
    and b: "canonical_json_bytes ref_lib (key_body (sample_encoder 1) ?m) = Inr b"
    by (rule sample_key [of "''u1''" PNone 1]) auto
  have body: "key_body (sample_encoder 1) ?m' = key_body (sample_encoder 1) ?m"
    by (simp add: key_body_def key_scope_def sample_material_def sample_context_def swapped_context_def)
  then have k': "encode_key ref_lib (sample_encoder 1) ?m' = Inr k"
    using k by (simp add: encode_key_def sample_material_def)
  have ff: "float_free (key_body (sample_encoder 1) ?m)"
    by (simp add: key_body_def key_scope_def sample_material_def sample_encoder_def sample_context_def sample_ref_def)
  have "\<not> sha256_collision b b" by (simp add: sha256_collision_def)
  from key_isolation [OF lawful_ref_lib k k' b b [folded body] this] ff body k k' b
  show ?thesis by (auto simp: sample_context_def swapped_context_def)
qed

theorem atomic_group_slot_witness:
  "\<exists>k k' l. encode_key ref_lib (sample_encoder 1) (sample_material ''u1'' (PStr ''g'')) = Inr k \<and>
    encode_key ref_lib (sample_encoder 1) (sample_material ''u2'' (PStr ''g'')) = Inr k' \<and>
    lease_key (sample_encoder 1) k = Inr l \<and> require_shared_hash_slot [k, k', l] = Inr (hash_slot k)"
proof -
  obtain k l where k: "encode_key ref_lib (sample_encoder 1) (sample_material ''u1'' (PStr ''g'')) = Inr k"
    "lease_key (sample_encoder 1) k = Inr l"
    by (rule sample_key [of "''u1''" "PStr ''g''" 1]) auto
  obtain k' where k': "encode_key ref_lib (sample_encoder 1) (sample_material ''u2'' (PStr ''g'')) = Inr k'"
    by (rule sample_key [of "''u2''" "PStr ''g''" 1]) auto
  show ?thesis
    using atomic_group_slot [OF sample_encoder_ok k(1) k' _ _ _ _ k(2)] k k' by (simp add: sample_material_def)
qed

end
