(* ===== verification/Vk_Scripts.thy ===== *)
theory Vk_Scripts
  imports Vk_Canonical
begin

section \<open>The owned scripts and their digests\<close>

text \<open>
  The two Lua scripts of \<^verbatim>\<open>atomic\<close> and their SHA-1 names. The digests are computed in the logic:
  the scripts are known to the engine by these names only, so that the two names differ is what
  makes a call by name run the script that was meant.
\<close>

unbundle bit_operations_syntax

definition CAS_SCRIPT :: bytes where
  "CAS_SCRIPT = concat (map (\<lambda>line. line @ [CHR 0x0A]) [
     ''-- meridian-storage-valkey cas v1'',
     ''local current = redis.call('GET', KEYS[1])'',
     ''if not current then return -1 end'',
     ''if string.sub(current, 1, 6) ~= 'MRVK1|' then return -2 end'',
     ''if string.sub(current, 7, 77) ~= ARGV[1] then return 0 end'',
     ''redis.call('SET', KEYS[1], ARGV[2], 'PX', ARGV[3])'',
     ''return 1''])"

definition RELEASE_LEASE_SCRIPT :: bytes where
  "RELEASE_LEASE_SCRIPT = concat (map (\<lambda>line. line @ [CHR 0x0A]) [
     ''-- meridian-storage-valkey release lease v1'',
     ''local current = redis.call('GET', KEYS[1])'',
     ''if current and current == ARGV[1] then'',
     ''  return redis.call('DEL', KEYS[1])'',
     ''end'',
     ''return 0''])"

definition CAS_SCRIPT_DIGEST :: string where
  "CAS_SCRIPT_DIGEST = sha1_hex CAS_SCRIPT"

definition RELEASE_LEASE_SCRIPT_DIGEST :: string where
  "RELEASE_LEASE_SCRIPT_DIGEST = sha1_hex RELEASE_LEASE_SCRIPT"

subsection \<open>Evaluating SHA-1 by rewriting\<close>

text \<open>The schedule and the rounds with their data in the arguments, so that rewriting steps through them.\<close>

definition sha1_grow :: "nat \<Rightarrow> w32 list \<Rightarrow> w32 list" where
  "sha1_grow n ws = ((\<lambda>ws. sha1_next ws # ws) ^^ n) ws"

fun sha1_rounds :: "nat \<Rightarrow> sha1_state \<Rightarrow> w32 list \<Rightarrow> sha1_state" where
  "sha1_rounds t s [] = s"
| "sha1_rounds t s (w # ws) = sha1_rounds (t + 1) (sha1_round s (t, w)) ws"

lemma sha1_grow_simps:
  "sha1_grow 0 ws = ws"
  "sha1_grow (Suc n) (a0 # a1 # a2 # a3 # a4 # a5 # a6 # a7 # a8 # a9 # a10 # a11 # a12 # a13 # a14 # a15 # r) =
   sha1_grow n (rotl 1 (a2 XOR a7 XOR a13 XOR a15) # a0 # a1 # a2 # a3 # a4 # a5 # a6 # a7 # a8 # a9 # a10 # a11 # a12 # a13 # a14 # a15 # r)"
  "sha1_grow (numeral k) (a0 # a1 # a2 # a3 # a4 # a5 # a6 # a7 # a8 # a9 # a10 # a11 # a12 # a13 # a14 # a15 # r) =
   sha1_grow (pred_numeral k) (rotl 1 (a2 XOR a7 XOR a13 XOR a15) # a0 # a1 # a2 # a3 # a4 # a5 # a6 # a7 # a8 # a9 # a10 # a11 # a12 # a13 # a14 # a15 # r)"
  by (simp_all add: sha1_grow_def numeral_eq_Suc [of k] funpow_Suc_right sha1_next_def del: funpow.simps(2))

lemma length_sha1_grow: "length (sha1_grow n ws) = n + length ws"
proof -
  have "length (((\<lambda>ws. sha1_next ws # ws) ^^ n) ws) = n + length ws" by (induction n) auto
  then show ?thesis by (simp add: sha1_grow_def)
qed

lemma sha1_rounds_foldl: "foldl sha1_round s (zip [t..<t + length ws] ws) = sha1_rounds t s ws"
proof (induction ws arbitrary: t s)
  case (Cons w ws)
  from Cons.IH [where t = "Suc t"] show ?case by (simp add: upt_conv_Cons del: upt_Suc)
qed simp

lemma sha1_block_eval:
  assumes "sha1_grow 64 (rev block) = rws" "length block = 16" "rev rws = ws" "sha1_rounds 0 (a, b, c, d, e) ws = (a', b', c', d', e')"
    "(a + a', b + b', c + c', d + d', e + e') = s"
  shows "sha1_block (a, b, c, d, e) block = s"
proof -
  have "length ws = 80" using assms length_sha1_grow [of 64 "rev block"] by auto
  then have "foldl sha1_round (a, b, c, d, e) (zip [0..<80] (sha1_schedule block)) = sha1_rounds 0 (a, b, c, d, e) ws"
    using sha1_rounds_foldl [of _ 0 ws] assms by (simp add: sha1_schedule_def sha1_grow_def)
  with assms show ?thesis by simp
qed

text \<open>A rotation through the value of the word keeps the numerals of rewriting below \<open>2 ^ 32\<close>.\<close>

lemma rotl_nat:
  assumes "0 < n" "n < 32"
  shows "rotl n w = word_of_nat (unat w * 2 ^ n mod 4294967296 + unat w div 2 ^ (32 - n))"
proof -
  have "push_bit n w AND drop_bit (32 - n) w = 0"
    using assms by (intro bit_eqI) (auto simp: bit_simps dest!: bit_imp_le_length)
  then have "rotl n w = push_bit n w + drop_bit (32 - n) w"
    by (simp add: rotl_def disjunctive_add_eq_or)
  moreover have "push_bit n w = word_of_nat (unat w * 2 ^ n mod 4294967296)"
    by (intro word_unat_eq_iff [THEN iffD2])
      (simp add: unsigned_push_bit_eq take_bit_eq_mod unat_of_nat, simp add: push_bit_eq_mult)
  moreover have "unat w div 2 ^ (32 - n) < 4294967296"
    using order.strict_trans1 [OF div_le_dividend unsigned_less [of w]] by simp
  then have "drop_bit (32 - n) w = word_of_nat (unat w div 2 ^ (32 - n))"
    by (intro word_unat_eq_iff [THEN iffD2]) (simp add: unat_drop_bit_eq unat_of_nat, simp add: drop_bit_eq_div)
  ultimately show ?thesis by simp
qed

lemma unat_w32: "unat (numeral k :: w32) = numeral k mod 4294967296"
  by (simp add: unsigned_numeral take_bit_eq_mod)

lemmas sha1_eval = sha1_grow_simps rotl_nat [of "Suc 0"] rotl_nat [of 5] rotl_nat [of 30] unat_w32 sha1_f_def sha1_k_def

subsection \<open>The compression steps\<close>

lemma cas_schedule1:
  "sha1_grow 64 [673662789, 1667329132, 1684632366, 1025536613, 1701737504, 1668641394, 1667329056, 822766703,
     1634934902, 1702436963, 1986096235, 1634166061, 1937010546, 1767992877, 1701996900, 757932141] =
   [1323569804, 2638919000, 3383047133, 3344948102, 3900576402, 814137593, 2324581530, 968693170,
     3348152348, 519474021, 2258405376, 1125296492, 1940300568, 3214408954, 1697200815, 3454950369,
     1117005939, 1975752890, 274528612, 3757084815, 779634311, 1068813333, 283169024, 1746441517,
     1924018193, 3775327037, 2653647247, 2052461995, 1148075365, 1488785328, 2480531848,
     3322826249, 2681036079, 865153006, 914136071, 3068109570, 2369132300, 51837609, 4154031417,
     4013920185, 2874486197, 1749280940, 176228037, 4033784051, 3817750898, 1089177773, 1852499809,
     2058337303, 3154560833, 2249380928, 783250734, 3666530315, 1686483043, 2965309511, 2573205810,
     923694409, 10680410, 1723012141, 3953559227, 711227198, 2219551350, 2259188846, 738987188,
     576627202, 673662789, 1667329132, 1684632366, 1025536613, 1701737504, 1668641394, 1667329056,
     822766703, 1634934902, 1702436963, 1986096235, 1634166061, 1937010546, 1767992877, 1701996900,
     757932141]"
  by (simp add: sha1_eval)

lemma cas_rounds1:
  "sha1_rounds 0 (1732584193, 4023233417, 2562383102, 271733878, 3285377520)
   [757932141, 1701996900, 1767992877, 1937010546, 1634166061, 1986096235, 1702436963, 1634934902,
     822766703, 1667329056, 1668641394, 1701737504, 1025536613, 1684632366, 1667329132, 673662789,
     576627202, 738987188, 2259188846, 2219551350, 711227198, 3953559227, 1723012141, 10680410,
     923694409, 2573205810, 2965309511, 1686483043, 3666530315, 783250734, 2249380928, 3154560833,
     2058337303, 1852499809, 1089177773, 3817750898, 4033784051, 176228037, 1749280940, 2874486197,
     4013920185, 4154031417, 51837609, 2369132300, 3068109570, 914136071, 865153006, 2681036079,
     3322826249, 2480531848, 1488785328, 1148075365, 2052461995, 2653647247, 3775327037,
     1924018193, 1746441517, 283169024, 1068813333, 779634311, 3757084815, 274528612, 1975752890,
     1117005939, 3454950369, 1697200815, 3214408954, 1940300568, 1125296492, 2258405376, 519474021,
     3348152348, 968693170, 2324581530, 814137593, 3900576402, 3344948102, 3383047133, 2638919000,
     1323569804] =
   (1519525003, 3428410941, 1167788011, 1264155927, 3117235663)"
  by (simp add: sha1_eval)

lemma cas_block1:
  "sha1_block (1732584193, 4023233417, 2562383102, 271733878, 3285377520)
   [757932141, 1701996900, 1767992877, 1937010546, 1634166061, 1986096235, 1702436963, 1634934902,
     822766703, 1667329056, 1668641394, 1701737504, 1025536613, 1684632366, 1667329132, 673662789] =
   (3252109196, 3156677062, 3730171113, 1535889805, 2107645887)"
  by (rule sha1_block_eval [OF _ _ _ cas_rounds1]) (simp_all add: cas_schedule1)

lemma cas_schedule2:
  "sha1_grow 64 [677606770, 779318626, 1919512167, 1713402740, 1852050025, 758194277, 1970433568, 544367988,
     1952998766, 1701737504, 1668641394, 1852797984, 174679584, 1529961769, 1262836051, 1411853344] =
   [2292885704, 2143170211, 391687483, 1499362023, 3886338366, 738279710, 5831633, 12195817,
     2764245496, 733639599, 3650155825, 4233886499, 280048073, 1765704370, 3116270495, 1791193962,
     7777508, 419612330, 2118864470, 1236205355, 496107753, 2454967534, 263884081, 2707249473,
     2717277706, 1026791413, 1514924150, 856561360, 2772566801, 2511613827, 1864698181, 2143519009,
     2269576726, 1407415656, 1887135141, 3414200604, 4205657985, 3068857058, 795273129, 1137561365,
     3419742314, 737505942, 54500983, 2530730407, 1425023327, 1839202962, 2682730300, 3791087794,
     3692165441, 425631505, 3522748166, 3308245393, 999534220, 942634520, 405969138, 2063689559,
     924717089, 592797778, 181994126, 3002496556, 2059785247, 1612249148, 878332002, 3122328628,
     677606770, 779318626, 1919512167, 1713402740, 1852050025, 758194277, 1970433568, 544367988,
     1952998766, 1701737504, 1668641394, 1852797984, 174679584, 1529961769, 1262836051, 1411853344]"
  by (simp add: sha1_eval)

lemma cas_rounds2:
  "sha1_rounds 0 (3252109196, 3156677062, 3730171113, 1535889805, 2107645887)
   [1411853344, 1262836051, 1529961769, 174679584, 1852797984, 1668641394, 1701737504, 1952998766,
     544367988, 1970433568, 758194277, 1852050025, 1713402740, 1919512167, 779318626, 677606770,
     3122328628, 878332002, 1612249148, 2059785247, 3002496556, 181994126, 592797778, 924717089,
     2063689559, 405969138, 942634520, 999534220, 3308245393, 3522748166, 425631505, 3692165441,
     3791087794, 2682730300, 1839202962, 1425023327, 2530730407, 54500983, 737505942, 3419742314,
     1137561365, 795273129, 3068857058, 4205657985, 3414200604, 1887135141, 1407415656, 2269576726,
     2143519009, 1864698181, 2511613827, 2772566801, 856561360, 1514924150, 1026791413, 2717277706,
     2707249473, 263884081, 2454967534, 496107753, 1236205355, 2118864470, 419612330, 7777508,
     1791193962, 3116270495, 1765704370, 280048073, 4233886499, 3650155825, 733639599, 2764245496,
     12195817, 5831633, 738279710, 3886338366, 1499362023, 391687483, 2143170211, 2292885704] =
   (2392793528, 10387236, 2933364056, 234243728, 2626163909)"
  by (simp add: sha1_eval)

lemma cas_block2:
  "sha1_block (3252109196, 3156677062, 3730171113, 1535889805, 2107645887)
   [1411853344, 1262836051, 1529961769, 174679584, 1852797984, 1668641394, 1701737504, 1952998766,
     544367988, 1970433568, 758194277, 1852050025, 1713402740, 1919512167, 779318626, 677606770] =
   (1349935428, 3167064298, 2368567873, 1770133533, 438842500)"
  by (rule sha1_block_eval [OF _ _ _ cas_rounds2]) (simp_all add: cas_schedule2)

lemma cas_schedule3:
  "sha1_grow 64 [1919250036, 677606770, 779318626, 1919512167, 1713402740, 1852050025, 758259813, 1970433568,
     544367988, 1952998766, 830220064, 1297241675, 2117935143, 540420384, 740307244, 1919250036] =
   [764905572, 1025035374, 169738955, 1218407633, 831435755, 924065669, 1639534283, 500563656,
     3123820877, 4256037280, 1666747878, 3588422736, 2684437185, 3976962897, 1429266724,
     4010689433, 2975199370, 1033990117, 1612080012, 766864150, 1157990000, 3775233736, 1564752273,
     1673088979, 3840666093, 2161090087, 1482321859, 2461755965, 575736650, 879637975, 1747725740,
     3225827396, 4191704850, 2606536673, 1888253919, 1115255238, 333901950, 3799913112, 1437032253,
     3418284790, 3434190564, 3000283470, 612295437, 1373395002, 3874926226, 3494709083, 471560344,
     190615120, 3997154355, 1740670096, 2423879241, 1116158836, 3032629778, 793027463, 2967350362,
     1706672033, 1768227617, 3185954052, 3144549301, 3415714549, 2005637310, 3804903148,
     2929231928, 312784940, 1919250036, 677606770, 779318626, 1919512167, 1713402740, 1852050025,
     758259813, 1970433568, 544367988, 1952998766, 830220064, 1297241675, 2117935143, 540420384,
     740307244, 1919250036]"
  by (simp add: sha1_eval)

lemma cas_rounds3:
  "sha1_rounds 0 (1349935428, 3167064298, 2368567873, 1770133533, 438842500)
   [1919250036, 740307244, 540420384, 2117935143, 1297241675, 830220064, 1952998766, 544367988,
     1970433568, 758259813, 1852050025, 1713402740, 1919512167, 779318626, 677606770, 1919250036,
     312784940, 2929231928, 3804903148, 2005637310, 3415714549, 3144549301, 3185954052, 1768227617,
     1706672033, 2967350362, 793027463, 3032629778, 1116158836, 2423879241, 1740670096, 3997154355,
     190615120, 471560344, 3494709083, 3874926226, 1373395002, 612295437, 3000283470, 3434190564,
     3418284790, 1437032253, 3799913112, 333901950, 1115255238, 1888253919, 2606536673, 4191704850,
     3225827396, 1747725740, 879637975, 575736650, 2461755965, 1482321859, 2161090087, 3840666093,
     1673088979, 1564752273, 3775233736, 1157990000, 766864150, 1612080012, 1033990117, 2975199370,
     4010689433, 1429266724, 3976962897, 2684437185, 3588422736, 1666747878, 4256037280,
     3123820877, 500563656, 1639534283, 924065669, 831435755, 1218407633, 169738955, 1025035374,
     764905572] =
   (3384456971, 95286081, 4157882136, 1950111011, 446131968)"
  by (simp add: sha1_eval)

lemma cas_block3:
  "sha1_block (1349935428, 3167064298, 2368567873, 1770133533, 438842500)
   [1919250036, 740307244, 540420384, 2117935143, 1297241675, 830220064, 1952998766, 544367988,
     1970433568, 758259813, 1852050025, 1713402740, 1919512167, 779318626, 677606770, 1919250036] =
   (439425103, 3262350379, 2231482713, 3720244544, 884974468)"
  by (rule sha1_block_eval [OF _ _ _ cas_rounds3]) (simp_all add: cas_schedule3)

lemma cas_schedule4:
  "sha1_grow 64 [1529961772, 1262836051, 1411853344, 673665861, 1667329132, 1684632366, 1678406245, 807429486,
     1970433568, 544367988, 1952998766, 1529961760, 1095911254, 545144096, 540489513, 740308780] =
   [1855168025, 2108532095, 2730918963, 3427760660, 3453668281, 3045332724, 1078429303, 1721385657,
     3888810283, 2821950437, 3684330369, 1616340201, 1080674058, 3107314746, 4020655708,
     4074526569, 1936353903, 702793098, 3424081155, 1876204062, 201962860, 1810482293, 3955207150,
     4058175937, 191357437, 1282481843, 2475187460, 2083020933, 1298750596, 942743682, 4175829454,
     4239034356, 635459354, 2820919022, 998925546, 140396682, 2164603673, 2398907343, 1078847891,
     422567391, 2620796658, 1516093676, 3595125784, 351379946, 2370983607, 2750745982, 424639789,
     4278581169, 2681680088, 1884089139, 3668389242, 551520015, 2388147102, 3630338404, 1835823766,
     2109328418, 2823943389, 2911474128, 3123148501, 2657204999, 231969185, 2284755972, 2622797458,
     3501360772, 1529961772, 1262836051, 1411853344, 673665861, 1667329132, 1684632366, 1678406245,
     807429486, 1970433568, 544367988, 1952998766, 1529961760, 1095911254, 545144096, 540489513,
     740308780]"
  by (simp add: sha1_eval)

lemma cas_rounds4:
  "sha1_rounds 0 (439425103, 3262350379, 2231482713, 3720244544, 884974468)
   [740308780, 540489513, 545144096, 1095911254, 1529961760, 1952998766, 544367988, 1970433568,
     807429486, 1678406245, 1684632366, 1667329132, 673665861, 1411853344, 1262836051, 1529961772,
     3501360772, 2622797458, 2284755972, 231969185, 2657204999, 3123148501, 2911474128, 2823943389,
     2109328418, 1835823766, 3630338404, 2388147102, 551520015, 3668389242, 1884089139, 2681680088,
     4278581169, 424639789, 2750745982, 2370983607, 351379946, 3595125784, 1516093676, 2620796658,
     422567391, 1078847891, 2398907343, 2164603673, 140396682, 998925546, 2820919022, 635459354,
     4239034356, 4175829454, 942743682, 1298750596, 2083020933, 2475187460, 1282481843, 191357437,
     4058175937, 3955207150, 1810482293, 201962860, 1876204062, 3424081155, 702793098, 1936353903,
     4074526569, 4020655708, 3107314746, 1080674058, 1616340201, 3684330369, 2821950437,
     3888810283, 1721385657, 1078429303, 3045332724, 3453668281, 3427760660, 2730918963,
     2108532095, 1855168025] =
   (3328556790, 1832564591, 3026409439, 1072883679, 2432414923)"
  by (simp add: sha1_eval)

lemma cas_block4:
  "sha1_block (439425103, 3262350379, 2231482713, 3720244544, 884974468)
   [740308780, 540489513, 545144096, 1095911254, 1529961760, 1952998766, 544367988, 1970433568,
     807429486, 1678406245, 1684632366, 1667329132, 673665861, 1411853344, 1262836051, 1529961772] =
   (3767981893, 799947674, 962924856, 498160927, 3317389391)"
  by (rule sha1_block_eval [OF _ _ _ cas_rounds4]) (simp_all add: cas_schedule4)

lemma cas_schedule5:
  "sha1_grow 64 [2320, 0, 0, 0, 0, 0, 0, 822771712, 1970433568, 175269236, 1530092841, 1095911254, 1478962208,
     740304720, 1448817245, 541151815] =
   [241251995, 138539527, 2550990497, 2502968575, 3424692243, 2348858152, 305387722, 2671367618,
     250931488, 3115092171, 2490099112, 246038299, 176561528, 156344880, 20568707, 3918839123,
     500034577, 406348936, 3382718913, 3459883302, 3121589618, 2409412514, 193139551, 3187606968,
     530494661, 1939290157, 2505758176, 1002593285, 3280128893, 2906379950, 1353011691, 766426238,
     266646016, 3895073637, 4059220130, 3212281004, 3532181726, 1243397398, 1954230455, 2887210580,
     3482485968, 1047796314, 3656839212, 1279779103, 3339843890, 1596065118, 4078074389, 336643479,
     2214929257, 217645729, 1863715330, 1803424095, 1834274059, 3737177690, 437204255, 1160597707,
     3045373185, 2449450613, 3914056267, 2947562928, 4085724750, 3672429100, 486030586, 2060970542,
     2320, 0, 0, 0, 0, 0, 0, 822771712, 1970433568, 175269236, 1530092841, 1095911254, 1478962208,
     740304720, 1448817245, 541151815]"
  by (simp add: sha1_eval)

lemma cas_rounds5:
  "sha1_rounds 0 (3767981893, 799947674, 962924856, 498160927, 3317389391)
   [541151815, 1448817245, 740304720, 1478962208, 1095911254, 1530092841, 175269236, 1970433568,
     822771712, 0, 0, 0, 0, 0, 0, 2320, 2060970542, 486030586, 3672429100, 4085724750, 2947562928,
     3914056267, 2449450613, 3045373185, 1160597707, 437204255, 3737177690, 1834274059, 1803424095,
     1863715330, 217645729, 2214929257, 336643479, 4078074389, 1596065118, 3339843890, 1279779103,
     3656839212, 1047796314, 3482485968, 2887210580, 1954230455, 1243397398, 3532181726,
     3212281004, 4059220130, 3895073637, 266646016, 766426238, 1353011691, 2906379950, 3280128893,
     1002593285, 2505758176, 1939290157, 530494661, 3187606968, 193139551, 2409412514, 3121589618,
     3459883302, 3382718913, 406348936, 500034577, 3918839123, 20568707, 156344880, 176561528,
     246038299, 2490099112, 3115092171, 250931488, 2671367618, 305387722, 2348858152, 3424692243,
     2502968575, 2550990497, 138539527, 241251995] =
   (1538752805, 2091609086, 1359164175, 1252571418, 4058820300)"
  by (simp add: sha1_eval)

lemma cas_block5:
  "sha1_block (3767981893, 799947674, 962924856, 498160927, 3317389391)
   [541151815, 1448817245, 740304720, 1478962208, 1095911254, 1530092841, 175269236, 1970433568,
     822771712, 0, 0, 0, 0, 0, 0, 2320] =
   (1011767402, 2891556760, 2322089031, 1750732345, 3081242395)"
  by (rule sha1_block_eval [OF _ _ _ cas_rounds5]) (simp_all add: cas_schedule5)

lemma release_schedule1:
  "sha1_grow 64 [1919247465, 1948269856, 1920099694, 1814061941, 1819239265, 544616714, 1700885349, 1936007276,
     1701602657, 1702436978, 1986096235, 1634166061, 1937010546, 1767992877, 1701996900, 757932141] =
   [1548090685, 3446992653, 3083049965, 3216871820, 1176618690, 3439956252, 1273497092, 4065745310,
     4207060105, 3401328202, 632574635, 1806264218, 1846587192, 1415980973, 427529574, 4218380042,
     4062600957, 2437466116, 3246018748, 4007092572, 2116830587, 653732598, 2283795797, 2164722584,
     3975257718, 453083009, 3946299442, 3648600182, 1501335007, 2811977643, 1284930109, 2589043466,
     3080956521, 3084449266, 450783475, 2446690431, 2108935177, 3385122009, 3995808543, 4162925101,
     4136201787, 2600859072, 1045936506, 721066937, 1963694230, 2270184156, 2327012197, 679988615,
     910053397, 2514325175, 1287782863, 2582045230, 2133937520, 215851173, 2576499290, 3860680014,
     2115124971, 1263116687, 2863374661, 3445714200, 3348688377, 3022699718, 244224166, 2327189124,
     1919247465, 1948269856, 1920099694, 1814061941, 1819239265, 544616714, 1700885349, 1936007276,
     1701602657, 1702436978, 1986096235, 1634166061, 1937010546, 1767992877, 1701996900, 757932141]"
  by (simp add: sha1_eval)

lemma release_rounds1:
  "sha1_rounds 0 (1732584193, 4023233417, 2562383102, 271733878, 3285377520)
   [757932141, 1701996900, 1767992877, 1937010546, 1634166061, 1986096235, 1702436978, 1701602657,
     1936007276, 1700885349, 544616714, 1819239265, 1814061941, 1920099694, 1948269856, 1919247465,
     2327189124, 244224166, 3022699718, 3348688377, 3445714200, 2863374661, 1263116687, 2115124971,
     3860680014, 2576499290, 215851173, 2133937520, 2582045230, 1287782863, 2514325175, 910053397,
     679988615, 2327012197, 2270184156, 1963694230, 721066937, 1045936506, 2600859072, 4136201787,
     4162925101, 3995808543, 3385122009, 2108935177, 2446690431, 450783475, 3084449266, 3080956521,
     2589043466, 1284930109, 2811977643, 1501335007, 3648600182, 3946299442, 453083009, 3975257718,
     2164722584, 2283795797, 653732598, 2116830587, 4007092572, 3246018748, 2437466116, 4062600957,
     4218380042, 427529574, 1415980973, 1846587192, 1806264218, 632574635, 3401328202, 4207060105,
     4065745310, 1273497092, 3439956252, 1176618690, 3216871820, 3083049965, 3446992653, 1548090685] =
   (2364167663, 3200106854, 4286537351, 1471623000, 2917262933)"
  by (simp add: sha1_eval)

lemma release_block1:
  "sha1_block (1732584193, 4023233417, 2562383102, 271733878, 3285377520)
   [757932141, 1701996900, 1767992877, 1937010546, 1634166061, 1986096235, 1702436978, 1701602657,
     1936007276, 1700885349, 544616714, 1819239265, 1814061941, 1920099694, 1948269856, 1919247465] =
   (4096751856, 2928372975, 2553953157, 1743356878, 1907673157)"
  by (rule sha1_block_eval [OF _ _ _ release_rounds1]) (simp_all add: release_schedule1)

lemma release_schedule2:
  "sha1_grow 64 [1846157344, 544499813, 1448816989, 541151815, 1948269885, 1920099694, 1679844213, 1948279150,
     1920099694, 1713398645, 1562970729, 1498635057, 740313925, 1195725863, 1819027495, 1932419937] =
   [769705033, 984131145, 125743762, 3037640282, 3782362190, 2987323143, 3354465648, 3776901755,
     3597426720, 777646814, 1151753807, 3392581565, 2175543737, 1294850831, 1119227849, 2663898421,
     3072637847, 3434625153, 1110659990, 2616777057, 1379445363, 3653113293, 1563418076,
     4082167690, 1259076070, 2842167261, 3863371352, 2503837355, 3933158850, 1563542902,
     3668172667, 590452720, 3519193655, 1044194846, 3475193961, 1003688409, 2130757400, 3241551791,
     576516432, 2112461250, 1126574399, 2098168304, 2719449868, 1457622023, 2333166853, 1754131236,
     2049013238, 3420453239, 3929349131, 3603836048, 1854216348, 1067112747, 2818420695,
     4104784103, 2986156921, 2744565373, 2897913834, 3234733840, 4223243732, 772109774, 1377002998,
     81564848, 137416932, 740347626, 1846157344, 544499813, 1448816989, 541151815, 1948269885,
     1920099694, 1679844213, 1948279150, 1920099694, 1713398645, 1562970729, 1498635057, 740313925,
     1195725863, 1819027495, 1932419937]"
  by (simp add: sha1_eval)

lemma release_rounds2:
  "sha1_rounds 0 (4096751856, 2928372975, 2553953157, 1743356878, 1907673157)
   [1932419937, 1819027495, 1195725863, 740313925, 1498635057, 1562970729, 1713398645, 1920099694,
     1948279150, 1679844213, 1920099694, 1948269885, 541151815, 1448816989, 544499813, 1846157344,
     740347626, 137416932, 81564848, 1377002998, 772109774, 4223243732, 3234733840, 2897913834,
     2744565373, 2986156921, 4104784103, 2818420695, 1067112747, 1854216348, 3603836048,
     3929349131, 3420453239, 2049013238, 1754131236, 2333166853, 1457622023, 2719449868,
     2098168304, 1126574399, 2112461250, 576516432, 3241551791, 2130757400, 1003688409, 3475193961,
     1044194846, 3519193655, 590452720, 3668172667, 1563542902, 3933158850, 2503837355, 3863371352,
     2842167261, 1259076070, 4082167690, 1563418076, 3653113293, 1379445363, 2616777057,
     1110659990, 3434625153, 3072637847, 2663898421, 1119227849, 1294850831, 2175543737,
     3392581565, 1151753807, 777646814, 3597426720, 3776901755, 3354465648, 2987323143, 3782362190,
     3037640282, 125743762, 984131145, 769705033] =
   (1293633087, 1985370465, 121161987, 869519877, 1320084855)"
  by (simp add: sha1_eval)

lemma release_block2:
  "sha1_block (4096751856, 2928372975, 2553953157, 1743356878, 1907673157)
   [1932419937, 1819027495, 1195725863, 740313925, 1498635057, 1562970729, 1713398645, 1920099694,
     1948279150, 1679844213, 1920099694, 1948269885, 541151815, 1448816989, 544499813, 1846157344] =
   (1095417647, 618776144, 2675115144, 2612876755, 3227758012)"
  by (rule sha1_block_eval [OF _ _ _ release_rounds2]) (simp_all add: release_schedule2)

lemma release_schedule3:
  "sha1_grow 64 [1400, 0, 0, 0, 540019328, 1953854062, 1678406245, 688547182, 1398485341, 541803865, 1162618668,
     1814570820, 778264940, 1701079411, 1919819890, 1919251573] =
   [1051258885, 2147894455, 3083078042, 2840765713, 2925842518, 85133835, 3106612757, 1248032777,
     2797459443, 2477679777, 1885909321, 943701841, 2135045546, 2459118228, 3667151113, 1245791331,
     1244611561, 3079197391, 1689713766, 3795130627, 111532526, 1418879329, 2466932556, 3414829135,
     843345933, 3398958458, 2086010459, 1848210136, 252737795, 970835226, 3336103940, 868332290,
     3015581950, 607649521, 2837627383, 672032740, 1860861004, 2313085507, 723540628, 596622141,
     1872048308, 1843642994, 1094765428, 3022124286, 2615359675, 2460996814, 4153993436, 31618949,
     3923554291, 2431661763, 4124304959, 469150555, 2060082079, 572734976, 4112604283, 4081475439,
     2669059884, 3466899502, 3637168231, 2027555286, 1846769696, 4201804354, 1879992054,
     2081878224, 1400, 0, 0, 0, 540019328, 1953854062, 1678406245, 688547182, 1398485341,
     541803865, 1162618668, 1814570820, 778264940, 1701079411, 1919819890, 1919251573]"
  by (simp add: sha1_eval)

lemma release_rounds3:
  "sha1_rounds 0 (1095417647, 618776144, 2675115144, 2612876755, 3227758012)
   [1919251573, 1919819890, 1701079411, 778264940, 1814570820, 1162618668, 541803865, 1398485341,
     688547182, 1678406245, 1953854062, 540019328, 0, 0, 0, 1400, 2081878224, 1879992054,
     4201804354, 1846769696, 2027555286, 3637168231, 3466899502, 2669059884, 4081475439,
     4112604283, 572734976, 2060082079, 469150555, 4124304959, 2431661763, 3923554291, 31618949,
     4153993436, 2460996814, 2615359675, 3022124286, 1094765428, 1843642994, 1872048308, 596622141,
     723540628, 2313085507, 1860861004, 672032740, 2837627383, 607649521, 3015581950, 868332290,
     3336103940, 970835226, 252737795, 1848210136, 2086010459, 3398958458, 843345933, 3414829135,
     2466932556, 1418879329, 111532526, 3795130627, 1689713766, 3079197391, 1244611561, 1245791331,
     3667151113, 2459118228, 2135045546, 943701841, 1885909321, 2477679777, 2797459443, 1248032777,
     3106612757, 85133835, 2925842518, 2840765713, 3083078042, 2147894455, 1051258885] =
   (51074707, 1812694741, 3669045750, 2254915472, 857186746)"
  by (simp add: sha1_eval)

lemma release_block3:
  "sha1_block (1095417647, 618776144, 2675115144, 2612876755, 3227758012)
   [1919251573, 1919819890, 1701079411, 778264940, 1814570820, 1162618668, 541803865, 1398485341,
     688547182, 1678406245, 1953854062, 540019328, 0, 0, 0, 1400] =
   (1146492354, 2431470885, 2049193598, 572824931, 4084944758)"
  by (rule sha1_block_eval [OF _ _ _ release_rounds3]) (simp_all add: release_schedule3)

subsection \<open>The digests\<close>

lemma unroll:
  "replicate (numeral k) x = x # replicate (pred_numeral k) x"
  "blocks16 (numeral k) ws = take 16 ws # blocks16 (pred_numeral k) (drop 16 ws)"
  by (simp_all add: numeral_eq_Suc [of k])

lemma cas_blocks:
  "sha_blocks CAS_SCRIPT = [
   [757932141, 1701996900, 1767992877, 1937010546, 1634166061, 1986096235, 1702436963, 1634934902,
     822766703, 1667329056, 1668641394, 1701737504, 1025536613, 1684632366, 1667329132, 673662789],
   [1411853344, 1262836051, 1529961769, 174679584, 1852797984, 1668641394, 1701737504, 1952998766,
     544367988, 1970433568, 758194277, 1852050025, 1713402740, 1919512167, 779318626, 677606770],
   [1919250036, 740307244, 540420384, 2117935143, 1297241675, 830220064, 1952998766, 544367988,
     1970433568, 758259813, 1852050025, 1713402740, 1919512167, 779318626, 677606770, 1919250036],
   [740308780, 540489513, 545144096, 1095911254, 1529961760, 1952998766, 544367988, 1970433568,
     807429486, 1678406245, 1684632366, 1667329132, 673665861, 1411853344, 1262836051, 1529961772],
   [541151815, 1448817245, 740304720, 1478962208, 1095911254, 1530092841, 175269236, 1970433568,
     822771712, 0, 0, 0, 0, 0, 0, 2320]]"
  by (simp add: sha_blocks_def sha_pad_def CAS_SCRIPT_def unroll)

lemma cas_digest: "hexdigest (sha1 CAS_SCRIPT) = ''3c4e586aac59a7988a684447685a0e39b7a8071b''"
  by (simp add: sha1_def cas_blocks cas_block1 cas_block2 cas_block3 cas_block4 cas_block5 be_bytes_def hexdigest_def digit_char_def unat_w32 unsigned_drop_bit_eq drop_bit_eq_div del: sha1_block.simps,
      simp add: char_of_def bit_0)

lemma release_blocks:
  "sha_blocks RELEASE_LEASE_SCRIPT = [
   [757932141, 1701996900, 1767992877, 1937010546, 1634166061, 1986096235, 1702436978, 1701602657,
     1936007276, 1700885349, 544616714, 1819239265, 1814061941, 1920099694, 1948269856, 1919247465],
   [1932419937, 1819027495, 1195725863, 740313925, 1498635057, 1562970729, 1713398645, 1920099694,
     1948279150, 1679844213, 1920099694, 1948269885, 541151815, 1448816989, 544499813, 1846157344],
   [1919251573, 1919819890, 1701079411, 778264940, 1814570820, 1162618668, 541803865, 1398485341,
     688547182, 1678406245, 1953854062, 540019328, 0, 0, 0, 1400]]"
  by (simp add: sha_blocks_def sha_pad_def RELEASE_LEASE_SCRIPT_def unroll)

lemma release_digest: "hexdigest (sha1 RELEASE_LEASE_SCRIPT) = ''445615c290ed4d257a24367e22249d63f37b4f76''"
  by (simp add: sha1_def release_blocks release_block1 release_block2 release_block3 be_bytes_def hexdigest_def digit_char_def unat_w32 unsigned_drop_bit_eq drop_bit_eq_div del: sha1_block.simps,
      simp add: char_of_def bit_0)

lemma script_names_differ: "hexdigest (sha1 CAS_SCRIPT) \<noteq> hexdigest (sha1 RELEASE_LEASE_SCRIPT)"
  by (simp add: cas_digest release_digest)

text \<open>
  The digests the adapter declares for its two scripts, which its capability manifest publishes
  and by which it calls them, are the ones of the published conformance vectors, and they differ.
\<close>

theorem script_digests:
  "CAS_SCRIPT_DIGEST = ''sha1:3c4e586aac59a7988a684447685a0e39b7a8071b'' \<and>
   RELEASE_LEASE_SCRIPT_DIGEST = ''sha1:445615c290ed4d257a24367e22249d63f37b4f76'' \<and>
   CAS_SCRIPT_DIGEST \<noteq> RELEASE_LEASE_SCRIPT_DIGEST"
  by (simp add: CAS_SCRIPT_DIGEST_def RELEASE_LEASE_SCRIPT_DIGEST_def sha1_hex_def cas_digest release_digest)

end
