(* ===== verification/Vk_Atomic.thy ===== *)
theory Vk_Atomic
  imports Vk_Engine Vk_Key Vk_Scripts
begin

section \<open>Atomic primitives\<close>

text \<open>
  The module \<^verbatim>\<open>atomic\<close>: the execution of an owned script by its digest with one reload, conditional
  writes, leases, and the optimistic increment. The client is any client: what an engine answers is
  interpreted, not assumed.
\<close>

record cas_result =
  swapped :: bool
  missing :: bool
  corrupted :: bool

definition CompareAndSetResult :: "bool \<Rightarrow> bool \<Rightarrow> bool \<Rightarrow> cas_result" where
  "CompareAndSetResult s m c = \<lparr>swapped = s, missing = m, corrupted = c\<rparr>"

subsection \<open>Scripts\<close>

definition reload_script :: "'s client \<Rightarrow> bytes \<Rightarrow> string \<Rightarrow> ('s, unit) py" where
  "reload_script C script sha =
     bindM (c_script_load C script) (\<lambda>loaded.
     bindM (liftM (case loaded of PBytes b \<Rightarrow> bindE (ascii_decode b) (\<lambda>s. Inr (PStr s)) | _ \<Rightarrow> Inr loaded)) (\<lambda>loaded.
     if loaded \<noteq> PStr sha then raiseM (RuntimeError ''Valkey loaded a script under an unexpected digest'')
     else returnM ()))"

definition eval_script :: "'s client \<Rightarrow> bytes \<Rightarrow> string \<Rightarrow> nat \<Rightarrow> pyval list \<Rightarrow> ('s, pyval) py" where
  "eval_script C script declared_digest numkeys arguments =
     (let sha = removeprefix ''sha1:'' declared_digest in
      catchM (c_evalsha C sha numkeys arguments) (\<lambda>e. has_vclass e VNoScriptError)
        (\<lambda>_. thenM (reload_script C script sha) (c_evalsha C sha numkeys arguments)))"

subsection \<open>Conditional writes and leases\<close>

definition atomic_put_if_absent :: "'s client \<Rightarrow> bytes \<Rightarrow> bytes \<Rightarrow> int \<Rightarrow> ('s, bool) py" where
  "atomic_put_if_absent C key envelope ttl_ms =
     bindM (c_set C key envelope True ttl_ms) (\<lambda>r. returnM (truthy r))"

definition cas_outcome :: "pyval \<Rightarrow> cas_result" where
  "cas_outcome raw =
     (if py_eq_int raw 1 then CompareAndSetResult True False False
      else if py_eq_int raw (- 1) then CompareAndSetResult False True False
      else if py_eq_int raw (- 2) then CompareAndSetResult False False True
      else CompareAndSetResult False False False)"

definition atomic_compare_and_set :: "'s client \<Rightarrow> bytes \<Rightarrow> string \<Rightarrow> bytes \<Rightarrow> int \<Rightarrow> ('s, cas_result) py" where
  "atomic_compare_and_set C key expected_envelope_version envelope ttl_ms =
     bindM (eval_script C CAS_SCRIPT CAS_SCRIPT_DIGEST 1
       [PBytes key, PStr expected_envelope_version, PBytes envelope, PStr (show_int ttl_ms)]) (\<lambda>raw.
     bindM (liftM (case raw of PBytes b \<Rightarrow> bindE (py_int10 b) (\<lambda>i. Inr (PInt i)) | _ \<Rightarrow> Inr raw)) (\<lambda>raw.
     returnM (cas_outcome raw)))"

definition acquire_lease :: "'s client \<Rightarrow> bytes \<Rightarrow> bytes \<Rightarrow> int \<Rightarrow> ('s, bool) py" where
  "acquire_lease C key token ms = bindM (c_set C key token True ms) (\<lambda>r. returnM (truthy r))"

definition release_lease :: "'s client \<Rightarrow> bytes \<Rightarrow> bytes \<Rightarrow> ('s, bool) py" where
  "release_lease C key token =
     bindM (eval_script C RELEASE_LEASE_SCRIPT RELEASE_LEASE_SCRIPT_DIGEST 1 [PBytes key, PBytes token])
       (\<lambda>r. returnM (truthy r))"

definition batch_get :: "'s client \<Rightarrow> bytes list \<Rightarrow> bool \<Rightarrow> ('s, pyval list) py" where
  "batch_get C keys require_atomic_slot =
     thenM (if require_atomic_slot then bindM (liftM (require_shared_hash_slot keys)) (\<lambda>_. returnM ()) else returnM ())
       (c_mget C keys)"

subsection \<open>The optimistic increment\<close>

definition watch_error :: "string \<Rightarrow> exn" where
  "watch_error msg = ValkeyError ''WatchError'' [VWatchError] msg"

text \<open>The checks on the amount, before the first attempt.\<close>

definition increment_amount :: "pyval \<Rightarrow> unit res" where
  "increment_amount amount =
     bindE (guardE (is_int_or_float amount) (TypeError ''increment amount must be numeric'')) (\<lambda>_.
     guardE (\<not> not_finite amount) (ValueError ''increment amount must be finite''))"

text \<open>The new value for a decoded entry.\<close>

definition increment_value :: "decoded_envelope \<Rightarrow> pyval \<Rightarrow> pyval res" where
  "increment_value decoded amount =
     bindE (guardE (de_serializer_id decoded = SERIALIZER_CANONICAL_JSON \<and> is_int_or_float (de_value decoded))
       (ValueError ''numeric increment requires a canonical JSON number'')) (\<lambda>_.
     bindE (py_add (de_value decoded) amount) (\<lambda>new_value.
     bindE (guardE (\<not> not_finite new_value) (ValueError ''numeric increment result must be finite'')) (\<lambda>_.
     Inr new_value)))"

text \<open>The body of one attempt, on the pipeline \<open>p\<close>.\<close>

definition increment_body ::
    "lib \<Rightarrow> 's client \<Rightarrow> 's host \<Rightarrow> envelope_codec \<Rightarrow> bytes \<Rightarrow> pyval \<Rightarrow> pyval \<Rightarrow> int \<Rightarrow> int option \<Rightarrow> nat
      \<Rightarrow> ('s, decoded_envelope) py" where
  "increment_body L C H c key amount schema_fingerprint ttl_ms maximum_staleness_ms p =
     thenM (p_watch C p key)
     (bindM (p_get C p key) (\<lambda>current.
      bindM (case bytes_of current of
          None \<Rightarrow> raiseM (ValueError ''numeric increment requires an existing envelope'')
        | Some raw \<Rightarrow> codec_decode L H c raw schema_fingerprint maximum_staleness_ms) (\<lambda>decoded.
      bindM (liftM (increment_value decoded amount)) (\<lambda>new_value.
      bindM (codec_encode L H c new_value SERIALIZER_CANONICAL_JSON schema_fingerprint (PInt ttl_ms)
        (de_source_version decoded)) (\<lambda>envelope.
      thenM (p_multi C p)
      (thenM (p_set C p key envelope ttl_ms)
      (thenM (p_execute C p)
      (codec_decode L H c envelope schema_fingerprint maximum_staleness_ms))))))))"

text \<open>One attempt: \<open>None\<close> when the watched key changed. The pipeline is reset in every case.\<close>

definition increment_attempt ::
    "lib \<Rightarrow> 's client \<Rightarrow> 's host \<Rightarrow> envelope_codec \<Rightarrow> bytes \<Rightarrow> pyval \<Rightarrow> pyval \<Rightarrow> int \<Rightarrow> int option
      \<Rightarrow> ('s, decoded_envelope option) py" where
  "increment_attempt L C H c key amount schema_fingerprint ttl_ms maximum_staleness_ms =
     bindM (c_pipeline C) (\<lambda>p.
     finallyM
       (catchM (bindM (increment_body L C H c key amount schema_fingerprint ttl_ms maximum_staleness_ms p) (\<lambda>d. returnM (Some d)))
         (\<lambda>e. has_vclass e VWatchError) (\<lambda>_. returnM None))
       (p_reset C p))"

fun increment_loop :: "('s, 'a option) py \<Rightarrow> nat \<Rightarrow> ('s, 'a) py" where
  "increment_loop attempt 0 = raiseM (watch_error ''numeric increment contention exceeded its retry bound'')"
| "increment_loop attempt (Suc n) =
     bindM attempt (\<lambda>r. case r of Some d \<Rightarrow> returnM d | None \<Rightarrow> increment_loop attempt n)"

definition increment ::
    "lib \<Rightarrow> 's client \<Rightarrow> 's host \<Rightarrow> envelope_codec \<Rightarrow> bytes \<Rightarrow> pyval \<Rightarrow> pyval \<Rightarrow> int \<Rightarrow> int option \<Rightarrow> int
      \<Rightarrow> ('s, decoded_envelope) py" where
  "increment L C H c key amount schema_fingerprint ttl_ms maximum_staleness_ms retries =
     thenM (liftM (increment_amount amount))
       (increment_loop (increment_attempt L C H c key amount schema_fingerprint ttl_ms maximum_staleness_ms) (nat retries))"

end
