(* ===== verification/Vk_Cache.thy ===== *)
theory Vk_Cache
  imports Vk_Atomic
begin

section \<open>The cache\<close>

text \<open>
  The module \<^verbatim>\<open>cache\<close>: the counters, the lookup result, and \<^verbatim>\<open>ValkeyCache\<close> with its operations over
  one client. The state is the client's and host's state with the counters beside it; the
  \<^verbatim>\<open>threading.Lock\<close> around the counters makes each of their operations one step, which is how they
  are modelled.
\<close>

subsection \<open>State\<close>

record 's world =
  w_ext :: 's
  w_metrics :: "(string \<times> nat) list"

text \<open>An operation of the client, the host or the caller's loader leaves the counters alone.\<close>

definition ext :: "('s, 'a) py \<Rightarrow> ('s world, 'a) py" where
  "ext m = (\<lambda>w. case m (w_ext w) of (r, s) \<Rightarrow> (r, w\<lparr>w_ext := s\<rparr>))"

record 's valkey_cache =
  vc_client :: "'s client"
  vc_key_encoder :: key_encoder
  vc_codec :: envelope_codec
  vc_settings :: valkey_settings
  vc_host :: "'s host"

subsection \<open>Counters\<close>

text \<open>\<^verbatim>\<open>self._values[name] += 1\<close> on a \<^verbatim>\<open>Counter\<close>, which keeps the insertion order of its names.\<close>

fun counter_add :: "string \<Rightarrow> (string \<times> nat) list \<Rightarrow> (string \<times> nat) list" where
  "counter_add name [] = [(name, 1)]"
| "counter_add name ((k, n) # rest) = (if k = name then (k, n + 1) # rest else (k, n) # counter_add name rest)"

definition count_of :: "(string \<times> nat) list \<Rightarrow> string \<Rightarrow> nat" where
  "count_of cs name = (case map_of cs name of Some n \<Rightarrow> n | None \<Rightarrow> 0)"

definition metric :: "string \<Rightarrow> ('s world, unit) py" where
  "metric name = (\<lambda>w. (Inr (), w\<lparr>w_metrics := counter_add name (w_metrics w)\<rparr>))"

definition snapshot :: "('s world, (string \<times> nat) list) py" where
  "snapshot = (\<lambda>w. (Inr (sort_key fst (w_metrics w)), w))"

subsection \<open>Lookup results\<close>

record cache_lookup =
  cl_hit :: bool
  cl_value :: pyval
  cl_envelope :: "decoded_envelope option"
  cl_degraded :: bool
  cl_loaded :: bool

definition cl_negative :: "cache_lookup \<Rightarrow> bool" where
  "cl_negative l = (cl_hit l \<and> (case cl_envelope l of Some e \<Rightarrow> de_negative e | None \<Rightarrow> cl_value l = PNone))"

definition MISS :: cache_lookup where
  "MISS = \<lparr>cl_hit = False, cl_value = PNone, cl_envelope = None, cl_degraded = False, cl_loaded = False\<rparr>"

definition HIT :: "decoded_envelope \<Rightarrow> cache_lookup" where
  "HIT d = \<lparr>cl_hit = True, cl_value = de_value d, cl_envelope = Some d, cl_degraded = False, cl_loaded = False\<rparr>"

text \<open>A value that came from the loader, with its envelope when it was stored.\<close>

definition LOADED :: "pyval \<Rightarrow> decoded_envelope option \<Rightarrow> bool \<Rightarrow> cache_lookup" where
  "LOADED v env degraded = \<lparr>cl_hit = False, cl_value = v, cl_envelope = env, cl_degraded = degraded, cl_loaded = True\<rparr>"

subsection \<open>Keys, events and cleanup\<close>

definition physical_key ::
    "lib \<Rightarrow> 's valkey_cache \<Rightarrow> op_context \<Rightarrow> resource_ref \<Rightarrow> pyval \<Rightarrow> pyval \<Rightarrow> (bytes \<times> resource_cache_policy) res" where
  "physical_key L vc context ref logical_key atomic_group =
     bindE (policy_for (vc_settings vc) (rr_str ref)) (\<lambda>policy.
     bindE (KeyMaterial L context ref logical_key (PStr (rp_schema_fingerprint policy)) atomic_group) (\<lambda>material.
     bindE (encode_key L (vc_key_encoder vc) material) (\<lambda>key.
     Inr (key, policy))))"

definition event :: "'s valkey_cache \<Rightarrow> string \<Rightarrow> resource_ref \<Rightarrow> (string \<times> string) list \<Rightarrow> ('s world, unit) py" where
  "event vc name ref attributes =
     bindM (liftM (utf8_encode (rr_canonical ref))) (\<lambda>canonical.
     ext (h_emit (vc_host vc) (''meridian.cache.'' @ name)
       ((''resourceDigest'', take 22 (base64url_digest canonical)) # attributes)))"

definition best_effort_delete :: "'s valkey_cache \<Rightarrow> bytes \<Rightarrow> ('s world, unit) py" where
  "best_effort_delete vc key =
     catchM (bindM (ext (c_delete (vc_client vc) key)) (\<lambda>_. returnM ())) is_ValkeyError
       (\<lambda>_. metric ''cleanup_failure'')"

definition discard_corrupt :: "'s valkey_cache \<Rightarrow> bytes \<Rightarrow> resource_ref \<Rightarrow> string \<Rightarrow> ('s world, unit) py" where
  "discard_corrupt vc key ref reason =
     thenM (metric ''corruption'') (thenM (best_effort_delete vc key) (event vc ''corruption'' ref [(''reason'', reason)]))"

text \<open>The calls of the codec with the fields of a policy.\<close>

definition decode_for ::
    "lib \<Rightarrow> 's valkey_cache \<Rightarrow> resource_cache_policy \<Rightarrow> bytes \<Rightarrow> ('s world, decoded_envelope) py" where
  "decode_for L vc policy raw =
     ext (codec_decode L (vc_host vc) (vc_codec vc) raw (PStr (rp_schema_fingerprint policy)) (rp_maximum_staleness_ms policy))"

definition encode_for ::
    "lib \<Rightarrow> 's valkey_cache \<Rightarrow> resource_cache_policy \<Rightarrow> pyval \<Rightarrow> int \<Rightarrow> pyval \<Rightarrow> ('s world, bytes) py" where
  "encode_for L vc policy v ttl_ms source_version =
     ext (codec_encode L (vc_host vc) (vc_codec vc) v (rp_serializer_id policy) (PStr (rp_schema_fingerprint policy))
       (PInt ttl_ms) source_version)"

subsection \<open>Reading\<close>

definition lookup ::
    "lib \<Rightarrow> 's valkey_cache \<Rightarrow> op_context \<Rightarrow> resource_ref \<Rightarrow> pyval \<Rightarrow> ('s world, cache_lookup) py" where
  "lookup L vc context ref logical_key =
     bindM (liftM (physical_key L vc context ref logical_key PNone)) (\<lambda>(key, policy).
     bindM (ext (c_get (vc_client vc) key)) (\<lambda>raw.
     if raw = PNone then thenM (metric ''miss'') (returnM MISS)
     else (case bytes_of raw of
       None \<Rightarrow> thenM (discard_corrupt vc key ref ''unexpected-engine-type'') (returnM MISS)
     | Some b \<Rightarrow>
         tryM (decode_for L vc policy b) is_miss_error
           (\<lambda>e. if is_EnvelopeExpiredError e
              then thenM (metric ''stale'') (thenM (best_effort_delete vc key) (thenM (event vc ''stale'' ref []) (returnM MISS)))
              else thenM (discard_corrupt vc key ref ''envelope-validation'') (returnM MISS))
           (\<lambda>decoded. thenM (metric ''hit'') (thenM (event vc ''hit'' ref []) (returnM (HIT decoded)))))))"

text \<open>One turn of the loop of \<^verbatim>\<open>batch_lookup\<close>.\<close>

definition batch_item ::
    "lib \<Rightarrow> 's valkey_cache \<Rightarrow> resource_ref \<Rightarrow> (bytes \<times> resource_cache_policy) \<times> pyval \<Rightarrow> ('s world, cache_lookup) py" where
  "batch_item L vc ref = (\<lambda>((key, policy), raw).
     if raw = PNone then thenM (metric ''miss'') (returnM MISS)
     else (case bytes_of raw of
       None \<Rightarrow> thenM (discard_corrupt vc key ref ''unexpected-engine-type'') (returnM MISS)
     | Some b \<Rightarrow>
         tryM (decode_for L vc policy b) is_miss_error
           (\<lambda>e. if is_EnvelopeExpiredError e
              then thenM (metric ''stale'') (thenM (best_effort_delete vc key) (returnM MISS))
              else thenM (discard_corrupt vc key ref ''envelope-validation'') (returnM MISS))
           (\<lambda>decoded. thenM (metric ''hit'') (returnM (HIT decoded)))))"

text \<open>
  \<^verbatim>\<open>zip(..., strict=True)\<close> runs over the common prefix before it finds that the lengths differ.
\<close>

definition batch_lookup ::
    "lib \<Rightarrow> 's valkey_cache \<Rightarrow> op_context \<Rightarrow> resource_ref \<Rightarrow> pyval list \<Rightarrow> ('s world, cache_lookup list) py" where
  "batch_lookup L vc context ref logical_keys =
     bindM (liftM (guardE (logical_keys \<noteq> [] \<and> int (length logical_keys) \<le> max_batch_size (limits (vc_settings vc)))
       (ValueError ''bounded multi-get exceeds the configured batch size''))) (\<lambda>_.
     bindM (liftM (mapE (\<lambda>key. physical_key L vc context ref key PNone) logical_keys)) (\<lambda>pairs.
     bindM (ext (batch_get (vc_client vc) (map fst pairs) False)) (\<lambda>raw_values.
     bindM (mapM (batch_item L vc ref) (zip pairs raw_values)) (\<lambda>results.
     if length pairs = length raw_values then returnM results
     else raiseM (ValueError ''zip() arguments differ in length'')))))"

subsection \<open>Writing\<close>

definition put ::
    "lib \<Rightarrow> 's valkey_cache \<Rightarrow> op_context \<Rightarrow> resource_ref \<Rightarrow> pyval \<Rightarrow> pyval \<Rightarrow> pyval \<Rightarrow> pyval
      \<Rightarrow> ('s world, decoded_envelope) py" where
  "put L vc context ref logical_key v requested_ttl_ms source_version =
     bindM (liftM (physical_key L vc context ref logical_key PNone)) (\<lambda>(key, policy).
     bindM (liftM (effective_ttl_ms (vc_settings vc) policy requested_ttl_ms (v = PNone \<and> rp_negative_caching policy))) (\<lambda>ttl_ms.
     bindM (encode_for L vc policy v ttl_ms source_version) (\<lambda>envelope.
     bindM (ext (c_set (vc_client vc) key envelope False ttl_ms)) (\<lambda>_.
     thenM (metric ''put'')
     (thenM (event vc ''put'' ref [])
     (decode_for L vc policy envelope))))))"

definition put_if_absent ::
    "lib \<Rightarrow> 's valkey_cache \<Rightarrow> op_context \<Rightarrow> resource_ref \<Rightarrow> pyval \<Rightarrow> pyval \<Rightarrow> pyval \<Rightarrow> pyval
      \<Rightarrow> ('s world, bool \<times> decoded_envelope) py" where
  "put_if_absent L vc context ref logical_key v requested_ttl_ms source_version =
     bindM (liftM (physical_key L vc context ref logical_key PNone)) (\<lambda>(key, policy).
     bindM (liftM (effective_ttl_ms (vc_settings vc) policy requested_ttl_ms (v = PNone \<and> rp_negative_caching policy))) (\<lambda>ttl_ms.
     bindM (encode_for L vc policy v ttl_ms source_version) (\<lambda>envelope.
     bindM (ext (atomic_put_if_absent (vc_client vc) key envelope ttl_ms)) (\<lambda>stored.
     thenM (metric (if stored then ''put_if_absent_stored'' else ''put_if_absent_conflict''))
     (bindM (decode_for L vc policy envelope) (\<lambda>decoded.
     returnM (stored, decoded)))))))"

text \<open>
  \<^verbatim>\<open>expected in {envelope_version, source_version}\<close>, for an expected version that is text or an
  integer.
\<close>

definition version_eq :: "pyval \<Rightarrow> pyval \<Rightarrow> bool" where
  "version_eq a b = (case b of PInt i \<Rightarrow> py_eq_int a i | _ \<Rightarrow> a = b)"

definition version_matches :: "pyval \<Rightarrow> decoded_envelope \<Rightarrow> bool" where
  "version_matches expected current =
     (version_eq expected (PStr (de_envelope_version current)) \<or> version_eq expected (de_source_version current))"

definition compare_and_set ::
    "lib \<Rightarrow> 's valkey_cache \<Rightarrow> op_context \<Rightarrow> resource_ref \<Rightarrow> pyval \<Rightarrow> pyval \<Rightarrow> pyval \<Rightarrow> pyval
      \<Rightarrow> ('s world, cas_result \<times> decoded_envelope option) py" where
  "compare_and_set L vc context ref logical_key expected_version v requested_ttl_ms =
     bindM (liftM (physical_key L vc context ref logical_key PNone)) (\<lambda>(key, policy).
     bindM (ext (c_get (vc_client vc) key)) (\<lambda>raw.
     if raw = PNone then returnM (CompareAndSetResult False True False, None)
     else (case bytes_of raw of
       None \<Rightarrow> thenM (discard_corrupt vc key ref ''unexpected-engine-type'')
         (returnM (CompareAndSetResult False False True, None))
     | Some b \<Rightarrow>
         tryM (decode_for L vc policy b) is_miss_error
           (\<lambda>_. thenM (discard_corrupt vc key ref ''envelope-validation'')
              (returnM (CompareAndSetResult False False True, None)))
           (\<lambda>current.
              if \<not> version_matches expected_version current
              then thenM (metric ''cas_conflict'') (returnM (CompareAndSetResult False False False, Some current))
              else
                bindM (liftM (effective_ttl_ms (vc_settings vc) policy requested_ttl_ms False)) (\<lambda>ttl_ms.
                bindM (encode_for L vc policy v ttl_ms (de_source_version current)) (\<lambda>envelope.
                bindM (ext (atomic_compare_and_set (vc_client vc) key (de_envelope_version current) envelope ttl_ms)) (\<lambda>result.
                thenM (metric (if swapped result then ''cas_swapped'' else ''cas_conflict''))
                (bindM (if swapped result then decode_for L vc policy envelope else returnM current) (\<lambda>decoded.
                returnM (result, Some decoded))))))))))"

definition delete ::
    "lib \<Rightarrow> 's valkey_cache \<Rightarrow> op_context \<Rightarrow> resource_ref \<Rightarrow> pyval \<Rightarrow> ('s world, bool) py" where
  "delete L vc context ref logical_key =
     bindM (liftM (physical_key L vc context ref logical_key PNone)) (\<lambda>(key, _).
     bindM (ext (c_delete (vc_client vc) key)) (\<lambda>r.
     thenM (metric ''delete'')
     (thenM (event vc ''delete'' ref [])
     (returnM (truthy r)))))"

subsection \<open>Cache-aside reading\<close>

text \<open>
  The wait for another caller's load: \<open>Some\<close> its entry, or \<open>None\<close> when the deadline passed or
  the engine failed. The loop is bounded by the clock only, so the model takes a bound on its turns.
\<close>

fun wait_for_peer ::
    "lib \<Rightarrow> 's valkey_cache \<Rightarrow> op_context \<Rightarrow> resource_ref \<Rightarrow> pyval \<Rightarrow> pyfloat \<Rightarrow> nat \<Rightarrow> ('s world, cache_lookup option) py" where
  "wait_for_peer L vc context ref logical_key deadline 0 = raiseM OutOfFuel"
| "wait_for_peer L vc context ref logical_key deadline (Suc n) =
     bindM (ext (h_monotonic (vc_host vc))) (\<lambda>t.
     if float_less t deadline then
       thenM (ext (h_sleep (vc_host vc) (seconds_of_ms (poll_ms (single_flight (vc_settings vc))))))
       (tryM (lookup L vc context ref logical_key) is_ValkeyError (\<lambda>_. returnM None)
         (\<lambda>peer. if cl_hit peer then returnM (Some peer) else wait_for_peer L vc context ref logical_key deadline n))
     else returnM None)"

text \<open>What the holder of the lease does.\<close>

definition load_and_populate ::
    "lib \<Rightarrow> 's valkey_cache \<Rightarrow> op_context \<Rightarrow> resource_ref \<Rightarrow> pyval \<Rightarrow> ('s, pyval) py \<Rightarrow> pyval \<Rightarrow> pyval
      \<Rightarrow> resource_cache_policy \<Rightarrow> ('s world, cache_lookup) py" where
  "load_and_populate L vc context ref logical_key loader requested_ttl_ms source_version policy =
     bindM (ext loader) (\<lambda>v.
     thenM (metric ''load'')
     (if v = PNone \<and> \<not> rp_negative_caching policy then returnM (LOADED v None False)
      else tryM (put L vc context ref logical_key v requested_ttl_ms source_version) is_ValkeyError
        (\<lambda>_. thenM (metric ''population_failure'') (thenM (event vc ''population-failure'' ref []) (returnM (LOADED v None True))))
        (\<lambda>envelope. returnM (LOADED v (Some envelope) False))))"

definition release_quietly :: "'s valkey_cache \<Rightarrow> bytes \<Rightarrow> bytes \<Rightarrow> ('s world, unit) py" where
  "release_quietly vc lkey token =
     catchM (bindM (ext (release_lease (vc_client vc) lkey token)) (\<lambda>_. returnM ())) is_ValkeyError
       (\<lambda>_. metric ''lease_release_failure'')"

text \<open>What a caller without the lease does when no peer delivered.\<close>

definition duplicate_load ::
    "lib \<Rightarrow> 's valkey_cache \<Rightarrow> op_context \<Rightarrow> resource_ref \<Rightarrow> pyval \<Rightarrow> ('s, pyval) py \<Rightarrow> pyval \<Rightarrow> pyval
      \<Rightarrow> resource_cache_policy \<Rightarrow> ('s world, cache_lookup) py" where
  "duplicate_load L vc context ref logical_key loader requested_ttl_ms source_version policy =
     bindM (ext loader) (\<lambda>v.
     thenM (metric ''duplicate_load'')
     (if v \<noteq> PNone \<or> rp_negative_caching policy then
        tryM (put L vc context ref logical_key v requested_ttl_ms source_version) is_ValkeyError
          (\<lambda>_. returnM (LOADED v None True))
          (\<lambda>envelope. returnM (LOADED v (Some envelope) False))
      else returnM (LOADED v None False)))"

definition contended ::
    "lib \<Rightarrow> 's valkey_cache \<Rightarrow> op_context \<Rightarrow> resource_ref \<Rightarrow> pyval \<Rightarrow> ('s, pyval) py \<Rightarrow> pyval \<Rightarrow> pyval
      \<Rightarrow> resource_cache_policy \<Rightarrow> nat \<Rightarrow> ('s world, cache_lookup) py" where
  "contended L vc context ref logical_key loader requested_ttl_ms source_version policy fuel =
     thenM (metric ''single_flight_contention'')
     (bindM (ext (h_monotonic (vc_host vc))) (\<lambda>t.
      let deadline = float_add t (seconds_of_ms (wait_ms (single_flight (vc_settings vc)))) in
      bindM (wait_for_peer L vc context ref logical_key deadline fuel) (\<lambda>r.
      case r of Some peer \<Rightarrow> returnM peer
      | None \<Rightarrow> duplicate_load L vc context ref logical_key loader requested_ttl_ms source_version policy)))"

definition unavailable :: "('s, pyval) py \<Rightarrow> ('s world, cache_lookup) py" where
  "unavailable loader = bindM (ext loader) (\<lambda>v. returnM (LOADED v None True))"

text \<open>What follows a miss: one caller takes the lease and loads, the others wait for it.\<close>

definition load_through ::
    "lib \<Rightarrow> 's valkey_cache \<Rightarrow> op_context \<Rightarrow> resource_ref \<Rightarrow> pyval \<Rightarrow> ('s, pyval) py \<Rightarrow> pyval \<Rightarrow> pyval
      \<Rightarrow> nat \<Rightarrow> ('s world, cache_lookup) py" where
  "load_through L vc context ref logical_key loader requested_ttl_ms source_version fuel =
     bindM (liftM (physical_key L vc context ref logical_key PNone)) (\<lambda>(key, policy).
     bindM (liftM (lease_key (vc_key_encoder vc) key)) (\<lambda>lkey.
     bindM (ext (h_token_bytes (vc_host vc))) (\<lambda>token.
     tryM (ext (acquire_lease (vc_client vc) lkey token (lease_ms (single_flight (vc_settings vc))))) is_ValkeyError
       (\<lambda>_. thenM (metric ''unavailable_miss'') (unavailable loader))
       (\<lambda>acquired.
          if acquired then
            finallyM (load_and_populate L vc context ref logical_key loader requested_ttl_ms source_version policy)
              (release_quietly vc lkey token)
          else contended L vc context ref logical_key loader requested_ttl_ms source_version policy fuel))))"

definition get_or_load ::
    "lib \<Rightarrow> 's valkey_cache \<Rightarrow> op_context \<Rightarrow> resource_ref \<Rightarrow> pyval \<Rightarrow> ('s, pyval) py \<Rightarrow> pyval \<Rightarrow> pyval
      \<Rightarrow> nat \<Rightarrow> ('s world, cache_lookup) py" where
  "get_or_load L vc context ref logical_key loader requested_ttl_ms source_version fuel =
     tryM (lookup L vc context ref logical_key) is_ValkeyError
       (\<lambda>_. thenM (metric ''unavailable_miss'') (thenM (event vc ''unavailable-miss'' ref []) (unavailable loader)))
       (\<lambda>found. if cl_hit found then returnM found
          else load_through L vc context ref logical_key loader requested_ttl_ms source_version fuel)"

subsection \<open>Weakest preconditions of the cache's steps\<close>

lemma world_order [simp]: "w\<lparr>w_metrics := ms, w_ext := s\<rparr> = w\<lparr>w_ext := s, w_metrics := ms\<rparr>"
  by simp

lemma wpM_ext [wp_simps]:
  "wpM (ext m) Q R = (\<lambda>w. wpM m (\<lambda>x s. Q x (w\<lparr>w_ext := s\<rparr>)) (\<lambda>e s. R e (w\<lparr>w_ext := s\<rparr>)) (w_ext w))"
  by (simp add: wpM_def ext_def fun_eq_iff split: prod.split)

lemma wpM_metric [wp_simps]: "wpM (metric n) Q R = (\<lambda>w. Q () (w\<lparr>w_metrics := counter_add n (w_metrics w)\<rparr>))"
  by (simp add: wpM_def metric_def fun_eq_iff)

lemma keepsM_ext [only_intros]: "keepsM I P m \<Longrightarrow> keepsM (\<lambda>w. I (w_ext w)) P (ext m)"
  by (simp add: keepsM_def wp_simps)

lemma onlyM_ext [only_intros]: "onlyM P m \<Longrightarrow> onlyM P (ext m)"
  by (simp add: keepsM_def wp_simps)

lemma keepsM_metric [only_intros]: "keepsM (\<lambda>w. I (w_ext w)) P (metric n)" "onlyM P (metric n)"
  by (simp_all add: keepsM_def wp_simps)

lemma codec_decode_wp:
  "wpM (codec_decode L H c raw schema stale) Q R =
   (\<lambda>s. case decode_checks L c raw schema of Inl e \<Rightarrow> R e s
    | Inr _ \<Rightarrow> wpM (h_clock_ms H) (\<lambda>now s'. case decode_at L c raw schema stale now of Inl e \<Rightarrow> R e s' | Inr d \<Rightarrow> Q d s') R s)"
  by (auto simp: codec_decode_def wp_simps decode_at_def fun_eq_iff split: sum.split prod.split
      elim!: wpM_mono)

lemma codec_encode_wp:
  "wpM (codec_encode L H c v ser schema ttl_ms source) Q R =
   (\<lambda>s. case encode_checks ser schema ttl_ms source of Inl e \<Rightarrow> R e s
    | Inr _ \<Rightarrow> wpM (h_clock_ms H) (\<lambda>now s'. case encode_at L c v ser schema ttl_ms source (PInt now) of
        Inl e \<Rightarrow> R e s' | Inr d \<Rightarrow> Q d s') R s)"
  by (auto simp: codec_encode_def wp_simps encode_at_def fun_eq_iff split: sum.split prod.split
      elim!: wpM_mono)

subsection \<open>Counting\<close>

lemma count_counter_add: "count_of (counter_add name cs) k = (if k = name then 1 else 0) + count_of cs k"
  by (induction name cs rule: counter_add.induct) (auto simp: count_of_def split: option.splits)

definition outcomes :: "string list" where
  "outcomes = [''hit'', ''miss'', ''stale'', ''corruption'']"

definition counted :: "(string \<times> nat) list \<Rightarrow> cache_lookup \<Rightarrow> (string \<times> nat) list \<Rightarrow> bool" where
  "counted cs r cs' = (sum_list (map (count_of cs') outcomes) = sum_list (map (count_of cs) outcomes) + 1 \<and>
     count_of cs' ''hit'' = count_of cs ''hit'' + of_bool (cl_hit r))"

lemma lookup_simps [simp]: "\<not> cl_hit MISS" "cl_hit (HIT d)" "cl_envelope (HIT d) = Some d" "cl_value (HIT d) = de_value d"
  by (simp_all add: MISS_def HIT_def)

lemma counted_outcome:
  "counted cs MISS (counter_add ''miss'' cs)" "counted cs MISS (counter_add ''stale'' cs)"
  "counted cs MISS (counter_add ''corruption'' cs)" "counted cs (HIT d) (counter_add ''hit'' cs)"
  "counted cs r (counter_add ''cleanup_failure'' cs') \<longleftrightarrow> counted cs r cs'"
  by (simp_all add: counted_def count_counter_add outcomes_def)

subsection \<open>Rules for the operations\<close>

text \<open>A call of the client or the host may return or raise anything.\<close>

lemmas wp_calls =
  wpM_I [where m = "c_get C k" for C k] wpM_I [where m = "c_set C k v nx px" for C k v nx px]
  wpM_I [where m = "c_delete C k" for C k] wpM_I [where m = "h_clock_ms H" for H]
  wpM_I [where m = "h_monotonic H" for H] wpM_I [where m = "h_sleep H x" for H x]
  wpM_I [where m = "h_token_bytes H" for H] wpM_I [where m = "h_emit H n as" for H n as]
  wpM_I [where m = "acquire_lease C k tok ms" for C k tok ms] wpM_I [where m = "release_lease C k tok" for C k tok]

lemma wp_event: "(\<And>s. Q () (w\<lparr>w_ext := s\<rparr>)) \<Longrightarrow> (\<And>e w'. R e w') \<Longrightarrow> wpM (event vc n ref as) Q R w"
  by (auto simp: event_def wp_simps intro!: wp_calls split: sum.split)

lemma wp_best_effort_delete:
  "(\<And>s. Q () (w\<lparr>w_ext := s\<rparr>)) \<Longrightarrow>
   (\<And>s. Q () (w\<lparr>w_ext := s, w_metrics := counter_add ''cleanup_failure'' (w_metrics w)\<rparr>)) \<Longrightarrow>
   (\<And>e w'. R e w') \<Longrightarrow> wpM (best_effort_delete vc key) Q R w"
  by (auto simp: best_effort_delete_def wp_simps intro!: wp_calls)

lemma wp_discard_corrupt:
  assumes "\<And>s. Q () (w\<lparr>w_ext := s, w_metrics := counter_add ''corruption'' (w_metrics w)\<rparr>)"
    "\<And>s. Q () (w\<lparr>w_ext := s, w_metrics := counter_add ''cleanup_failure'' (counter_add ''corruption'' (w_metrics w))\<rparr>)"
    "\<And>e w'. R e w'"
  shows "wpM (discard_corrupt vc key ref reason) Q R w"
  using assms by (auto simp: discard_corrupt_def wp_simps intro!: wp_best_effort_delete wp_event)

lemmas wp_cleanup = wp_event wp_best_effort_delete wp_discard_corrupt

definition served ::
    "lib \<Rightarrow> 's valkey_cache \<Rightarrow> bytes \<Rightarrow> resource_cache_policy \<Rightarrow> 's \<Rightarrow> decoded_envelope \<Rightarrow> bool" where
  "served L vc key policy s d = (\<exists>v s1 raw now s2. c_get (vc_client vc) key s = (Inr v, s1) \<and> bytes_of v = Some raw \<and>
     h_clock_ms (vc_host vc) s1 = (Inr now, s2) \<and>
     decode_at L (vc_codec vc) raw (PStr (rp_schema_fingerprint policy)) (rp_maximum_staleness_ms policy) now = Inr d)"

lemma wp_lookup:
  assumes key: "physical_key L vc context ref k PNone = Inr (key, policy)"
    and miss: "\<And>w'. counted (w_metrics w) MISS (w_metrics w') \<Longrightarrow> Q MISS w'"
    and hit: "\<And>d w'. served L vc key policy (w_ext w) d \<Longrightarrow> counted (w_metrics w) (HIT d) (w_metrics w') \<Longrightarrow> Q (HIT d) w'"
    and raises: "\<And>e w'. R e w'"
  shows "wpM (lookup L vc context ref k) Q R w"
proof -
  have "wpM (c_get (vc_client vc) key) (\<lambda>raw s. wpM
      (if raw = PNone then thenM (metric ''miss'') (returnM MISS)
       else (case bytes_of raw of
         None \<Rightarrow> thenM (discard_corrupt vc key ref ''unexpected-engine-type'') (returnM MISS)
       | Some b \<Rightarrow>
         tryM (decode_for L vc policy b) is_miss_error
           (\<lambda>e. if is_EnvelopeExpiredError e
              then thenM (metric ''stale'') (thenM (best_effort_delete vc key) (thenM (event vc ''stale'' ref []) (returnM MISS)))
              else thenM (discard_corrupt vc key ref ''envelope-validation'') (returnM MISS))
           (\<lambda>decoded. thenM (metric ''hit'') (thenM (event vc ''hit'' ref []) (returnM (HIT decoded)))))) Q R (w\<lparr>w_ext := s\<rparr>))
      (\<lambda>e s. R e (w\<lparr>w_ext := s\<rparr>)) (w_ext w)"
    by (auto simp: wp_simps decode_for_def codec_decode_wp counted_outcome served_def
        intro!: wp_calls wp_cleanup miss hit raises split: option.split sum.split)
  then show ?thesis by (simp add: lookup_def wp_simps key)
qed


text \<open>An envelope of a value as a write returns it: encoded and read back.\<close>

definition stored_as ::
    "lib \<Rightarrow> 's valkey_cache \<Rightarrow> resource_cache_policy \<Rightarrow> pyval \<Rightarrow> decoded_envelope \<Rightarrow> bool" where
  "stored_as L vc policy v d = (\<exists>ttl_ms source created raw now.
     encode_at L (vc_codec vc) v (rp_serializer_id policy) (PStr (rp_schema_fingerprint policy)) (PInt ttl_ms) source
       (PInt created) = Inr raw \<and>
     decode_at L (vc_codec vc) raw (PStr (rp_schema_fingerprint policy)) (rp_maximum_staleness_ms policy) now = Inr d)"

lemma wp_put:
  assumes key: "physical_key L vc context ref k PNone = Inr (key, policy)"
    and stored: "\<And>d w'. stored_as L vc policy v d \<Longrightarrow> Q d w'"
    and raises: "\<And>e w'. R e w'"
  shows "wpM (put L vc context ref k v req source) Q R w"
  unfolding put_def key
  by (auto simp: wp_simps encode_for_def decode_for_def codec_encode_wp codec_decode_wp stored_as_def
      intro!: wp_calls wp_cleanup stored [unfolded stored_as_def] raises exI split: sum.split)

lemma wp_load_and_populate:
  assumes key: "physical_key L vc context ref k PNone = Inr (key, policy)"
    and loaded: "\<And>v s s' env deg w'. loader s = (Inr v, s') \<Longrightarrow> pred_option (stored_as L vc policy v) env \<Longrightarrow> Q (LOADED v env deg) w'"
    and raises: "\<And>e w'. R e w'"
  shows "wpM (load_and_populate L vc context ref k loader req source policy) Q R w"
  unfolding load_and_populate_def
  by (auto simp: wp_simps intro!: wp_calls wpM_I [of loader] wp_cleanup wp_put [OF key] loaded raises)

lemma wp_duplicate_load:
  assumes key: "physical_key L vc context ref k PNone = Inr (key, policy)"
    and loaded: "\<And>v s s' env deg w'. loader s = (Inr v, s') \<Longrightarrow> pred_option (stored_as L vc policy v) env \<Longrightarrow> Q (LOADED v env deg) w'"
    and raises: "\<And>e w'. R e w'"
  shows "wpM (duplicate_load L vc context ref k loader req source policy) Q R w"
  unfolding duplicate_load_def
  by (auto simp: wp_simps intro!: wp_calls wpM_I [of loader] wp_put [OF key] loaded raises)

lemma wp_wait_for_peer:
  assumes key: "physical_key L vc context ref k PNone = Inr (key, policy)"
    and peer: "\<And>d s w'. served L vc key policy s d \<Longrightarrow> Q (Some (HIT d)) w'"
    and none: "\<And>w'. Q None w'" and raises: "\<And>e w'. R e w'"
  shows "wpM (wait_for_peer L vc context ref k deadline n) Q R w"
proof (induction n arbitrary: w)
  case (Suc n)
  show ?case
    by (auto simp: wp_simps intro!: wp_calls wpM_I [of loader] wp_lookup [OF key] peer none raises Suc.IH)
qed (simp add: wp_simps raises)

lemma wp_get_or_load:
  assumes key: "physical_key L vc context ref k PNone = Inr (key, policy)"
    and hit: "\<And>d s w'. served L vc key policy s d \<Longrightarrow> Q (HIT d) w'"
    and loaded: "\<And>v s s' env deg w'. loader s = (Inr v, s') \<Longrightarrow> pred_option (stored_as L vc policy v) env \<Longrightarrow> Q (LOADED v env deg) w'"
  shows "wpM (get_or_load L vc context ref k loader req source fuel) Q (\<lambda>_ _. True) w"
  unfolding get_or_load_def load_through_def
  by (auto simp: wp_simps key unavailable_def contended_def release_quietly_def Let_def
      intro!: wp_calls wpM_I [of loader] wp_lookup [OF key] wp_cleanup wp_load_and_populate [OF key] wp_wait_for_peer [OF key] wp_duplicate_load [OF key]
       hit loaded split: sum.split option.split)

end
