(* ===== verification/Vk_Contract.thy ===== *)
theory Vk_Contract
  imports Vk_Cache
begin

section \<open>The engine contract\<close>

text \<open>
  What the adapter relies on when the engine is reachable, evicts nothing and serves one caller: an
  abstract store of live entries with their expiry (\<open>view\<close>), the meaning of the two owned Lua
  scripts on it, and the contract of a client that implements it (the locale \<open>engine_contract\<close>). The
  cache operations are proved against the contract in \<^verbatim>\<open>Vk_Refinement\<close>.
\<close>

subsection \<open>The abstract store\<close>

record view =
  v_now :: int
  v_entries :: "bytes \<Rightarrow> (bytes \<times> int) option"

definition v_get :: "view \<Rightarrow> bytes \<Rightarrow> bytes option" where
  "v_get v key = map_option fst (v_entries v key)"

definition v_put :: "bytes \<Rightarrow> bytes \<Rightarrow> int \<Rightarrow> view \<Rightarrow> view" where
  "v_put key x px v = v\<lparr>v_entries := (v_entries v)(key \<mapsto> (x, v_now v + px))\<rparr>"

definition v_del :: "bytes \<Rightarrow> view \<Rightarrow> view" where
  "v_del key v = v\<lparr>v_entries := (v_entries v)(key := None)\<rparr>"

text \<open>Time passes: the entries whose expiry is reached are gone.\<close>

definition v_at :: "int \<Rightarrow> view \<Rightarrow> view" where
  "v_at t v = \<lparr>v_now = t, v_entries = (\<lambda>key. case v_entries v key of
     None \<Rightarrow> None | Some (x, e) \<Rightarrow> if t < e then Some (x, e) else None)\<rparr>"

lemma v_get_simps [simp]:
  "v_get (v_put key x px v) key' = (if key' = key then Some x else v_get v key')"
  "v_get (v_del key v) key' = (if key' = key then None else v_get v key')"
  "v_now (v_put key x px v) = v_now v" "v_now (v_del key v) = v_now v" "v_now (v_at t v) = t"
  by (simp_all add: v_get_def v_put_def v_del_def v_at_def)

subsection \<open>The owned scripts\<close>

text \<open>
  \<^verbatim>\<open>CAS_SCRIPT\<close> and \<^verbatim>\<open>RELEASE_LEASE_SCRIPT\<close> as the engine runs them, in one step: \<open>string.sub\<close> counts
  from one and includes its end.
\<close>

definition lua_sub :: "bytes \<Rightarrow> nat \<Rightarrow> nat \<Rightarrow> bytes" where
  "lua_sub s i j = py_slice (i - 1) j s"

definition cas_script :: "bytes \<Rightarrow> bytes \<Rightarrow> bytes \<Rightarrow> int \<Rightarrow> view \<Rightarrow> int \<times> view" where
  "cas_script key version envelope px v = (case v_get v key of
     None \<Rightarrow> (- 1, v)
   | Some current \<Rightarrow>
       if lua_sub current 1 6 \<noteq> ''MRVK1|'' then (- 2, v)
       else if lua_sub current 7 77 \<noteq> version then (0, v)
       else (1, v_put key envelope px v))"

definition release_script :: "bytes \<Rightarrow> bytes \<Rightarrow> view \<Rightarrow> int \<times> view" where
  "release_script key token v = (case v_get v key of
     None \<Rightarrow> (0, v)
   | Some current \<Rightarrow> if current = token then (1, v_del key v) else (0, v))"

subsection \<open>The contract\<close>

definition reply :: "bytes option \<Rightarrow> pyval" where
  "reply x = (case x of None \<Rightarrow> PNone | Some b \<Rightarrow> PBytes b)"

text \<open>
  \<open>good\<close> are the states the contract speaks about, \<open>store\<close> the store of such a state, \<open>loaded\<close> the names
  of the scripts it knows. A call by name of an unknown script raises \<^verbatim>\<open>NoScriptError\<close>; \<open>DEL\<close> reports
  one for a live entry.
\<close>

locale engine_contract =
  fixes C :: "'s client" and H :: "'s host" and good :: "'s \<Rightarrow> bool" and store :: "'s \<Rightarrow> view" and loaded :: "'s \<Rightarrow> string set"
  assumes live: "good s \<Longrightarrow> v_entries (store s) key = Some (x, e) \<Longrightarrow> v_now (store s) < e"
    and get_law: "good s \<Longrightarrow> \<exists>s'. c_get C key s = (Inr (reply (v_get (store s) key)), s') \<and> good s' \<and> store s' = store s"
    and mget_law: "good s \<Longrightarrow> \<exists>s'. c_mget C keys s = (Inr (map (\<lambda>key. reply (v_get (store s) key)) keys), s') \<and> good s' \<and> store s' = store s"
    and set_law: "good s \<Longrightarrow> 0 < px \<Longrightarrow> \<exists>s'. c_set C key x nx px s =
        (Inr (if nx \<and> v_get (store s) key \<noteq> None then PNone else PBool True), s') \<and> good s' \<and>
        store s' = (if nx \<and> v_get (store s) key \<noteq> None then store s else v_put key x px (store s))"
    and delete_law: "good s \<Longrightarrow> \<exists>n s'. c_delete C key s = (Inr (PInt n), s') \<and> good s' \<and> store s' = v_del key (store s) \<and>
        (v_get (store s) key \<noteq> None \<longrightarrow> n = 1)"
    and script_unknown: "good s \<Longrightarrow> sha \<notin> loaded s \<Longrightarrow> \<exists>e s'. c_evalsha C sha n args s = (Inl e, s') \<and> has_vclass e VNoScriptError \<and>
        good s' \<and> store s' = store s"
    and script_load: "good s \<Longrightarrow> \<exists>s'. c_script_load C script s = (Inr (PStr (hexdigest (sha1 script))), s') \<and> good s' \<and>
        store s' = store s \<and> hexdigest (sha1 script) \<in> loaded s'"
    and cas_law: "good s \<Longrightarrow> hexdigest (sha1 CAS_SCRIPT) \<in> loaded s \<Longrightarrow> utf8_ok version \<Longrightarrow> 0 < px \<Longrightarrow>
        length (show_nat (nat px)) \<le> max_str_digits \<Longrightarrow>
        \<exists>s'. c_evalsha C (hexdigest (sha1 CAS_SCRIPT)) 1 [PBytes key, PStr version, PBytes x, PStr (show_int px)] s =
          (Inr (PInt (fst (cas_script key version x px (store s)))), s') \<and> good s' \<and> store s' = snd (cas_script key version x px (store s))"
    and release_law: "good s \<Longrightarrow> hexdigest (sha1 RELEASE_LEASE_SCRIPT) \<in> loaded s \<Longrightarrow>
        \<exists>s'. c_evalsha C (hexdigest (sha1 RELEASE_LEASE_SCRIPT)) 1 [PBytes key, PBytes token] s =
          (Inr (PInt (fst (release_script key token (store s)))), s') \<and> good s' \<and> store s' = snd (release_script key token (store s))"
    and clock_law: "good s \<Longrightarrow> \<exists>s'. h_clock_ms H s = (Inr (v_now (store s)), s') \<and> good s' \<and> store s' = store s"
    and emit_law: "good s \<Longrightarrow> \<exists>s'. h_emit H name attributes s = (Inr (), s') \<and> good s' \<and> store s' = store s"
    and token_law: "good s \<Longrightarrow> \<exists>token s'. h_token_bytes H s = (Inr token, s') \<and> good s' \<and> store s' = store s"
begin

text \<open>The laws as rules of weakest preconditions.\<close>

lemma wp_get: "good s \<Longrightarrow> (\<And>s'. good s' \<Longrightarrow> store s' = store s \<Longrightarrow> Q (reply (v_get (store s) key)) s') \<Longrightarrow> wpM (c_get C key) Q R s"
  using get_law [of s key] by (auto simp: wpM_def)

lemma wp_mget:
  "good s \<Longrightarrow> (\<And>s'. good s' \<Longrightarrow> store s' = store s \<Longrightarrow> Q (map (\<lambda>key. reply (v_get (store s) key)) keys) s') \<Longrightarrow> wpM (c_mget C keys) Q R s"
  using mget_law [of s keys] by (auto simp: wpM_def)

lemma wp_set:
  "good s \<Longrightarrow> 0 < px \<Longrightarrow>
   (\<And>s'. good s' \<Longrightarrow> \<not> (nx \<and> v_get (store s) key \<noteq> None) \<Longrightarrow> store s' = v_put key x px (store s) \<Longrightarrow> Q (PBool True) s') \<Longrightarrow>
   (\<And>s'. good s' \<Longrightarrow> nx \<Longrightarrow> v_get (store s) key \<noteq> None \<Longrightarrow> store s' = store s \<Longrightarrow> Q PNone s') \<Longrightarrow>
   wpM (c_set C key x nx px) Q R s"
  using set_law [of s px key x nx] by (auto simp: wpM_def split: if_splits)

lemma wp_delete:
  "good s \<Longrightarrow> (\<And>n s'. good s' \<Longrightarrow> store s' = v_del key (store s) \<Longrightarrow> (v_get (store s) key \<noteq> None \<Longrightarrow> n = 1) \<Longrightarrow> Q (PInt n) s') \<Longrightarrow>
   wpM (c_delete C key) Q R s"
  using delete_law [of s key] by (auto simp: wpM_def)

lemma wp_clock: "good s \<Longrightarrow> (\<And>s'. good s' \<Longrightarrow> store s' = store s \<Longrightarrow> Q (v_now (store s)) s') \<Longrightarrow> wpM (h_clock_ms H) Q R s"
  using clock_law [of s] by (auto simp: wpM_def)

lemma wp_emit: "good s \<Longrightarrow> (\<And>s'. good s' \<Longrightarrow> store s' = store s \<Longrightarrow> Q () s') \<Longrightarrow> wpM (h_emit H n as) Q R s"
  using emit_law [of s n as] by (auto simp: wpM_def)

lemma wp_token: "good s \<Longrightarrow> (\<And>token s'. good s' \<Longrightarrow> store s' = store s \<Longrightarrow> Q token s') \<Longrightarrow> wpM (h_token_bytes H) Q R s"
  using token_law [of s] by (auto simp: wpM_def)

text \<open>A script runs whether the engine knows it or not.\<close>

lemma wp_eval_script:
  assumes "good s" "declared = ''sha1:'' @ hexdigest (sha1 script)"
    and run: "\<And>s'. good s' \<Longrightarrow> store s' = store s \<Longrightarrow> hexdigest (sha1 script) \<in> loaded s' \<Longrightarrow>
      wpM (c_evalsha C (hexdigest (sha1 script)) n args) Q R s'"
    and no_script: "\<And>s' e s''. good s' \<Longrightarrow> hexdigest (sha1 script) \<in> loaded s' \<Longrightarrow>
      c_evalsha C (hexdigest (sha1 script)) n args s' = (Inl e, s'') \<Longrightarrow> \<not> has_vclass e VNoScriptError"
  shows "wpM (eval_script C script declared n args) Q R s"
proof -
  let ?sha = "hexdigest (sha1 script)"
  have sha: "removeprefix ''sha1:'' declared = ?sha" by (simp add: assms(2) removeprefix_def)
  show ?thesis
  proof (cases "?sha \<in> loaded s")
    case True
    have "wpM (c_evalsha C ?sha n args) Q R s" using assms(1) True by (intro run) auto
    then show ?thesis using no_script [OF assms(1) True]
      by (auto simp: eval_script_def sha Let_def wpM_def catchM_def split: prod.splits sum.splits)
  next
    case False
    obtain e s1 where s1: "c_evalsha C ?sha n args s = (Inl e, s1)" "has_vclass e VNoScriptError" "good s1" "store s1 = store s"
      using script_unknown [OF assms(1) False] by blast
    obtain s2 where s2: "c_script_load C script s1 = (Inr (PStr ?sha), s2)" "good s2" "store s2 = store s1" "?sha \<in> loaded s2"
      using script_load [OF s1(3)] by blast
    have "wpM (c_evalsha C ?sha n args) Q R s2" using s1 s2 by (intro run) auto
    with s1 s2 show ?thesis
      by (simp add: eval_script_def sha Let_def wpM_def catchM_def reload_script_def py_simps)
  qed
qed

lemma wp_cas:
  assumes "good s" "utf8_ok version" "0 < px" "length (show_nat (nat px)) \<le> max_str_digits"
    and "\<And>s'. good s' \<Longrightarrow> store s' = snd (cas_script key version x px (store s)) \<Longrightarrow>
      Q (cas_outcome (PInt (fst (cas_script key version x px (store s))))) s'"
  shows "wpM (atomic_compare_and_set C key version x px) Q R s"
  unfolding atomic_compare_and_set_def wpM_bind wpM_return
proof (rule wp_eval_script [OF assms(1)])
  show "CAS_SCRIPT_DIGEST = ''sha1:'' @ hexdigest (sha1 CAS_SCRIPT)" by (simp add: CAS_SCRIPT_DIGEST_def sha1_hex_def)
next
  fix s' assume "good s'" "store s' = store s" "hexdigest (sha1 CAS_SCRIPT) \<in> loaded s'"
  then show "wpM (c_evalsha C (hexdigest (sha1 CAS_SCRIPT)) 1 [PBytes key, PStr version, PBytes x, PStr (show_int px)])
      (\<lambda>raw. wpM (liftM (case raw of PBytes b \<Rightarrow> bindE (py_int10 b) (\<lambda>i. Inr (PInt i)) | _ \<Rightarrow> Inr raw)) (\<lambda>raw. Q (cas_outcome raw)) R) R s'"
    using cas_law [OF _ _ assms(2-4), of s' key x] assms(5) by (auto simp: wpM_def)
next
  fix s' e s'' assume "good s'" "hexdigest (sha1 CAS_SCRIPT) \<in> loaded s'"
    "c_evalsha C (hexdigest (sha1 CAS_SCRIPT)) 1 [PBytes key, PStr version, PBytes x, PStr (show_int px)] s' = (Inl e, s'')"
  then show "\<not> has_vclass e VNoScriptError" using cas_law [OF _ _ assms(2-4), of s' key x] by auto
qed

lemma wp_release:
  assumes "good s"
    and "\<And>s'. good s' \<Longrightarrow> store s' = snd (release_script key token (store s)) \<Longrightarrow> Q (fst (release_script key token (store s)) = 1) s'"
  shows "wpM (release_lease C key token) Q R s"
  unfolding release_lease_def wp_simps
proof (rule wp_eval_script [OF assms(1)])
  show "RELEASE_LEASE_SCRIPT_DIGEST = ''sha1:'' @ hexdigest (sha1 RELEASE_LEASE_SCRIPT)"
    by (simp add: RELEASE_LEASE_SCRIPT_DIGEST_def sha1_hex_def)
next
  fix s' assume s': "good s'" "store s' = store s" "hexdigest (sha1 RELEASE_LEASE_SCRIPT) \<in> loaded s'"
  have "fst (release_script key token v) \<in> {0, 1}" for v by (auto simp: release_script_def split: option.split)
  then have "(fst (release_script key token (store s)) \<noteq> 0) = (fst (release_script key token (store s)) = 1)" by fastforce
  then show "wpM (c_evalsha C (hexdigest (sha1 RELEASE_LEASE_SCRIPT)) 1 [PBytes key, PBytes token]) (\<lambda>x. Q (truthy x)) R s'"
    using release_law [OF s'(1,3), of key token] assms(2) s' by (auto simp: wpM_def)
next
  fix s' e s'' assume "good s'" "hexdigest (sha1 RELEASE_LEASE_SCRIPT) \<in> loaded s'"
    "c_evalsha C (hexdigest (sha1 RELEASE_LEASE_SCRIPT)) 1 [PBytes key, PBytes token] s' = (Inl e, s'')"
  then show "\<not> has_vclass e VNoScriptError" using release_law [of s' key token] by auto
qed

lemma wp_acquire:
  "good s \<Longrightarrow> 0 < px \<Longrightarrow>
   (\<And>s'. good s' \<Longrightarrow> v_get (store s) key = None \<Longrightarrow> store s' = v_put key token px (store s) \<Longrightarrow> Q True s') \<Longrightarrow>
   (\<And>s'. good s' \<Longrightarrow> v_get (store s) key \<noteq> None \<Longrightarrow> store s' = store s \<Longrightarrow> Q False s') \<Longrightarrow>
   wpM (acquire_lease C key token px) Q R s"
  by (cases "v_get (store s) key") (auto simp: acquire_lease_def wp_simps intro!: wp_set)

lemma wp_put_absent:
  "good s \<Longrightarrow> 0 < px \<Longrightarrow>
   (\<And>s'. good s' \<Longrightarrow> v_get (store s) key = None \<Longrightarrow> store s' = v_put key x px (store s) \<Longrightarrow> Q True s') \<Longrightarrow>
   (\<And>s'. good s' \<Longrightarrow> v_get (store s) key \<noteq> None \<Longrightarrow> store s' = store s \<Longrightarrow> Q False s') \<Longrightarrow>
   wpM (atomic_put_if_absent C key x px) Q R s"
  by (cases "v_get (store s) key") (auto simp: atomic_put_if_absent_def wp_simps intro!: wp_set)

lemmas wp_engine = wp_get wp_mget wp_set wp_delete wp_clock wp_emit wp_token wp_cas wp_release wp_acquire wp_put_absent

end

end
