(* ===== verification/Vk_Refinement.thy ===== *)
theory Vk_Refinement
  imports Vk_Contract
begin

section \<open>The cache refines a store of entries\<close>

text \<open>
  The operations of the cache against the engine contract: each returns or raises what a short
  specification on the abstract store says, and leaves the specified store. A batch lookup returns and
  leaves what the sequence of its lookups does, and moves the same counters when the keys are
  distinct; compare-and-set replaces exactly the entry it compared, and a load
  under a free lease stores the loaded value and leaves no lease behind.
\<close>

subsection \<open>What the cache makes of the store\<close>

text \<open>
  What stands under a key: nothing, an entry that decodes, bytes a reader discards, or bytes that
  make a reader raise.
\<close>

datatype cell = Absent | Entry decoded_envelope | Junk | Poison exn

definition cell_of :: "lib \<Rightarrow> 's valkey_cache \<Rightarrow> resource_cache_policy \<Rightarrow> bytes \<Rightarrow> view \<Rightarrow> cell" where
  "cell_of L vc policy key v = (case v_get v key of
     None \<Rightarrow> Absent
   | Some raw \<Rightarrow>
       (case decode_at L (vc_codec vc) raw (PStr (rp_schema_fingerprint policy)) (rp_maximum_staleness_ms policy) (v_now v) of
         Inr d \<Rightarrow> Entry d
       | Inl e \<Rightarrow> if is_miss_error e then Junk else Poison e))"

text \<open>The effect of each operation on the store.\<close>

definition spec_lookup :: "lib \<Rightarrow> 's valkey_cache \<Rightarrow> resource_cache_policy \<Rightarrow> bytes \<Rightarrow> (view, cache_lookup) py" where
  "spec_lookup L vc policy key v = (case cell_of L vc policy key v of
     Absent \<Rightarrow> (Inr MISS, v)
   | Entry d \<Rightarrow> (Inr (HIT d), v)
   | Junk \<Rightarrow> (Inr MISS, v_del key v)
   | Poison e \<Rightarrow> (Inl e, v))"

text \<open>A write encodes at the current time; what it returns is the entry then read back.\<close>

definition spec_write ::
    "lib \<Rightarrow> 's valkey_cache \<Rightarrow> resource_cache_policy \<Rightarrow> bytes \<Rightarrow> pyval \<Rightarrow> int \<Rightarrow> pyval \<Rightarrow> bool \<Rightarrow> (view, bool \<times> decoded_envelope) py" where
  "spec_write L vc policy key x ttl_ms source nx v =
     (case encode_at L (vc_codec vc) x (rp_serializer_id policy) (PStr (rp_schema_fingerprint policy)) (PInt ttl_ms) source (PInt (v_now v)) of
       Inl e \<Rightarrow> (Inl e, v)
     | Inr raw \<Rightarrow>
         (let stored = (nx \<longrightarrow> v_get v key = None);
              v' = (if stored then v_put key raw ttl_ms v else v) in
          (bindE (decode_at L (vc_codec vc) raw (PStr (rp_schema_fingerprint policy)) (rp_maximum_staleness_ms policy) (v_now v))
            (\<lambda>d. Inr (stored, d)), v')))"

definition spec_put ::
    "lib \<Rightarrow> 's valkey_cache \<Rightarrow> resource_cache_policy \<Rightarrow> bytes \<Rightarrow> pyval \<Rightarrow> int \<Rightarrow> pyval \<Rightarrow> (view, decoded_envelope) py" where
  "spec_put L vc policy key x ttl_ms source v =
     (case spec_write L vc policy key x ttl_ms source False v of (r, v') \<Rightarrow> (bindE r (\<lambda>(_, d). Inr d), v'))"

definition spec_delete :: "bytes \<Rightarrow> (view, unit) py" where
  "spec_delete key v = (Inr (), v_del key v)"

text \<open>
  \<open>refines store good m sp w\<close>: from \<open>w\<close> the operation \<open>m\<close> returns or raises what the specification \<open>sp\<close> does
  on the store of \<open>w\<close>, and the store it leaves is the specified one.
\<close>

definition refines :: "('s \<Rightarrow> bool) \<Rightarrow> ('s \<Rightarrow> view) \<Rightarrow> ('s world, 'a) py \<Rightarrow> (view, 'a) py \<Rightarrow> 's world \<Rightarrow> bool" where
  "refines good store m sp w = (case m w of (r, w') \<Rightarrow> good (w_ext w') \<and> sp (store (w_ext w)) = (r, store (w_ext w')))"

lemma refines_wp:
  "refines good store m sp w \<longleftrightarrow> wpM m (\<lambda>r w'. good (w_ext w') \<and> sp (store (w_ext w)) = (Inr r, store (w_ext w')))
     (\<lambda>e w'. good (w_ext w') \<and> sp (store (w_ext w)) = (Inl e, store (w_ext w'))) w"
  by (simp add: refines_def wpM_def split: prod.split sum.split)

lemma world_id [simp]: "w\<lparr>w_ext := w_ext w\<rparr> = w"
  by (cases w) simp

lemma reply_simps [simp]: "reply x = PNone \<longleftrightarrow> x = None" "bytes_of (reply x) = x"
  by (cases x; simp add: reply_def)+

lemma decode_checks_at: "decode_checks L c raw s = Inl e \<Longrightarrow> decode_at L c raw s stale now = Inl e"
  by (simp add: decode_at_def)

lemma encode_checks_at: "encode_checks ser s t src = Inl e \<Longrightarrow> encode_at L c x ser s t src cr = Inl e"
  by (simp add: encode_at_def)

locale cache_contract = engine_contract "vc_client vc" "vc_host vc" good store loaded
  for vc :: "'s valkey_cache" and good and store and loaded +
  fixes L :: lib
begin

lemma event_rule: "good (w_ext w) \<Longrightarrow> utf8_ok (rr_canonical ref) \<Longrightarrow>
   (\<And>s. good s \<Longrightarrow> store s = store (w_ext w) \<Longrightarrow> Q () (w\<lparr>w_ext := s\<rparr>)) \<Longrightarrow> wpM (event vc n ref as) Q R w"
  by (auto simp: event_def utf8_encode_def wp_simps intro!: wp_engine)

lemma best_effort_rule: "good (w_ext w) \<Longrightarrow>
   (\<And>s. good s \<Longrightarrow> store s = v_del key (store (w_ext w)) \<Longrightarrow> Q () (w\<lparr>w_ext := s\<rparr>)) \<Longrightarrow> wpM (best_effort_delete vc key) Q R w"
  by (auto simp: best_effort_delete_def wp_simps intro!: wp_engine)

lemma discard_rule: "good (w_ext w) \<Longrightarrow> utf8_ok (rr_canonical ref) \<Longrightarrow>
   (\<And>s. good s \<Longrightarrow> store s = v_del key (store (w_ext w)) \<Longrightarrow>
     Q () (w\<lparr>w_ext := s, w_metrics := counter_add ''corruption'' (w_metrics w)\<rparr>)) \<Longrightarrow>
   wpM (discard_corrupt vc key ref reason) Q R w"
  by (auto simp: discard_corrupt_def wp_simps intro!: event_rule best_effort_rule)

lemma wp_decode:
  assumes "good (w_ext w)"
    and "\<And>s. good s \<Longrightarrow> store s = store (w_ext w) \<Longrightarrow> (case decode_at L (vc_codec vc) raw (PStr (rp_schema_fingerprint policy))
      (rp_maximum_staleness_ms policy) (v_now (store (w_ext w))) of Inl e \<Rightarrow> R e (w\<lparr>w_ext := s\<rparr>) | Inr d \<Rightarrow> Q d (w\<lparr>w_ext := s\<rparr>))"
  shows "wpM (decode_for L vc policy raw) Q R w"
proof (cases "decode_checks L (vc_codec vc) raw (PStr (rp_schema_fingerprint policy))")
  case (Inl e)
  from assms(2) [OF assms(1) refl] Inl show ?thesis
    by (simp add: decode_for_def codec_decode_wp wp_simps decode_checks_at)
next
  case (Inr a)
  with assms show ?thesis
    by (auto simp: decode_for_def codec_decode_wp wp_simps intro!: wp_engine)
qed

lemma wp_encode:
  assumes "good (w_ext w)"
    and "\<And>s. good s \<Longrightarrow> store s = store (w_ext w) \<Longrightarrow> (case encode_at L (vc_codec vc) x (rp_serializer_id policy)
      (PStr (rp_schema_fingerprint policy)) (PInt ttl_ms) source (PInt (v_now (store (w_ext w)))) of
        Inl e \<Rightarrow> R e (w\<lparr>w_ext := s\<rparr>) | Inr raw \<Rightarrow> Q raw (w\<lparr>w_ext := s\<rparr>))"
  shows "wpM (encode_for L vc policy x ttl_ms source) Q R w"
proof (cases "encode_checks (rp_serializer_id policy) (PStr (rp_schema_fingerprint policy)) (PInt ttl_ms) source")
  case (Inl e)
  from assms(2) [OF assms(1) refl] Inl show ?thesis
    by (simp add: encode_for_def codec_encode_wp wp_simps encode_checks_at)
next
  case (Inr a)
  with assms show ?thesis
    by (auto simp: encode_for_def codec_encode_wp wp_simps intro!: wp_engine)
qed

lemmas wp_cache = wp_engine event_rule best_effort_rule discard_rule wp_decode wp_encode

lemma lookup_refines:
  assumes "good (w_ext w)" "utf8_ok (rr_canonical ref)" "physical_key L vc context ref k PNone = Inr (key, policy)"
  shows "refines good store (lookup L vc context ref k) (spec_lookup L vc policy key) w"
  unfolding refines_wp lookup_def assms(3)
  using assms(1,2)
  by (auto simp: wp_simps spec_lookup_def cell_of_def intro!: wp_cache split: option.split sum.split)


lemma put_refines:
  assumes "good (w_ext w)" "utf8_ok (rr_canonical ref)" "physical_key L vc context ref k PNone = Inr (key, policy)"
    "effective_ttl_ms (vc_settings vc) policy req (x = PNone \<and> rp_negative_caching policy) = Inr ttl_ms" "0 < ttl_ms"
  shows "refines good store (put L vc context ref k x req source)
    (spec_put L vc policy key x ttl_ms source) w"
  unfolding refines_wp put_def assms(3,4)
  using assms(1,2,5)
  by (auto simp: wp_simps assms(4) spec_put_def spec_write_def intro!: wp_cache split: option.split sum.split)

lemma put_if_absent_refines:
  assumes "good (w_ext w)" "physical_key L vc context ref k PNone = Inr (key, policy)"
    "effective_ttl_ms (vc_settings vc) policy req (x = PNone \<and> rp_negative_caching policy) = Inr ttl_ms" "0 < ttl_ms"
  shows "refines good store (put_if_absent L vc context ref k x req source) (spec_write L vc policy key x ttl_ms source True) w"
  unfolding refines_wp put_if_absent_def assms(2)
  using assms(1,4)
  by (auto simp: wp_simps assms(3) spec_write_def intro!: wp_cache split: option.split sum.split)

lemma delete_refines:
  assumes "good (w_ext w)" "utf8_ok (rr_canonical ref)" "physical_key L vc context ref k PNone = Inr (key, policy)"
  shows "refines good store (thenM (delete L vc context ref k) (returnM ())) (spec_delete key) w"
  unfolding refines_wp delete_def assms(3)
  using assms(1,2)
  by (auto simp: wp_simps spec_delete_def intro!: wp_cache)

end

text \<open>Compare-and-set: the entry is replaced only when its version, or its source version, is the expected one.\<close>

definition spec_cas ::
    "lib \<Rightarrow> 's valkey_cache \<Rightarrow> resource_cache_policy \<Rightarrow> bytes \<Rightarrow> pyval \<Rightarrow> pyval \<Rightarrow> pyval \<Rightarrow> (view, cas_result \<times> decoded_envelope option) py" where
  "spec_cas L vc policy key expected x req v = (case cell_of L vc policy key v of
     Absent \<Rightarrow> (Inr (CompareAndSetResult False True False, None), v)
   | Junk \<Rightarrow> (Inr (CompareAndSetResult False False True, None), v_del key v)
   | Poison e \<Rightarrow> (Inl e, v)
   | Entry current \<Rightarrow>
       if \<not> version_matches expected current then (Inr (CompareAndSetResult False False False, Some current), v)
       else (case effective_ttl_ms (vc_settings vc) policy req False of
         Inl e \<Rightarrow> (Inl e, v)
       | Inr ttl_ms \<Rightarrow>
           (case spec_put L vc policy key x ttl_ms (de_source_version current) v of
              (r, v') \<Rightarrow> (bindE r (\<lambda>d. Inr (CompareAndSetResult True False False, Some d)), v'))))"

lemma cas_on_entry:
  assumes "v_get v key = Some raw" "decode_at L c raw s stale now = Inr d"
  shows "cas_script key (de_envelope_version d) x px v = (1, v_put key x px v)"
  using decode_at_facts [OF assms(2)] assms(1)
  by (simp add: cas_script_def lua_sub_def MAGIC_def py_slice_def)

lemma version_ascii: "decode_at L c raw s stale now = Inr d \<Longrightarrow> utf8_ok (de_envelope_version d)"
  using decode_at_facts by (blast intro: utf8_ok_ascii is_fingerprint_facts(2))

lemma cas_outcome_one: "cas_outcome (PInt 1) = CompareAndSetResult True False False"
  by (simp add: cas_outcome_def)

lemma swapped_simps [simp]: "swapped (CompareAndSetResult a b c) = a"
  by (simp add: CompareAndSetResult_def)

lemma show_ttl_digits: "0 < t \<Longrightarrow> t \<le> INT31_MAX \<Longrightarrow> length (show_nat (nat t)) \<le> max_str_digits"
  using show_small_ok [of t] by (simp add: INT31_MAX_def)

context cache_contract
begin

lemma compare_and_set_refines:
  assumes "good (w_ext w)" "utf8_ok (rr_canonical ref)" "physical_key L vc context ref k PNone = Inr (key, policy)"
    "wf_settings (vc_settings vc)"
  shows "refines good store (compare_and_set L vc context ref k expected x req) (spec_cas L vc policy key expected x req) w"
proof -
  note range = effective_ttl_range [OF assms(4)]
  show ?thesis
    unfolding refines_wp compare_and_set_def assms(3)
    using assms(1,2)
    by (auto simp: wp_simps spec_cas_def spec_put_def spec_write_def cell_of_def cas_on_entry version_ascii
        cas_outcome_one range show_ttl_digits intro!: wp_cache dest: range split: option.split sum.split)
qed

end

lemma refines_bind:
  assumes "refines good store m sp w" "\<And>x w'. m w = (Inr x, w') \<Longrightarrow> good (w_ext w') \<Longrightarrow> sp (store (w_ext w)) = (Inr x, store (w_ext w')) \<Longrightarrow> refines good store (f x) (g x) w'"
  shows "refines good store (bindM m f) (bindM sp g) w"
  using assms by (auto simp: refines_def bindM_def split: prod.splits sum.splits)

lemma refines_return: "good (w_ext w) \<Longrightarrow> refines good store (returnM x) (returnM x) w"
  by (simp add: refines_def)

lemma v_del_absent: "v_get v key = None \<Longrightarrow> v_del key v = v"
  by (cases v) (auto simp: v_get_def v_del_def fun_upd_idem)

text \<open>What a store may have become since it was \<open>v0\<close>: some of the junk of a policy is gone.\<close>

definition swept :: "lib \<Rightarrow> 's valkey_cache \<Rightarrow> resource_cache_policy \<Rightarrow> view \<Rightarrow> view \<Rightarrow> bool" where
  "swept L vc policy v0 v = (v_now v = v_now v0 \<and>
     (\<forall>key. v_get v key = v_get v0 key \<or> v_get v key = None \<and> cell_of L vc policy key v0 = Junk))"

lemma swept_refl: "swept L vc policy v v"
  by (simp add: swept_def)

lemma swept_spec_lookup:
  assumes "swept L vc policy v0 v" "spec_lookup L vc policy key v = (Inr r, v')"
  shows "swept L vc policy v0 v'"
proof (cases "cell_of L vc policy key v")
  case Junk
  then obtain raw where "v_get v key = Some raw" by (auto simp: cell_of_def split: option.splits)
  moreover have "v_get v key = v_get v0 key \<or> v_get v key = None" "v_now v = v_now v0"
    using assms(1) by (auto simp: swept_def)
  ultimately have "v_get v0 key = v_get v key" "v_now v0 = v_now v" by auto
  with Junk have "cell_of L vc policy key v0 = Junk"
    by (simp add: cell_of_def cong: option.case_cong sum.case_cong)
  moreover have "v' = v_del key v" using assms(2) Junk by (simp add: spec_lookup_def)
  ultimately show ?thesis using assms(1) unfolding swept_def by (metis v_get_simps(2,4))
qed (use assms in \<open>auto simp: spec_lookup_def\<close>)

context cache_contract
begin

lemma batch_item_refines:
  assumes "good (w_ext w)" "utf8_ok (rr_canonical ref)" "swept L vc policy v0 (store (w_ext w))"
  shows "refines good store (batch_item L vc ref ((key, policy), reply (v_get v0 key))) (spec_lookup L vc policy key) w"
proof (cases "v_get (store (w_ext w)) key = v_get v0 key")
  case True
  from assms(3) have "v_now (store (w_ext w)) = v_now v0" by (simp add: swept_def)
  with True assms(1,2) show ?thesis unfolding refines_wp batch_item_def
    by (auto simp: wp_simps spec_lookup_def cell_of_def intro!: wp_cache split: option.split sum.split)
next
  case False
  with assms(3) have now: "v_now v0 = v_now (store (w_ext w))" and none: "v_get (store (w_ext w)) key = None" and "cell_of L vc policy key v0 = Junk"
    by (auto simp: swept_def)
  then obtain raw e where "v_get v0 key = Some raw" "is_miss_error e"
    "decode_at L (vc_codec vc) raw (PStr (rp_schema_fingerprint policy)) (rp_maximum_staleness_ms policy) (v_now (store (w_ext w))) = Inl e"
    by (auto simp: cell_of_def split: option.splits sum.splits if_splits)
  with none assms(1,2) show ?thesis unfolding refines_wp batch_item_def
    by (auto simp: wp_simps spec_lookup_def cell_of_def v_del_absent intro!: wp_cache)
qed

lemma batch_items_refine:
  assumes "good (w_ext w)" "utf8_ok (rr_canonical ref)" "swept L vc policy v0 (store (w_ext w))"
  shows "refines good store (mapM (batch_item L vc ref) (zip (map (\<lambda>key. (key, policy)) keys) (map (\<lambda>key. reply (v_get v0 key)) keys)))
    (mapM (spec_lookup L vc policy) keys) w"
  using assms(1,3)
proof (induction keys arbitrary: w)
  case (Cons key keys)
  show ?case
    unfolding list.map zip_Cons_Cons mapM.simps
    using Cons.prems
    by (intro refines_bind batch_item_refines [OF _ assms(2)] refines_return)
      (auto intro!: Cons.IH dest: swept_spec_lookup)
qed (simp add: refines_return)

lemma lookups_refine:
  assumes "good (w_ext w)" "utf8_ok (rr_canonical ref)"
    "list_all2 (\<lambda>k key. physical_key L vc context ref k PNone = Inr (key, policy)) ks keys"
  shows "refines good store (mapM (lookup L vc context ref) ks) (mapM (spec_lookup L vc policy) keys) w"
  using assms(3,1)
proof (induction ks keys arbitrary: w rule: list_all2_induct)
  case (Cons k ks key keys)
  then show ?case
    unfolding mapM.simps by (intro refines_bind lookup_refines [OF _ assms(2)] refines_return) auto
qed (simp add: refines_return)

lemma batch_lookup_run:
  assumes "ks \<noteq> []" "int (length ks) \<le> max_batch_size (limits (vc_settings vc))"
    "list_all2 (\<lambda>k key. physical_key L vc context ref k PNone = Inr (key, policy)) ks keys"
  shows "batch_lookup L vc context ref ks =
    bindM (ext (batch_get (vc_client vc) keys False)) (\<lambda>raws.
      bindM (mapM (batch_item L vc ref) (zip (map (\<lambda>key. (key, policy)) keys) raws)) (\<lambda>results.
      if length keys = length raws then returnM results else raiseM (ValueError ''zip() arguments differ in length'')))"
proof -
  have "mapE (\<lambda>key. physical_key L vc context ref key PNone) ks = Inr (map (\<lambda>key. (key, policy)) keys)"
    using assms(3) by (simp add: mapE_eq_Inr list_all2_map2)
  then show ?thesis using assms(1,2) by (simp add: batch_lookup_def comp_def)
qed

lemma batch_lookup_refines:
  assumes "good (w_ext w)" "utf8_ok (rr_canonical ref)" "ks \<noteq> []" "int (length ks) \<le> max_batch_size (limits (vc_settings vc))"
    "list_all2 (\<lambda>k key. physical_key L vc context ref k PNone = Inr (key, policy)) ks keys"
  shows "refines good store (batch_lookup L vc context ref ks) (mapM (spec_lookup L vc policy) keys) w"
proof -
  let ?pairs = "map (\<lambda>key. (key, policy)) keys"
  have "wpM (mapM (batch_item L vc ref) (zip ?pairs (map (\<lambda>key. reply (v_get (store (w_ext w)) key)) keys)))
      (\<lambda>r w'. good (w_ext w') \<and> mapM (spec_lookup L vc policy) keys (store (w_ext w)) = (Inr r, store (w_ext w')))
      (\<lambda>e w'. good (w_ext w') \<and> mapM (spec_lookup L vc policy) keys (store (w_ext w)) = (Inl e, store (w_ext w'))) (w\<lparr>w_ext := s\<rparr>)"
    if "good s" "store s = store (w_ext w)" for s
    using batch_items_refine [of "w\<lparr>w_ext := s\<rparr>" ref policy "store (w_ext w)" keys] that assms(2)
    by (simp add: refines_wp swept_refl)
  then show ?thesis
    unfolding refines_wp batch_lookup_run [OF assms(3-5)] using assms(1)
    by (auto simp: wp_simps batch_get_def intro!: wp_engine)
qed

end

subsection \<open>The counters of a lookup\<close>

text \<open>
  The counter a lookup moves: one of four, and none when it raises. Lookups of distinct keys do not
  see each other's removals, so a batch of them moves the same counters in the same order.
\<close>

definition counter_of :: "lib \<Rightarrow> 's valkey_cache \<Rightarrow> resource_cache_policy \<Rightarrow> bytes \<Rightarrow> view \<Rightarrow> string option" where
  "counter_of L vc policy key v = (case v_get v key of
     None \<Rightarrow> Some ''miss''
   | Some raw \<Rightarrow>
       (case decode_at L (vc_codec vc) raw (PStr (rp_schema_fingerprint policy)) (rp_maximum_staleness_ms policy) (v_now v) of
         Inr d \<Rightarrow> Some ''hit''
       | Inl e \<Rightarrow> if is_EnvelopeExpiredError e then Some ''stale'' else if is_miss_error e then Some ''corruption'' else None))"

definition spec_counted ::
    "lib \<Rightarrow> 's valkey_cache \<Rightarrow> resource_cache_policy \<Rightarrow> bytes \<Rightarrow> (view \<times> (string \<times> nat) list, cache_lookup) py" where
  "spec_counted L vc policy key = (\<lambda>(v, counts). case spec_lookup L vc policy key v of
     (r, v') \<Rightarrow> (r, (v', case counter_of L vc policy key v of None \<Rightarrow> counts | Some name \<Rightarrow> counter_add name counts)))"

definition refines_counted ::
    "('s \<Rightarrow> bool) \<Rightarrow> ('s \<Rightarrow> view) \<Rightarrow> ('s world, 'a) py \<Rightarrow> (view \<times> (string \<times> nat) list, 'a) py \<Rightarrow> 's world \<Rightarrow> bool" where
  "refines_counted good store m sp w = (case m w of
     (r, w') \<Rightarrow> good (w_ext w') \<and> sp (store (w_ext w), w_metrics w) = (r, (store (w_ext w'), w_metrics w')))"

lemma counted_wp:
  "refines_counted good store m sp w \<longleftrightarrow>
     wpM m (\<lambda>r w'. good (w_ext w') \<and> sp (store (w_ext w), w_metrics w) = (Inr r, (store (w_ext w'), w_metrics w')))
     (\<lambda>e w'. good (w_ext w') \<and> sp (store (w_ext w), w_metrics w) = (Inl e, (store (w_ext w'), w_metrics w'))) w"
  by (simp add: refines_counted_def wpM_def split: prod.split sum.split)

lemma counted_bind:
  assumes "refines_counted good store m sp w"
    "\<And>x w'. good (w_ext w') \<Longrightarrow> sp (store (w_ext w), w_metrics w) = (Inr x, (store (w_ext w'), w_metrics w')) \<Longrightarrow>
      refines_counted good store (f x) (g x) w'"
  shows "refines_counted good store (bindM m f) (bindM sp g) w"
proof -
  obtain r w' where run: "m w = (r, w')" by (cases "m w")
  with assms(1) have "good (w_ext w')" "sp (store (w_ext w), w_metrics w) = (r, (store (w_ext w'), w_metrics w'))"
    by (simp_all add: refines_counted_def)
  with run assms(2) show ?thesis by (cases r) (simp_all add: refines_counted_def bindM_def)
qed

lemma counted_return: "good (w_ext w) \<Longrightarrow> refines_counted good store (returnM x) (returnM x) w"
  by (simp add: refines_counted_def)

lemma expired_is_miss: "is_EnvelopeExpiredError e \<Longrightarrow> is_miss_error e"
  by (cases e) (simp_all add: is_miss_error_def)

lemma spec_counted_frame:
  assumes "spec_counted L vc policy key (v, counts) = (Inr r, (v', counts'))"
  shows "v_now v' = v_now v" "key' \<noteq> key \<Longrightarrow> v_get v' key' = v_get v key'"
  using assms by (auto simp: spec_counted_def spec_lookup_def split: cell.splits)

context cache_contract
begin

lemma lookup_counted:
  assumes "good (w_ext w)" "utf8_ok (rr_canonical ref)" "physical_key L vc context ref k PNone = Inr (key, policy)"
  shows "refines_counted good store (lookup L vc context ref k) (spec_counted L vc policy key) w"
  unfolding counted_wp lookup_def assms(3)
  using assms(1,2)
  by (auto simp: wp_simps spec_counted_def counter_of_def spec_lookup_def cell_of_def expired_is_miss
      intro!: wp_cache split: option.split sum.split)

lemma batch_item_counted:
  assumes "good (w_ext w)" "utf8_ok (rr_canonical ref)" "v_now (store (w_ext w)) = v_now v0"
    "v_get (store (w_ext w)) key = v_get v0 key"
  shows "refines_counted good store (batch_item L vc ref ((key, policy), reply (v_get v0 key))) (spec_counted L vc policy key) w"
  unfolding counted_wp batch_item_def
  using assms
  by (auto simp: wp_simps spec_counted_def counter_of_def spec_lookup_def cell_of_def expired_is_miss
      intro!: wp_cache split: option.split sum.split)

lemma lookups_counted:
  assumes "good (w_ext w)" "utf8_ok (rr_canonical ref)"
    "list_all2 (\<lambda>k key. physical_key L vc context ref k PNone = Inr (key, policy)) ks keys"
  shows "refines_counted good store (mapM (lookup L vc context ref) ks) (mapM (spec_counted L vc policy) keys) w"
  using assms(3,1)
proof (induction ks keys arbitrary: w rule: list_all2_induct)
  case (Cons k ks key keys)
  then show ?case
    unfolding mapM.simps by (intro counted_bind lookup_counted [OF _ assms(2)] counted_return) auto
qed (simp add: counted_return)

lemma batch_items_counted:
  assumes "good (w_ext w)" "utf8_ok (rr_canonical ref)" "v_now (store (w_ext w)) = v_now v0" "distinct keys"
    "\<And>key. key \<in> set keys \<Longrightarrow> v_get (store (w_ext w)) key = v_get v0 key"
  shows "refines_counted good store (mapM (batch_item L vc ref) (zip (map (\<lambda>key. (key, policy)) keys) (map (\<lambda>key. reply (v_get v0 key)) keys)))
    (mapM (spec_counted L vc policy) keys) w"
  using assms(1,3-5)
proof (induction keys arbitrary: w)
  case (Cons key keys)
  have rest: "refines_counted good store (mapM (batch_item L vc ref)
      (zip (map (\<lambda>key. (key, policy)) keys) (map (\<lambda>key. reply (v_get v0 key)) keys))) (mapM (spec_counted L vc policy) keys) w'"
    if good: "good (w_ext w')" and counted: "spec_counted L vc policy key (store (w_ext w), w_metrics w) = (Inr x, (store (w_ext w'), w_metrics w'))" for x w'
  proof (rule Cons.IH)
    show "v_get (store (w_ext w')) key' = v_get v0 key'" if "key' \<in> set keys" for key'
    proof -
      from that Cons.prems(3) have "key' \<noteq> key" by auto
      with spec_counted_frame(2) [OF counted] have "v_get (store (w_ext w')) key' = v_get (store (w_ext w)) key'" by blast
      with Cons.prems(4) that show ?thesis by simp
    qed
  qed (use good Cons.prems spec_counted_frame(1) [OF counted] in auto)
  show ?case
    unfolding list.map zip_Cons_Cons mapM.simps
    using Cons.prems
    by (intro counted_bind batch_item_counted [OF _ assms(2)] counted_return) (auto intro: rest)
qed (simp add: counted_return)

lemma batch_lookup_counted:
  assumes "good (w_ext w)" "utf8_ok (rr_canonical ref)" "ks \<noteq> []" "int (length ks) \<le> max_batch_size (limits (vc_settings vc))"
    "list_all2 (\<lambda>k key. physical_key L vc context ref k PNone = Inr (key, policy)) ks keys" "distinct keys"
  shows "refines_counted good store (batch_lookup L vc context ref ks) (mapM (spec_counted L vc policy) keys) w"
proof -
  let ?pairs = "map (\<lambda>key. (key, policy)) keys"
  have "wpM (mapM (batch_item L vc ref) (zip ?pairs (map (\<lambda>key. reply (v_get (store (w_ext w)) key)) keys)))
      (\<lambda>r w'. good (w_ext w') \<and> mapM (spec_counted L vc policy) keys (store (w_ext w), w_metrics w) = (Inr r, (store (w_ext w'), w_metrics w')))
      (\<lambda>e w'. good (w_ext w') \<and> mapM (spec_counted L vc policy) keys (store (w_ext w), w_metrics w) = (Inl e, (store (w_ext w'), w_metrics w')))
      (w\<lparr>w_ext := s\<rparr>)"
    if "good s" "store s = store (w_ext w)" for s
    using batch_items_counted [of "w\<lparr>w_ext := s\<rparr>" ref "store (w_ext w)" keys policy] that assms(2,6)
    by (simp add: counted_wp)
  then show ?thesis
    unfolding counted_wp batch_lookup_run [OF assms(3-5)] using assms(1)
    by (auto simp: wp_simps batch_get_def intro!: wp_engine)
qed

end

text \<open>A loader that answers \<open>x\<close> and leaves the store alone.\<close>

definition loads :: "('s \<Rightarrow> bool) \<Rightarrow> ('s \<Rightarrow> view) \<Rightarrow> ('s, pyval) py \<Rightarrow> pyval \<Rightarrow> bool" where
  "loads good store loader x = (\<forall>s. good s \<longrightarrow> (\<exists>s'. loader s = (Inr x, s') \<and> good s' \<and> store s' = store s))"

lemma wp_loads:
  "loads good store loader x \<Longrightarrow> good s \<Longrightarrow> (\<And>s'. good s' \<Longrightarrow> store s' = store s \<Longrightarrow> Q x s') \<Longrightarrow> wpM loader Q R s"
  unfolding loads_def wpM_def by force

lemma lease_is_transparent:
  assumes "v_get v lkey = None" "key \<noteq> lkey"
  shows "release_script lkey token (v_put key raw t (v_put lkey token l v)) = (1, v_put key raw t v)"
    "release_script lkey token (v_put lkey token l v) = (1, v)"
  using assms by (cases v; simp add: release_script_def v_get_def v_del_def v_put_def fun_upd_twist fun_upd_idem)+

definition spec_load ::
    "lib \<Rightarrow> 's valkey_cache \<Rightarrow> resource_cache_policy \<Rightarrow> bytes \<Rightarrow> pyval \<Rightarrow> int \<Rightarrow> pyval \<Rightarrow> (view, cache_lookup) py" where
  "spec_load L vc policy key x ttl_ms source v =
     (if x = PNone \<and> \<not> rp_negative_caching policy then (Inr (LOADED x None False), v)
      else (case spec_put L vc policy key x ttl_ms source v of
         (r, v') \<Rightarrow> (bindE r (\<lambda>d. Inr (LOADED x (Some d) False)), v')))"

definition spec_get_or_load ::
    "lib \<Rightarrow> 's valkey_cache \<Rightarrow> resource_cache_policy \<Rightarrow> bytes \<Rightarrow> pyval \<Rightarrow> int \<Rightarrow> pyval \<Rightarrow> (view, cache_lookup) py" where
  "spec_get_or_load L vc policy key x ttl_ms source v = (case spec_lookup L vc policy key v of
     (Inl e, v') \<Rightarrow> (Inl e, v')
   | (Inr found, v') \<Rightarrow>
       if cl_hit found then (Inr found, v')
       else spec_load L vc policy key x ttl_ms source v')"

lemma spec_put_under_lease:
  assumes "v_get v lkey = None" "key \<noteq> lkey" "spec_put L vc policy key x ttl_ms source (v_put lkey token l v) = (r, v')"
  shows "spec_put L vc policy key x ttl_ms source v = (r, snd (release_script lkey token v'))"
  using assms(3) lease_is_transparent [OF assms(1,2), of token]
  by (auto simp: spec_put_def spec_write_def split: sum.splits)

context cache_contract
begin

lemma lookup_rule:
  assumes "good (w_ext w)" "utf8_ok (rr_canonical ref)" "physical_key L vc context ref k PNone = Inr (key, policy)"
    "\<And>r w'. good (w_ext w') \<Longrightarrow> spec_lookup L vc policy key (store (w_ext w)) = (Inr r, store (w_ext w')) \<Longrightarrow> Q r w'"
    "\<And>e w'. good (w_ext w') \<Longrightarrow> spec_lookup L vc policy key (store (w_ext w)) = (Inl e, store (w_ext w')) \<Longrightarrow> R e w'"
  shows "wpM (lookup L vc context ref k) Q R w"
  using lookup_refines [OF assms(1-3)] by (auto simp: refines_wp intro: assms(4,5) elim!: wpM_mono)

lemma put_rule:
  assumes "good (w_ext w)" "utf8_ok (rr_canonical ref)" "physical_key L vc context ref k PNone = Inr (key, policy)"
    "effective_ttl_ms (vc_settings vc) policy req (x = PNone \<and> rp_negative_caching policy) = Inr ttl_ms" "0 < ttl_ms"
    "\<And>r w'. good (w_ext w') \<Longrightarrow> spec_put L vc policy key x ttl_ms source (store (w_ext w)) = (Inr r, store (w_ext w')) \<Longrightarrow> Q r w'"
    "\<And>e w'. good (w_ext w') \<Longrightarrow> spec_put L vc policy key x ttl_ms source (store (w_ext w)) = (Inl e, store (w_ext w')) \<Longrightarrow> R e w'"
  shows "wpM (put L vc context ref k x req source) Q R w"
  using put_refines [OF assms(1-5), of source] by (auto simp: refines_wp intro: assms(6,7) elim!: wpM_mono)

lemma load_through_refines:
  assumes "good (w_ext w)" "utf8_ok (rr_canonical ref)" "physical_key L vc context ref k PNone = Inr (key, policy)"
    "wf_settings (vc_settings vc)" "effective_ttl_ms (vc_settings vc) policy req (x = PNone \<and> rp_negative_caching policy) = Inr ttl_ms"
    "lease_key (vc_key_encoder vc) key = Inr lkey" "v_get (store (w_ext w)) lkey = None" "loads good store loader x"
    "\<And>e v'. spec_load L vc policy key x ttl_ms source (store (w_ext w)) = (Inl e, v') \<Longrightarrow> \<not> is_ValkeyError e"
  shows "refines good store (load_through L vc context ref k loader req source fuel) (spec_load L vc policy key x ttl_ms source) w"
proof -
  have range: "0 < ttl_ms" using effective_ttl_range [OF assms(4,5)] by simp
  have lease: "0 < lease_ms (single_flight (vc_settings vc))" using assms(4) by (simp add: wf_settings_def wf_single_flight_def)
  have ne: "key \<noteq> lkey"
    using assms(3,6) by (auto simp: physical_key_def res_simps dest: data_key_not_lease)
  have fails: "\<not> is_ValkeyError e"
    if "spec_put L vc policy key x ttl_ms source (store (w_ext w)) = (Inl e, v')" "x \<noteq> PNone \<or> rp_negative_caching policy" for e v'
    using assms(9) that by (auto simp: spec_load_def)
  show ?thesis
    unfolding refines_wp load_through_def load_and_populate_def release_quietly_def using assms(1,2,7) lease
    by (auto simp: wp_simps assms(3,6) spec_load_def lease_is_transparent [OF assms(7) ne]
        intro!: wp_cache wp_loads [OF assms(8)] put_rule [OF _ assms(2,3,5) range]
        dest!: spec_put_under_lease [OF assms(7) ne]) (use fails in blast)+
qed

lemma get_or_load_refines:
  assumes "good (w_ext w)" "utf8_ok (rr_canonical ref)" "physical_key L vc context ref k PNone = Inr (key, policy)"
    "wf_settings (vc_settings vc)" "effective_ttl_ms (vc_settings vc) policy req (x = PNone \<and> rp_negative_caching policy) = Inr ttl_ms"
    "lease_key (vc_key_encoder vc) key = Inr lkey" "v_get (store (w_ext w)) lkey = None" "loads good store loader x"
    "\<And>e v'. spec_get_or_load L vc policy key x ttl_ms source (store (w_ext w)) = (Inl e, v') \<Longrightarrow> \<not> is_ValkeyError e"
  shows "refines good store (get_or_load L vc context ref k loader req source fuel)
    (spec_get_or_load L vc policy key x ttl_ms source) w"
proof -
  have "refines good store (load_through L vc context ref k loader req source fuel) (spec_load L vc policy key x ttl_ms source) w'"
    if w': "good (w_ext w')" "spec_lookup L vc policy key (store (w_ext w)) = (Inr r, store (w_ext w'))" "\<not> cl_hit r" for r w'
  proof (rule load_through_refines [OF w'(1) assms(2-6) _ assms(8)])
    show "v_get (store (w_ext w')) lkey = None"
      using w'(2) assms(7) by (auto simp: spec_lookup_def split: cell.splits) (metis v_get_simps(2))
    show "\<not> is_ValkeyError e" if "spec_load L vc policy key x ttl_ms source (store (w_ext w')) = (Inl e, v')" for e v'
      using assms(9) w'(2,3) that by (simp add: spec_get_or_load_def)
  qed
  then show ?thesis
    unfolding refines_wp get_or_load_def wp_simps
    by (intro lookup_rule [OF assms(1-3)]) (use assms(9) in \<open>auto simp: spec_get_or_load_def wp_simps\<close>)
qed

end

end
