(* ===== verification/Vk_Fake.thy ===== *)
theory Vk_Fake
  imports Vk_Refinement
begin

section \<open>The deterministic engine of the test suite\<close>

text \<open>
  \<^verbatim>\<open>FakeValkey\<close> and \<^verbatim>\<open>FakePipeline\<close> of \<^verbatim>\<open>tests/fakes.py\<close>, as a client over the state \<open>fake\<close>, and a
  host on the same state: the codec's clock reads \<^verbatim>\<open>now_ms\<close> and the event sink records. It is the
  concrete engine the development's witnesses run on, and the instance of the engine contract of
  \<^verbatim>\<open>Vk_Contract\<close> (the fake is the repository's own reading of what Valkey does).
\<close>

subsection \<open>State\<close>

record stored =
  st_value :: pyval
  st_expires_at_ms :: "int option"

record fake_pipeline =
  fp_watched :: "bytes option"
  fp_expected_revision :: nat
  fp_pending :: "(bytes \<times> pyval \<times> int) option"

record fake =
  f_now_ms :: int
  f_values :: "bytes \<Rightarrow> stored option"
  f_revisions :: "bytes \<Rightarrow> nat"
  f_scripts :: "string list"
  f_closed :: bool
  f_raise_connection :: bool
  f_force_watch_conflict :: bool
  f_engine_version :: string
  f_maxmemory :: int
  f_eviction :: string
  f_appendonly :: string
  f_save :: string
  f_role :: string
  f_replicas :: int
  f_pipes :: "fake_pipeline list"
  f_events :: "(string \<times> (string \<times> string) list) list"
  f_tokens :: nat

definition FakeValkey :: fake where
  "FakeValkey = \<lparr>f_now_ms = 1700000000000, f_values = (\<lambda>_. None), f_revisions = (\<lambda>_. 0), f_scripts = [], f_closed = False,
     f_raise_connection = False, f_force_watch_conflict = False, f_engine_version = ''8.1.9'', f_maxmemory = 64 * 1024 * 1024,
     f_eviction = ''allkeys-lru'', f_appendonly = ''no'', f_save = '''', f_role = ''master'', f_replicas = 0, f_pipes = [],
     f_events = [], f_tokens = 0\<rparr>"

definition readM :: "('s \<Rightarrow> 'a) \<Rightarrow> ('s, 'a) py" where
  "readM f = (\<lambda>s. (Inr (f s), s))"

definition modifyM :: "('s \<Rightarrow> 's) \<Rightarrow> ('s, unit) py" where
  "modifyM f = (\<lambda>s. (Inr (), f s))"

definition assertM :: "bool \<Rightarrow> ('s, unit) py" where
  "assertM b = liftM (guardE b (OtherError ''AssertionError''))"

subsection \<open>Keys and values\<close>

definition fake_check :: "(fake, unit) py" where
  "fake_check = (\<lambda>s. if f_raise_connection s
     then (Inl (ValkeyError ''ConnectionError'' [VConnectionError] ''secret-host.internal:6379 password=do-not-leak''), s)
     else (Inr (), s))"

definition bump :: "bytes \<Rightarrow> fake \<Rightarrow> fake" where
  "bump key s = s\<lparr>f_revisions := (f_revisions s)(key := f_revisions s key + 1)\<rparr>"

definition expired :: "fake \<Rightarrow> stored \<Rightarrow> bool" where
  "expired s item = (case st_expires_at_ms item of None \<Rightarrow> False | Some e \<Rightarrow> e \<le> f_now_ms s)"

definition fake_live :: "bytes \<Rightarrow> (fake, stored option) py" where
  "fake_live key = (\<lambda>s. case f_values s key of
     None \<Rightarrow> (Inr None, s)
   | Some item \<Rightarrow>
       if expired s item then (Inr None, bump key (s\<lparr>f_values := (f_values s)(key := None)\<rparr>))
       else (Inr (Some item), s))"

definition advance :: "int \<Rightarrow> (fake, unit) py" where
  "advance milliseconds = modifyM (\<lambda>s. s\<lparr>f_now_ms := f_now_ms s + milliseconds\<rparr>)"

definition fake_get :: "bytes \<Rightarrow> (fake, pyval) py" where
  "fake_get key = thenM fake_check (bindM (fake_live key) (\<lambda>item.
     returnM (case item of None \<Rightarrow> PNone | Some i \<Rightarrow> st_value i)))"

definition fake_mget :: "bytes list \<Rightarrow> (fake, pyval list) py" where
  "fake_mget keys = mapM fake_get keys"

text \<open>The write of \<^verbatim>\<open>set\<close>, after the condition of \<^verbatim>\<open>nx\<close>.\<close>

definition fake_store :: "bytes \<Rightarrow> pyval \<Rightarrow> int \<Rightarrow> (fake, pyval) py" where
  "fake_store key v px = thenM
     (modifyM (\<lambda>s. bump key (s\<lparr>f_values := (f_values s)(key \<mapsto> \<lparr>st_value = v, st_expires_at_ms = Some (f_now_ms s + px)\<rparr>)\<rparr>)))
     (returnM (PBool True))"

definition fake_set :: "bytes \<Rightarrow> pyval \<Rightarrow> bool \<Rightarrow> int \<Rightarrow> (fake, pyval) py" where
  "fake_set key v nx px = thenM fake_check
     (if nx then bindM (fake_live key) (\<lambda>item. if item \<noteq> None then returnM PNone else fake_store key v px)
      else fake_store key v px)"

definition fake_delete :: "bytes \<Rightarrow> (fake, pyval) py" where
  "fake_delete key = thenM fake_check
     (\<lambda>s. (Inr (PInt (if f_values s key \<noteq> None then 1 else 0)), bump key (s\<lparr>f_values := (f_values s)(key := None)\<rparr>)))"

definition fake_pttl :: "bytes \<Rightarrow> (fake, int) py" where
  "fake_pttl key = bindM (fake_live key) (\<lambda>item. \<lambda>s. (Inr (case item of
     None \<Rightarrow> - 2
   | Some i \<Rightarrow> (case st_expires_at_ms i of None \<Rightarrow> - 1 | Some e \<Rightarrow> e - f_now_ms s)), s))"

subsection \<open>Scripts\<close>

definition fake_script_load :: "bytes \<Rightarrow> (fake, pyval) py" where
  "fake_script_load script = thenM fake_check
     (let digest = hexdigest (sha1 script) in
      thenM (modifyM (\<lambda>s. s\<lparr>f_scripts := List.insert digest (f_scripts s)\<rparr>)) (returnM (PStr digest)))"

definition fake_script_exists :: "string list \<Rightarrow> (fake, pyval list) py" where
  "fake_script_exists shas = thenM fake_check (readM (\<lambda>s. map (\<lambda>sha. PBool (sha \<in> set (f_scripts s))) shas))"

definition fake_release :: "bytes \<Rightarrow> pyval \<Rightarrow> (fake, pyval) py" where
  "fake_release key token = bindM (fake_get key) (\<lambda>current.
     if current = token then fake_delete key else returnM (PInt 0))"

definition fake_cas :: "bytes \<Rightarrow> pyval list \<Rightarrow> (fake, pyval) py" where
  "fake_cas key args = bindM (fake_get key) (\<lambda>current.
     if current = PNone then returnM (PInt (- 1))
     else (case current of
       PBytes cur \<Rightarrow>
         if take 6 cur \<noteq> ''MRVK1|'' then returnM (PInt (- 2))
         else (case args of
           [PStr version, envelope, PStr ms] \<Rightarrow>
             bindM (liftM (utf8_encode version)) (\<lambda>expected.
             if py_slice 6 77 cur \<noteq> expected then returnM (PInt 0)
             else bindM (liftM (py_int10 ms)) (\<lambda>px.
               thenM (fake_set key envelope False px) (returnM (PInt 1))))
         | _ \<Rightarrow> raiseM (TypeError ''unexpected script arguments''))
     | _ \<Rightarrow> returnM (PInt (- 2))))"

definition fake_evalsha :: "string \<Rightarrow> nat \<Rightarrow> pyval list \<Rightarrow> (fake, pyval) py" where
  "fake_evalsha sha numkeys keys_and_args = thenM fake_check
     (bindM (readM (\<lambda>s. sha \<in> set (f_scripts s))) (\<lambda>known.
      if \<not> known then raiseM (ValkeyError ''NoScriptError'' [VNoScriptError, VResponseError] ''NOSCRIPT'')
      else thenM (assertM (numkeys = 1))
        (case keys_and_args of
          PBytes key # args \<Rightarrow>
            if sha = removeprefix ''sha1:'' RELEASE_LEASE_SCRIPT_DIGEST then
              (case args of token # _ \<Rightarrow> fake_release key token | [] \<Rightarrow> raiseM (OtherError ''IndexError''))
            else if sha = removeprefix ''sha1:'' CAS_SCRIPT_DIGEST then fake_cas key args
            else raiseM (OtherError ''AssertionError'')
        | _ \<Rightarrow> raiseM (TypeError ''unexpected script arguments''))))"

subsection \<open>Server information\<close>

definition fake_ping :: "(fake, pyval) py" where
  "fake_ping = thenM fake_check (returnM (PBool True))"

definition fake_info :: "string \<Rightarrow> (fake, mapping) py" where
  "fake_info sect = thenM fake_check (readM (\<lambda>s.
     if sect = ''server'' then [(PStr ''valkey_version'', PStr (f_engine_version s))]
     else if sect = ''memory'' then [(PStr ''maxmemory'', PInt (f_maxmemory s))]
     else if sect = ''replication'' then [(PStr ''role'', PStr (f_role s)), (PStr ''connected_slaves'', PInt (f_replicas s))]
     else []))"

definition fake_config_get :: "string \<Rightarrow> (fake, mapping) py" where
  "fake_config_get pattern = thenM fake_check (readM (\<lambda>s.
     [(PStr ''maxmemory-policy'', PStr (f_eviction s)), (PStr ''appendonly'', PStr (f_appendonly s)), (PStr ''save'', PStr (f_save s))]))"

definition fake_execute_command :: "string list \<Rightarrow> (fake, pyval) py" where
  "fake_execute_command args = thenM fake_check
     (case args of
       a # commands \<Rightarrow> if a = ''COMMAND INFO'' then returnM (PList (map (\<lambda>c. PList [PBytes c, PInt (- 1)]) commands))
         else returnM (PBytes ''OK'')
     | [] \<Rightarrow> returnM (PBytes ''OK''))"

definition fake_close :: "(fake, unit) py" where
  "fake_close = modifyM (\<lambda>s. s\<lparr>f_closed := True\<rparr>)"

subsection \<open>Pipelines\<close>

definition fake_pipeline_new :: "(fake, nat) py" where
  "fake_pipeline_new = (\<lambda>s. (Inr (length (f_pipes s)),
     s\<lparr>f_pipes := f_pipes s @ [\<lparr>fp_watched = None, fp_expected_revision = 0, fp_pending = None\<rparr>]\<rparr>))"

definition update_pipe :: "nat \<Rightarrow> (fake_pipeline \<Rightarrow> fake_pipeline) \<Rightarrow> (fake, unit) py" where
  "update_pipe p f = modifyM (\<lambda>s. s\<lparr>f_pipes := (f_pipes s)[p := f (f_pipes s ! p)]\<rparr>)"

definition fake_watch :: "nat \<Rightarrow> bytes \<Rightarrow> (fake, unit) py" where
  "fake_watch p key = bindM (readM (\<lambda>s. f_revisions s key)) (\<lambda>revision.
     update_pipe p (\<lambda>fp. fp\<lparr>fp_watched := Some key, fp_expected_revision := revision\<rparr>))"

definition fake_pipe_set :: "nat \<Rightarrow> bytes \<Rightarrow> bytes \<Rightarrow> int \<Rightarrow> (fake, unit) py" where
  "fake_pipe_set p key v px = update_pipe p (\<lambda>fp. fp\<lparr>fp_pending := Some (key, PBytes v, px)\<rparr>)"

definition fake_execute :: "nat \<Rightarrow> (fake, unit) py" where
  "fake_execute p = bindM (readM (\<lambda>s. s)) (\<lambda>s.
     let fp = f_pipes s ! p in
     (case fp_watched fp of
       None \<Rightarrow> raiseM (OtherError ''AssertionError'')
     | Some watched \<Rightarrow>
         if f_force_watch_conflict s then
           thenM (modifyM (\<lambda>s. s\<lparr>f_force_watch_conflict := False\<rparr>)) (raiseM (watch_error ''injected contention''))
         else if f_revisions s watched \<noteq> fp_expected_revision fp then raiseM (watch_error ''watched key changed'')
         else (case fp_pending fp of
           None \<Rightarrow> raiseM (OtherError ''AssertionError'')
         | Some (key, v, px) \<Rightarrow> bindM (fake_set key v False px) (\<lambda>_. returnM ()))))"

definition fake_reset :: "nat \<Rightarrow> (fake, unit) py" where
  "fake_reset p = update_pipe p (\<lambda>fp. fp\<lparr>fp_pending := None\<rparr>)"

subsection \<open>The client and the host\<close>

definition fake_client :: "fake client" where
  "fake_client = \<lparr>c_ping = fake_ping, c_info = fake_info, c_config_get = fake_config_get,
     c_execute_command = fake_execute_command, c_script_load = fake_script_load, c_script_exists = fake_script_exists,
     c_evalsha = fake_evalsha, c_get = fake_get, c_mget = fake_mget, c_set = (\<lambda>key v. fake_set key (PBytes v)),
     c_delete = fake_delete, c_close = fake_close, c_pipeline = fake_pipeline_new, p_watch = fake_watch,
     p_get = (\<lambda>p. fake_get), p_multi = (\<lambda>p. returnM ()), p_set = fake_pipe_set, p_execute = fake_execute,
     p_reset = fake_reset\<rparr>"

definition recording_emit :: "string \<Rightarrow> (string \<times> string) list \<Rightarrow> (fake, unit) py" where
  "recording_emit name attributes = modifyM (\<lambda>s. s\<lparr>f_events := f_events s @ [(name, attributes)]\<rparr>)"

text \<open>
  The host: tokens are numbered, the monotonic clock follows \<^verbatim>\<open>now_ms\<close> (in units of a 1024th of a second,
  up to a horizon beyond which it reads infinity), and sleeping advances it by \<open>step\<close> milliseconds.
\<close>

definition fake_monotonic :: "fake \<Rightarrow> pyfloat" where
  "fake_monotonic s = (if f_now_ms s < 2 ^ 50 then FFinite (f_now_ms s < 0) (nat \<bar>f_now_ms s\<bar>) (- 10) else FInf False)"

definition fake_host :: "nat \<Rightarrow> fake host" where
  "fake_host step = \<lparr>h_clock_ms = readM f_now_ms,
     h_token_bytes = (\<lambda>s. (Inr (replicate 32 (char_of (f_tokens s))), s\<lparr>f_tokens := f_tokens s + 1\<rparr>)),
     h_emit = recording_emit,
     h_sleep = (\<lambda>x. advance (int step)),
     h_monotonic = readM fake_monotonic\<rparr>"

lemma fake_client_simps [simp]:
  "c_get fake_client = fake_get" "c_mget fake_client = fake_mget" "c_set fake_client k v = fake_set k (PBytes v)"
  "c_delete fake_client = fake_delete" "c_evalsha fake_client = fake_evalsha" "c_script_load fake_client = fake_script_load"
  "c_pipeline fake_client = fake_pipeline_new" "p_watch fake_client = fake_watch" "p_get fake_client p = fake_get"
  "p_multi fake_client p = returnM ()" "p_set fake_client = fake_pipe_set" "p_execute fake_client = fake_execute"
  "p_reset fake_client = fake_reset" "c_ping fake_client = fake_ping" "c_info fake_client = fake_info"
  "c_config_get fake_client = fake_config_get" "c_execute_command fake_client = fake_execute_command"
  "c_script_exists fake_client = fake_script_exists" "c_close fake_client = fake_close"
  by (simp_all add: fake_client_def)

lemma fake_host_simps [simp]:
  "h_clock_ms (fake_host n) = readM f_now_ms" "h_emit (fake_host n) = recording_emit"
  "h_sleep (fake_host n) x = advance (int n)" "h_monotonic (fake_host n) = readM fake_monotonic"
  by (simp_all add: fake_host_def)

subsection \<open>The fake meets the contract\<close>

text \<open>
  The states the adapter brings about: the engine answers, and every value is bytes with an expiry.
  An entry that has expired but was not yet removed does not belong to the store.
\<close>

definition fake_good :: "fake \<Rightarrow> bool" where
  "fake_good s = (\<not> f_raise_connection s \<and>
     (\<forall>key item. f_values s key = Some item \<longrightarrow> (\<exists>b e. item = \<lparr>st_value = PBytes b, st_expires_at_ms = Some e\<rparr>)))"

definition live_entry :: "int \<Rightarrow> stored \<Rightarrow> (bytes \<times> int) option" where
  "live_entry now item = (case (bytes_of (st_value item), st_expires_at_ms item) of
     (Some b, Some e) \<Rightarrow> if now < e then Some (b, e) else None | _ \<Rightarrow> None)"

definition fake_view :: "fake \<Rightarrow> view" where
  "fake_view s = \<lparr>v_now = f_now_ms s, v_entries = (\<lambda>key. Option.bind (f_values s key) (live_entry (f_now_ms s)))\<rparr>"

lemma v_now_fake_view [simp]: "v_now (fake_view s) = f_now_ms s"
  by (simp add: fake_view_def)

lemma readM_apply [simp]: "readM f s = (Inr (f s), s)"
  by (simp add: readM_def)

lemma modifyM_apply [simp]: "modifyM f s = (Inr (), f s)"
  by (simp add: modifyM_def)

lemma bindM_run: "m s = (Inr x, s') \<Longrightarrow> bindM m f s = f x s'" "m s = (Inl e, s') \<Longrightarrow> bindM m f s = (Inl e, s')"
  by (simp_all add: bindM_def)

lemma thenM_run: "m s = (Inr x, s') \<Longrightarrow> thenM m k s = k s'"
  by (simp add: thenM_def bindM_def)

lemma assertM_True [simp]: "thenM (assertM True) k = k"
  by (simp add: assertM_def thenM_def)

lemma fake_check_good [simp]: "fake_good s \<Longrightarrow> thenM fake_check m s = m s"
  by (simp add: thenM_def bindM_run fake_check_def fake_good_def)

lemma view_frame [simp]:
  "fake_view (s\<lparr>f_scripts := x1\<rparr>) = fake_view s" "fake_view (s\<lparr>f_events := x2\<rparr>) = fake_view s"
  "fake_view (s\<lparr>f_tokens := x3\<rparr>) = fake_view s" "fake_view (s\<lparr>f_revisions := x4\<rparr>) = fake_view s"
  "fake_view (s\<lparr>f_pipes := x5\<rparr>) = fake_view s" "fake_view (bump key s) = fake_view s"
  by (simp_all add: fake_view_def bump_def)

lemma good_frame [simp]:
  "fake_good (s\<lparr>f_scripts := x1\<rparr>) = fake_good s" "fake_good (s\<lparr>f_events := x2\<rparr>) = fake_good s"
  "fake_good (s\<lparr>f_tokens := x3\<rparr>) = fake_good s" "fake_good (s\<lparr>f_revisions := x4\<rparr>) = fake_good s"
  "fake_good (s\<lparr>f_pipes := x5\<rparr>) = fake_good s" "fake_good (bump key s) = fake_good s"
  by (simp_all add: fake_good_def bump_def)

lemma view_store:
  "0 < px \<Longrightarrow> fake_view (s\<lparr>f_values := (f_values s)(key \<mapsto> \<lparr>st_value = PBytes b, st_expires_at_ms = Some (f_now_ms s + px)\<rparr>)\<rparr>) =
     v_put key b px (fake_view s)"
  "fake_view (s\<lparr>f_values := (f_values s)(key := None)\<rparr>) = v_del key (fake_view s)"
  by (auto simp: fake_view_def v_put_def v_del_def live_entry_def fun_eq_iff)

lemma good_store:
  "fake_good s \<Longrightarrow> fake_good (s\<lparr>f_values := (f_values s)(key \<mapsto> \<lparr>st_value = PBytes b, st_expires_at_ms = Some t\<rparr>)\<rparr>)"
  "fake_good s \<Longrightarrow> fake_good (s\<lparr>f_values := (f_values s)(key := None)\<rparr>)"
  by (auto simp: fake_good_def)

text \<open>Reading an entry through \<^verbatim>\<open>_live\<close>: the store is the same, whether an expired value was removed or not.\<close>

lemma fake_live_spec:
  assumes "fake_good s"
  obtains s' where "fake_good s'" "fake_view s' = fake_view s" "f_scripts s' = f_scripts s" "f_now_ms s' = f_now_ms s"
    "fake_live key s = (Inr (case v_get (fake_view s) key of None \<Rightarrow> None
       | Some b \<Rightarrow> Some \<lparr>st_value = PBytes b, st_expires_at_ms = map_option snd (v_entries (fake_view s) key)\<rparr>), s')"
proof (cases "f_values s key")
  case None
  with that [of s] assms show ?thesis by (simp add: fake_live_def v_get_def fake_view_def)
next
  case (Some item)
  with assms obtain b e where item: "item = \<lparr>st_value = PBytes b, st_expires_at_ms = Some e\<rparr>"
    unfolding fake_good_def by blast
  show ?thesis
  proof (cases "expired s item")
    case True
    then have "v_get (fake_view s) key = None" by (simp add: Some item v_get_def fake_view_def live_entry_def expired_def)
    with True Some item that [of "bump key (s\<lparr>f_values := (f_values s)(key := None)\<rparr>)"] show ?thesis
      by (simp add: fake_live_def good_store assms view_store v_del_absent) (simp add: bump_def)
  next
    case False
    then have "v_entries (fake_view s) key = Some (b, e)" by (simp add: Some item fake_view_def live_entry_def expired_def)
    with False Some item that [of s] assms show ?thesis by (simp add: fake_live_def v_get_def)
  qed
qed

lemma fake_get_spec:
  assumes "fake_good s"
  obtains s' where "fake_good s'" "fake_view s' = fake_view s" "f_scripts s' = f_scripts s"
    "fake_get key s = (Inr (reply (v_get (fake_view s) key)), s')"
proof -
  obtain s' where s': "fake_good s'" "fake_view s' = fake_view s" "f_scripts s' = f_scripts s"
    "fake_live key s = (Inr (case v_get (fake_view s) key of None \<Rightarrow> None
       | Some b \<Rightarrow> Some \<lparr>st_value = PBytes b, st_expires_at_ms = map_option snd (v_entries (fake_view s) key)\<rparr>), s')"
    by (rule fake_live_spec [OF assms])
  with that [of s'] show ?thesis
    by (cases "v_get (fake_view s) key") (simp_all add: fake_get_def assms bindM_run reply_def)
qed

lemma fake_mget_spec:
  assumes "fake_good s"
  shows "\<exists>s'. fake_mget keys s = (Inr (map (\<lambda>key. reply (v_get (fake_view s) key)) keys), s') \<and> fake_good s' \<and> fake_view s' = fake_view s"
  using assms
proof (induction keys arbitrary: s)
  case (Cons key keys)
  obtain s1 where s1: "fake_good s1" "fake_view s1 = fake_view s" "fake_get key s = (Inr (reply (v_get (fake_view s) key)), s1)"
    by (rule fake_get_spec [OF Cons.prems])
  from Cons.IH [OF s1(1)] s1 show ?case by (auto simp: fake_mget_def bindM_run)
qed (simp add: fake_mget_def)

lemma fake_store_spec:
  assumes "fake_good s" "0 < px"
  shows "\<exists>s'. fake_store key (PBytes b) px s = (Inr (PBool True), s') \<and> fake_good s' \<and> fake_view s' = v_put key b px (fake_view s)"
  using assms by (simp add: fake_store_def thenM_def bindM_run view_store good_store)

lemma fake_set_spec:
  assumes "fake_good s" "0 < px"
  shows "\<exists>s'. fake_set key (PBytes b) nx px s = (Inr (if nx \<and> v_get (fake_view s) key \<noteq> None then PNone else PBool True), s') \<and>
    fake_good s' \<and> fake_view s' = (if nx \<and> v_get (fake_view s) key \<noteq> None then fake_view s else v_put key b px (fake_view s))"
proof (cases nx)
  case True
  obtain s' where s': "fake_good s'" "fake_view s' = fake_view s"
    "fake_live key s = (Inr (case v_get (fake_view s) key of None \<Rightarrow> None
       | Some b \<Rightarrow> Some \<lparr>st_value = PBytes b, st_expires_at_ms = map_option snd (v_entries (fake_view s) key)\<rparr>), s')"
    by (rule fake_live_spec [OF assms(1)])
  then show ?thesis using fake_store_spec [OF s'(1) assms(2), of key b] True
    by (cases "v_get (fake_view s) key") (auto simp: fake_set_def assms(1) bindM_run)
next
  case False
  then show ?thesis using fake_store_spec [OF assms, of key b] by (simp add: fake_set_def assms(1))
qed

lemma fake_delete_spec:
  assumes "fake_good s"
  shows "\<exists>n s'. fake_delete key s = (Inr (PInt n), s') \<and> fake_good s' \<and> fake_view s' = v_del key (fake_view s) \<and>
    (v_get (fake_view s) key \<noteq> None \<longrightarrow> n = 1)"
proof -
  have "v_get (fake_view s) key = None" if "f_values s key = None" using that by (simp add: v_get_def fake_view_def)
  then show ?thesis using assms by (auto simp: fake_delete_def view_store good_store)
qed


lemma decimal_digits:
  "list_all is_dec_digit ds \<Longrightarrow> int10_digits acc n False ds = Some (foldl (\<lambda>a c. a * 10 + (of_char c - 48)) acc ds, n + length ds)"
proof (induction ds arbitrary: acc n)
  case (Cons c cs)
  then have "c \<noteq> CHR ''_''" by (auto simp: is_dec_digit_def)
  with Cons show ?case by simp
qed simp

lemma py_int10_show:
  assumes "0 < i" "length (show_nat (nat i)) \<le> max_str_digits"
  shows "py_int10 (show_int i) = Inr i"
proof -
  let ?s = "show_nat (nat i)"
  have digits: "list_all is_dec_digit ?s" and ne: "?s \<noteq> []" by (simp_all add: show_nat_digits)
  obtain c cs where s: "?s = c # cs" using ne by (cases ?s) auto
  have c: "is_dec_digit c" using digits s by simp
  then have "c \<noteq> CHR ''_''" "c \<noteq> CHR ''-''" "c \<noteq> CHR ''+''" by (auto simp: is_dec_digit_def)
  moreover have "strip ?s = ?s"
    using digits by (intro strip_no_space) (auto simp: list_all_iff is_dec_digit_def is_space_def)
  moreover have "digits_val ?s = i" using assms(1) by (simp add: digits_val_show_nat)
  ultimately show ?thesis
    using assms s c decimal_digits [of cs] digits
    by (simp add: py_int10_def show_int_def Let_def digits_val_def)
qed


lemma removeprefix_digests:
  "removeprefix ''sha1:'' RELEASE_LEASE_SCRIPT_DIGEST = hexdigest (sha1 RELEASE_LEASE_SCRIPT)"
  "removeprefix ''sha1:'' CAS_SCRIPT_DIGEST = hexdigest (sha1 CAS_SCRIPT)"
  by (simp_all add: removeprefix_def RELEASE_LEASE_SCRIPT_DIGEST_def CAS_SCRIPT_DIGEST_def sha1_hex_def)

lemma fake_cas_spec:
  assumes "fake_good s" "utf8_ok version" "0 < px" "length (show_nat (nat px)) \<le> max_str_digits"
  shows "\<exists>s'. fake_cas key [PStr version, PBytes x, PStr (show_int px)] s =
    (Inr (PInt (fst (cas_script key version x px (fake_view s)))), s') \<and> fake_good s' \<and>
    fake_view s' = snd (cas_script key version x px (fake_view s))"
proof -
  obtain s1 where s1: "fake_good s1" "fake_view s1 = fake_view s" "fake_get key s = (Inr (reply (v_get (fake_view s) key)), s1)"
    by (rule fake_get_spec [OF assms(1)])
  have int10: "py_int10 (show_int px) = Inr px" using assms(3,4) by (rule py_int10_show)
  obtain s2 where s2: "fake_set key (PBytes x) False px s1 = (Inr (PBool True), s2)" "fake_good s2" "fake_view s2 = v_put key x px (fake_view s)"
    using fake_set_spec [OF s1(1) assms(3), of key x False] s1(2) by auto
  show ?thesis
  proof (cases "v_get (fake_view s) key")
    case None
    with s1 show ?thesis by (simp add: fake_cas_def bindM_run reply_def cas_script_def)
  next
    case (Some cur)
    with s1 s2 assms(2) int10 show ?thesis
      by (auto simp: fake_cas_def bindM_run reply_def cas_script_def lua_sub_def py_slice_def utf8_encode_def thenM_def)
  qed
qed

lemma fake_release_spec:
  assumes "fake_good s"
  shows "\<exists>s'. fake_release key (PBytes token) s = (Inr (PInt (fst (release_script key token (fake_view s)))), s') \<and> fake_good s' \<and>
    fake_view s' = snd (release_script key token (fake_view s))"
proof -
  obtain s1 where s1: "fake_good s1" "fake_view s1 = fake_view s" "fake_get key s = (Inr (reply (v_get (fake_view s) key)), s1)"
    by (rule fake_get_spec [OF assms])
  with fake_delete_spec [OF s1(1), of key] show ?thesis
    by (cases "v_get (fake_view s) key") (auto simp: fake_release_def bindM_run reply_def release_script_def)
qed

lemma fake_evalsha_run:
  assumes "fake_good s" "sha \<in> set (f_scripts s)"
  shows "fake_evalsha sha (Suc 0) (PBytes key # args) s =
    (if sha = hexdigest (sha1 RELEASE_LEASE_SCRIPT) then
       (case args of token # _ \<Rightarrow> fake_release key token | [] \<Rightarrow> raiseM (OtherError ''IndexError''))
     else if sha = hexdigest (sha1 CAS_SCRIPT) then fake_cas key args else raiseM (OtherError ''AssertionError'')) s"
  using assms by (simp add: fake_evalsha_def removeprefix_digests bindM_run)

interpretation fake: engine_contract fake_client "fake_host step" fake_good fake_view "\<lambda>s. set (f_scripts s)"
  for step
proof (unfold_locales, goal_cases)
  case (1 s key x e)
  then show ?case by (auto simp: fake_view_def live_entry_def split: option.splits Option.bind_splits if_splits)
next
  case (2 s key)
  then obtain s' where "fake_good s'" "fake_view s' = fake_view s" "fake_get key s = (Inr (reply (v_get (fake_view s) key)), s')"
    by (rule fake_get_spec)
  then show ?case by simp
next
  case (3 s keys)
  then show ?case using fake_mget_spec [of s keys] by simp
next
  case (4 s px key x nx)
  then show ?case using fake_set_spec [of s px key x nx] by simp
next
  case (5 s key)
  then show ?case using fake_delete_spec [of s key] by simp
next
  case (6 s sha n args)
  then show ?case by (simp add: fake_evalsha_def bindM_run)
next
  case (7 s script)
  then show ?case by (simp add: fake_script_load_def Let_def thenM_def [of "modifyM _"] bindM_run)
next
  case (8 s version px key x)
  then show ?case using fake_cas_spec [of s version px key x] script_names_differ by (simp add: fake_evalsha_run)
next
  case (9 s key token)
  then show ?case using fake_release_spec [of s key token] by (simp add: fake_evalsha_run)
qed (simp_all add: recording_emit_def fake_host_def)

subsection \<open>A cache on the fake\<close>

definition fake_cache :: "key_encoder \<Rightarrow> envelope_codec \<Rightarrow> valkey_settings \<Rightarrow> nat \<Rightarrow> fake valkey_cache" where
  "fake_cache encoder codec settings step = \<lparr>vc_client = fake_client, vc_key_encoder = encoder, vc_codec = codec,
     vc_settings = settings, vc_host = fake_host step\<rparr>"

lemma fake_cache_simps [simp]:
  "vc_client (fake_cache e c s n) = fake_client" "vc_key_encoder (fake_cache e c s n) = e" "vc_codec (fake_cache e c s n) = c"
  "vc_settings (fake_cache e c s n) = s" "vc_host (fake_cache e c s n) = fake_host n"
  by (simp_all add: fake_cache_def)

interpretation fake_cache: cache_contract "fake_cache encoder codec settings step" fake_good fake_view "\<lambda>s. set (f_scripts s)" L
  for encoder codec settings step L
  by (simp add: cache_contract_def fake.engine_contract_axioms)

lemma FakeValkey_good: "fake_good FakeValkey"
  by (simp add: fake_good_def FakeValkey_def)

subsection \<open>Examples\<close>

definition sample_cache :: "fake valkey_cache" where
  "sample_cache = fake_cache (sample_encoder 1) sample_codec sample_settings 10"

definition sample_world :: "fake world" where
  "sample_world = \<lparr>w_ext = FakeValkey, w_metrics = []\<rparr>"

lemma sample_cache_simps [simp]:
  "vc_client sample_cache = fake_client" "vc_key_encoder sample_cache = sample_encoder 1" "vc_codec sample_cache = sample_codec"
  "vc_settings sample_cache = sample_settings" "vc_host sample_cache = fake_host 10"
  by (simp_all add: sample_cache_def)

lemma sample_world_simps [simp]: "w_ext sample_world = FakeValkey" "fake_good FakeValkey" "f_now_ms FakeValkey = 1700000000000"
  "v_get (fake_view FakeValkey) key = None"
  by (simp_all add: sample_world_def FakeValkey_good) (simp_all add: FakeValkey_def v_get_def fake_view_def)

lemma wf_sample_settings: "wf_settings sample_settings"
  by (simp add: wf_settings_def sample_settings_def wf_limits_def wf_ttl_def wf_single_flight_def wf_memory_def wf_topology_def
      wf_policy_def sample_policy_def INT31_MAX_def ms_in_range_def TOPOLOGY_STANDALONE_def SUPPORTED_SERIALIZERS_def
      SERIALIZER_CANONICAL_JSON_def sample_policies) (simp add: default_eviction_policies_def is_safe_token_def is_alnum_def Let_def)

lemma sample_physical_keys:
  assumes "is_ascii k" "1 \<le> g" "g \<le> 2147483647"
  obtains key lkey where "physical_key ref_lib (fake_cache (sample_encoder g) sample_codec sample_settings 10) sample_context sample_ref
      (PStr k) PNone = Inr (key, sample_policy)"
    "lease_key (sample_encoder g) key = Inr lkey"
proof -
  obtain key lkey where key: "encode_key ref_lib (sample_encoder g) (sample_material k PNone) = Inr key"
    "lease_key (sample_encoder g) key = Inr lkey"
    by (rule sample_key [OF assms(1), of PNone g]) (use assms in auto)
  have "printable 100 (PStr k)" using assms by (simp add: utf8_ok_ascii)
  then obtain b where "canonical_json_bytes ref_lib (PStr k) = Inr b"
    using ref_json_ok by (fastforce simp: ref_lib_def)
  then have "KeyMaterial ref_lib sample_context sample_ref (PStr k) (PStr (rp_schema_fingerprint sample_policy)) PNone =
      Inr (sample_material k PNone)"
    by (simp add: KeyMaterial_def json_scalar_or_array_def sample_policy_def require_fingerprint_def sample_material_def)
      (simp add: ref_lib_def sample_ref_def)
  with key that show ?thesis
    by (simp add: physical_key_def policy_for_def) (simp add: sample_settings_def sample_ref_def)
qed

lemma sample_physical_key:
  assumes "is_ascii k"
  obtains key lkey where "physical_key ref_lib sample_cache sample_context sample_ref (PStr k) PNone = Inr (key, sample_policy)"
    "lease_key (sample_encoder 1) key = Inr lkey"
  by (rule sample_physical_keys [OF assms, of 1]) (simp_all add: sample_cache_def)

lemma sample_utf8 [simp]: "utf8_ok (rr_canonical sample_ref)"
  by (simp add: sample_ref_def utf8_ok_ascii is_ascii_def)

lemma sample_ttl: "effective_ttl_ms sample_settings sample_policy PNone False = Inr 60000"
  by (simp add: effective_ttl_ms_def selected_ttl_def sample_settings_def sample_policy_def)

end
