(* ===== verification/Vk_Cache_Theorems.thy ===== *)
theory Vk_Cache_Theorems
  imports Vk_Fake
begin

section \<open>What the cache guarantees on a working engine\<close>

text \<open>
  The properties of the cache operations on any engine that meets the contract of
  \<^verbatim>\<open>Vk_Contract\<close>, read off the refinement of \<^verbatim>\<open>Vk_Refinement\<close>, and that the engine of the test suite
  is such an engine. The witnesses run the operations on that engine.
\<close>


text \<open>A freshness check apart, decoding does not depend on the time.\<close>

lemma decode_at_later:
  assumes "decode_at L c raw schema stale now = Inr d" "t < de_expires_at_ms d"
    "case stale of None \<Rightarrow> True | Some m \<Rightarrow> t < de_created_at_ms d + m"
  shows "decode_at L c raw schema stale t = Inr d"
  using assms by (auto simp: decode_at_def decode_fresh_def Let_def res_simps split: option.splits)

lemma spec_put_Inr:
  assumes "spec_put L vc policy key x ttl_ms source v = (Inr d, v')"
  obtains raw where "encode_at L (vc_codec vc) x (rp_serializer_id policy) (PStr (rp_schema_fingerprint policy)) (PInt ttl_ms) source
      (PInt (v_now v)) = Inr raw"
    "decode_at L (vc_codec vc) raw (PStr (rp_schema_fingerprint policy)) (rp_maximum_staleness_ms policy) (v_now v) = Inr d"
    "v' = v_put key raw ttl_ms v"
  using assms by (auto simp: spec_put_def spec_write_def res_simps split: sum.splits)

lemma entry_after_put:
  assumes "lawful_json L" "spec_put L vc policy key x ttl_ms source v = (Inr d, v')" "is_fingerprint (rp_schema_fingerprint policy)"
    "case rp_maximum_staleness_ms policy of None \<Rightarrow> True | Some m \<Rightarrow> 0 < m \<and> ttl_ms \<le> m"
  shows "same_value L (rp_serializer_id policy) x (de_value d)" "de_expires_at_ms d = v_now v + ttl_ms" "de_source_version d = source"
    "cell_of L vc policy key (v_at t v') = (if t < v_now v + ttl_ms then Entry d else Absent)"
proof -
  from assms(2) obtain raw where
    raw: "encode_at L (vc_codec vc) x (rp_serializer_id policy) (PStr (rp_schema_fingerprint policy)) (PInt ttl_ms) source
      (PInt (v_now v)) = Inr raw"
    "decode_at L (vc_codec vc) raw (PStr (rp_schema_fingerprint policy)) (rp_maximum_staleness_ms policy) (v_now v) = Inr d"
    "v' = v_put key raw ttl_ms v" by (rule spec_put_Inr)
  have "same_value L (rp_serializer_id policy) x (de_value d) \<and> de_expires_at_ms d = v_now v + ttl_ms \<and> de_source_version d = source \<and>
      de_created_at_ms d = v_now v"
    using decode_at_encoded [OF assms(1) raw(1) assms(3), of "rp_maximum_staleness_ms policy" "v_now v"] raw(2) assms(4)
    by (auto split: if_splits option.splits)
  then show facts: "same_value L (rp_serializer_id policy) x (de_value d)" "de_expires_at_ms d = v_now v + ttl_ms" "de_source_version d = source"
    and "cell_of L vc policy key (v_at t v') = (if t < v_now v + ttl_ms then Entry d else Absent)"
    using decode_at_later [OF raw(2), of t] assms(4)
    by (auto simp: cell_of_def raw(3) v_get_def v_at_def v_put_def split: option.splits)
qed

lemma spec_put_frame:
  assumes "spec_put L vc policy key x ttl_ms source v = (Inr d, v')"
  shows "\<forall>key'. key' \<noteq> key \<longrightarrow> v_entries v' key' = v_entries v key'"
  using assms by (rule spec_put_Inr) (simp add: v_put_def)

lemma policy_wf:
  assumes "wf_settings (vc_settings vc)" "physical_key L vc context ref k g = Inr (key, policy)"
  shows "wf_policy policy" "is_fingerprint (rp_schema_fingerprint policy)"
proof -
  have "policy_for (vc_settings vc) (rr_str ref) = Inr policy" using assms(2) by (auto simp: physical_key_def res_simps)
  then have "(rr_str ref, policy) \<in> set (resources (vc_settings vc))"
    by (auto simp: policy_for_def split: option.splits dest: map_of_SomeD)
  with assms(1) show "wf_policy policy" by (auto simp: wf_settings_def list_all_iff)
  then show "is_fingerprint (rp_schema_fingerprint policy)" by (simp add: wf_policy_def)
qed

lemma ttl_below_staleness:
  assumes "wf_policy policy" "effective_ttl_ms s policy req neg = Inr ttl_ms"
  shows "case rp_maximum_staleness_ms policy of None \<Rightarrow> True | Some m \<Rightarrow> 0 < m \<and> ttl_ms \<le> m"
  using assms by (auto simp: effective_ttl_ms_eq_Inr ttl_cap_def wf_policy_def ms_in_range_def split: option.splits)

lemma refines_run:
  assumes "refines good store m sp w"
  obtains r w' where "m w = (r, w')" "good (w_ext w')" "sp (store (w_ext w)) = (r, store (w_ext w'))"
  using assms by (cases "m w") (auto simp: refines_def)

text \<open>
  C3: the cache refines a store of entries. On an engine that meets the contract, a lookup, a write, a
  conditional write and a deletion return or raise exactly what their specification does on the
  abstract store, and leave the specified store: a lookup returns the entry that decodes and
  removes bytes that do not, a write puts the encoded value under the key with its TTL, a
  conditional write does so only when the key holds nothing (not even undecodable bytes), and a
  deletion leaves nothing.
\<close>

theorem cache_refines_store:
  assumes "engine_contract (vc_client vc) (vc_host vc) good store loaded" "good (w_ext w)"
    "utf8_ok (rr_canonical ref)" "physical_key L vc context ref k PNone = Inr (key, policy)" "wf_settings (vc_settings vc)"
    "effective_ttl_ms (vc_settings vc) policy req (x = PNone \<and> rp_negative_caching policy) = Inr ttl_ms"
  shows "refines good store (lookup L vc context ref k) (spec_lookup L vc policy key) w \<and>
    refines good store (put L vc context ref k x req source) (spec_put L vc policy key x ttl_ms source) w \<and>
    refines good store (put_if_absent L vc context ref k x req source) (spec_write L vc policy key x ttl_ms source True) w \<and>
    refines good store (thenM (delete L vc context ref k) (returnM ())) (spec_delete key) w"
proof -
  note ctr = cache_contract.intro [OF assms(1)] and ttl = effective_ttl_range [OF assms(5,6), THEN conjunct1]
  show ?thesis
    using cache_contract.lookup_refines [OF ctr assms(2-4)] cache_contract.put_refines [OF ctr assms(2-4,6) ttl]
      cache_contract.put_if_absent_refines [OF ctr assms(2,4,6) ttl] cache_contract.delete_refines [OF ctr assms(2-4)]
    by simp
qed

lemma put_then_hit:
  assumes "engine_contract (vc_client vc) (vc_host vc) good store loaded" "lawful_json L" "wf_settings (vc_settings vc)"
    "utf8_ok (rr_canonical ref)" "physical_key L vc context ref k PNone = Inr (key, policy)"
    "effective_ttl_ms (vc_settings vc) policy req (x = PNone \<and> rp_negative_caching policy) = Inr ttl_ms"
    "good (w_ext w)" "put L vc context ref k x req source w = (Inr d, w1)"
    "good (w_ext w2)" "store (w_ext w2) = v_at t (store (w_ext w1))"
  shows "(\<exists>w3. lookup L vc context ref k w2 = (Inr (if t < v_now (store (w_ext w)) + ttl_ms then HIT d else MISS), w3)) \<and>
    same_value L (rp_serializer_id policy) x (de_value d) \<and> de_source_version d = source \<and>
    (\<forall>key'. key' \<noteq> key \<longrightarrow> v_entries (store (w_ext w1)) key' = v_entries (store (w_ext w)) key')"
proof -
  note ctr = cache_contract.intro [OF assms(1)] and pol = policy_wf [OF assms(3,5)]
    and ttl = effective_ttl_range [OF assms(3,6), THEN conjunct1]
  have sp: "spec_put L vc policy key x ttl_ms source (store (w_ext w)) = (Inr d, store (w_ext w1))"
    using cache_contract.put_refines [OF ctr assms(7,4,5,6) ttl, of source] assms(8) by (auto simp: refines_def)
  note entry = entry_after_put [OF assms(2) sp pol(2) ttl_below_staleness [OF pol(1) assms(6)]]
  have look: "spec_lookup L vc policy key (store (w_ext w2)) =
      (Inr (if t < v_now (store (w_ext w)) + ttl_ms then HIT d else MISS), store (w_ext w2))"
    unfolding assms(10) spec_lookup_def entry(4) by simp
  obtain r w3 where "lookup L vc context ref k w2 = (r, w3)" "spec_lookup L vc policy key (store (w_ext w2)) = (r, store (w_ext w3))"
    by (rule refines_run [OF cache_contract.lookup_refines [OF ctr assms(9,4,5)]])
  with look have "lookup L vc context ref k w2 = (Inr (if t < v_now (store (w_ext w)) + ttl_ms then HIT d else MISS), w3)"
    by simp
  with entry(1,3) spec_put_frame [OF sp] show ?thesis by blast
qed

text \<open>
  C4: what was put is found until its TTL ends. After a put that returned, at any later time with no
  other operation in between, a lookup of the same context, resource and key hits with the very
  envelope the put returned, whose value is the one stored, as long as the TTL lasts, and misses
  from its end on; the entries of all other keys are as before the put.
\<close>

theorem put_then_lookup:
  assumes "engine_contract (vc_client vc) (vc_host vc) good store loaded" "lawful_json L" "wf_settings (vc_settings vc)"
    "utf8_ok (rr_canonical ref)" "physical_key L vc context ref k PNone = Inr (key, policy)"
    "effective_ttl_ms (vc_settings vc) policy req (x = PNone \<and> rp_negative_caching policy) = Inr ttl_ms"
    "good (w_ext w)" "put L vc context ref k x req source w = (Inr d, w1)"
    "good (w_ext w2)" "store (w_ext w2) = v_at t (store (w_ext w1))"
  shows "(\<exists>w3. lookup L vc context ref k w2 = (Inr (if t < v_now (store (w_ext w)) + ttl_ms then HIT d else MISS), w3)) \<and>
    same_value L (rp_serializer_id policy) x (de_value d) \<and> de_source_version d = source \<and>
    (\<forall>key'. key' \<noteq> key \<longrightarrow> v_entries (store (w_ext w1)) key' = v_entries (store (w_ext w)) key')"
  using put_then_hit [OF assms] .

text \<open>
  C5: compare-and-set swaps exactly what it compared. On an engine that meets the contract, a
  compare-and-set that returns has swapped if and only if the key held a valid entry whose envelope
  version or source version is the expected one; then the key holds the entry it returns, with the
  new value and the source version of the old one. Otherwise the store is as before, or lost
  undecodable bytes, reported as corrupt, and an absent entry is reported as missing.
\<close>

theorem compare_and_set_exact:
  assumes "engine_contract (vc_client vc) (vc_host vc) good store loaded" "lawful_json L" "wf_settings (vc_settings vc)"
    "utf8_ok (rr_canonical ref)" "physical_key L vc context ref k PNone = Inr (key, policy)"
    "good (w_ext w)" "compare_and_set L vc context ref k expected x req w = (Inr (result, env), w1)"
  shows "case cell_of L vc policy key (store (w_ext w)) of
      Entry current \<Rightarrow>
        (if version_matches expected current then
           result = CompareAndSetResult True False False \<and>
           (\<exists>d. env = Some d \<and> cell_of L vc policy key (store (w_ext w1)) = Entry d \<and>
             same_value L (rp_serializer_id policy) x (de_value d) \<and> de_source_version d = de_source_version current)
         else result = CompareAndSetResult False False False \<and> env = Some current \<and> store (w_ext w1) = store (w_ext w))
    | Absent \<Rightarrow> result = CompareAndSetResult False True False \<and> env = None \<and> store (w_ext w1) = store (w_ext w)
    | Junk \<Rightarrow> result = CompareAndSetResult False False True \<and> env = None \<and> store (w_ext w1) = v_del key (store (w_ext w))
    | Poison e \<Rightarrow> False"
proof -
  note ctr = cache_contract.intro [OF assms(1)] and pol = policy_wf [OF assms(3,5)]
  let ?v = "store (w_ext w)" and ?v1 = "store (w_ext w1)"
  have sp: "spec_cas L vc policy key expected x req ?v = (Inr (result, env), ?v1)"
    using cache_contract.compare_and_set_refines [OF ctr assms(6,4,5,3), of expected x req] assms(7) by (auto simp: refines_def)
  show ?thesis
  proof (cases "cell_of L vc policy key ?v")
    case (Entry current)
    show ?thesis
    proof (cases "version_matches expected current")
      case True
      with sp Entry obtain ttl_ms d where ttl: "effective_ttl_ms (vc_settings vc) policy req False = Inr ttl_ms"
        and put: "spec_put L vc policy key x ttl_ms (de_source_version current) ?v = (Inr d, ?v1)"
        and res: "result = CompareAndSetResult True False False" "env = Some d"
        by (auto simp: spec_cas_def res_simps split: sum.splits prod.splits)
      from put obtain raw where "v_get ?v1 key = Some raw" "v_now ?v1 = v_now ?v"
        "decode_at L (vc_codec vc) raw (PStr (rp_schema_fingerprint policy)) (rp_maximum_staleness_ms policy) (v_now ?v) = Inr d"
        by (rule spec_put_Inr) simp
      then have "cell_of L vc policy key ?v1 = Entry d" by (simp add: cell_of_def)
      with entry_after_put(1,3) [OF assms(2) put pol(2) ttl_below_staleness [OF pol(1) ttl]] Entry True res
      show ?thesis by simp
    qed (use sp Entry in \<open>simp add: spec_cas_def\<close>)
  qed (use sp in \<open>simp_all add: spec_cas_def\<close>)
qed


text \<open>
  C11: a cache-aside read fills the cache and leaves no lease. On an engine that meets the contract,
  when the key holds nothing valid and nobody holds its lease, a read calls the loader and returns
  its value; the store afterwards is the one a put of that value makes (without the undecodable
  bytes a lookup removes), so the lease is gone; a value that is absent and may not be cached is
  returned without a write. A valid entry is returned without a call of the loader.
\<close>

theorem get_or_load_fills:
  assumes "engine_contract (vc_client vc) (vc_host vc) good store loaded" "wf_settings (vc_settings vc)" "good (w_ext w)"
    "utf8_ok (rr_canonical ref)" "physical_key L vc context ref k PNone = Inr (key, policy)"
    "lease_key (vc_key_encoder vc) key = Inr lkey" "v_get (store (w_ext w)) lkey = None"
    "effective_ttl_ms (vc_settings vc) policy req (x = PNone \<and> rp_negative_caching policy) = Inr ttl_ms"
    "loads good store loader x"
    "\<And>e v'. spec_get_or_load L vc policy key x ttl_ms source (store (w_ext w)) = (Inl e, v') \<Longrightarrow> \<not> is_ValkeyError e"
  shows "refines good store (get_or_load L vc context ref k loader req source fuel) (spec_get_or_load L vc policy key x ttl_ms source) w"
  by (rule cache_contract.get_or_load_refines [OF cache_contract.intro [OF assms(1)] assms(3-5,2,8,6,7,9,10)])

text \<open>
  A lease excludes. On an engine that meets the contract, a caller gets a free lease and no other
  caller gets it then; a release with another token changes nothing; a release with the token of
  the holder frees it and leaves the store as it was before the lease.
\<close>

theorem lease_excludes:
  assumes "engine_contract C H good store loaded" "good s" "0 < ms" "v_get (store s) lkey = None" "token' \<noteq> token"
  shows "\<exists>s1 s2 s3 s4. acquire_lease C lkey token ms s = (Inr True, s1) \<and> acquire_lease C lkey token' ms s1 = (Inr False, s2) \<and>
    release_lease C lkey token' s2 = (Inr False, s3) \<and> store s3 = store s1 \<and>
    release_lease C lkey token s3 = (Inr True, s4) \<and> store s4 = store s"
proof -
  note acquire = engine_contract.wp_acquire [OF assms(1)] and release = engine_contract.wp_release [OF assms(1)]
  let ?v = "v_put lkey token ms (store s)"
  have "wpM (acquire_lease C lkey token ms) (\<lambda>b s1. b \<and> good s1 \<and> store s1 = ?v) (\<lambda>_ _. False) s"
    using assms by (intro acquire) auto
  then obtain s1 where s1: "acquire_lease C lkey token ms s = (Inr True, s1)" "good s1" "store s1 = ?v"
    by (auto simp: wpM_def split: prod.splits sum.splits)
  have "wpM (acquire_lease C lkey token' ms) (\<lambda>b s2. \<not> b \<and> good s2 \<and> store s2 = ?v) (\<lambda>_ _. False) s1"
    using assms s1 by (intro acquire) auto
  then obtain s2 where s2: "acquire_lease C lkey token' ms s1 = (Inr False, s2)" "good s2" "store s2 = ?v"
    by (auto simp: wpM_def split: prod.splits sum.splits)
  have "wpM (release_lease C lkey token') (\<lambda>b s3. \<not> b \<and> good s3 \<and> store s3 = ?v) (\<lambda>_ _. False) s2"
    using assms s2 by (intro release) (auto simp: release_script_def)
  then obtain s3 where s3: "release_lease C lkey token' s2 = (Inr False, s3)" "good s3" "store s3 = ?v"
    by (auto simp: wpM_def split: prod.splits sum.splits)
  have "v_del lkey ?v = store s"
    using assms(4) by (cases "store s") (simp add: v_del_def v_put_def v_get_def fun_upd_idem)
  then have "wpM (release_lease C lkey token) (\<lambda>b s4. b \<and> store s4 = store s) (\<lambda>_ _. False) s3"
    using s3 by (intro release) (auto simp: release_script_def)
  then obtain s4 where "release_lease C lkey token s3 = (Inr True, s4)" "store s4 = store s"
    by (auto simp: wpM_def split: prod.splits sum.splits)
  with s1 s2 s3 show ?thesis by metis
qed

text \<open>
  The engine of the test suite meets the contract the cache is proved against: it answers reads,
  writes, deletions and the clock as the abstract store does, and what it does for the digests of
  the two owned scripts is what the Lua text of these scripts says.
\<close>

theorem fake_meets_contract:
  "engine_contract fake_client (fake_host step) fake_good fake_view (\<lambda>s. set (f_scripts s))"
  by (rule fake.engine_contract_axioms)

subsection \<open>Examples\<close>

lemma sample_policy_simps [simp]:
  "rp_serializer_id sample_policy = SERIALIZER_CANONICAL_JSON" "rp_schema_fingerprint sample_policy = sample_schema"
  "rp_maximum_staleness_ms sample_policy = None" "\<not> rp_negative_caching sample_policy"
  by (simp_all add: sample_policy_def SERIALIZER_CANONICAL_JSON_def)

lemma sample_spec_put:
  assumes "0 \<le> v_now v" "v_now v < 10 ^ 15"
  obtains d v' where "spec_put ref_lib sample_cache sample_policy key (PStr ''hello'') 60000 PNone v = (Inr d, v')"
proof -
  obtain raw where raw: "encode_at ref_lib sample_codec (PStr ''hello'') SERIALIZER_CANONICAL_JSON (PStr sample_schema) (PInt 60000) PNone (PInt (v_now v)) = Inr raw"
    by (rule sample_encode [OF sample_hello, of 60000 "v_now v"]) (use assms in auto)
  from decode_at_encoded [OF lawful_ref_lib raw sample_schema_ok, of None "v_now v"]
  obtain d where "decode_at ref_lib sample_codec raw (PStr sample_schema) None (v_now v) = Inr d" by auto
  with raw that show ?thesis by (simp add: spec_put_def spec_write_def)
qed

lemma sample_put:
  obtains key lkey d w1 where "physical_key ref_lib sample_cache sample_context sample_ref (PStr ''u1'') PNone = Inr (key, sample_policy)"
    "lease_key (sample_encoder 1) key = Inr lkey"
    "put ref_lib sample_cache sample_context sample_ref (PStr ''u1'') (PStr ''hello'') PNone PNone sample_world = (Inr d, w1)"
    "fake_good (w_ext w1)"
    "spec_put ref_lib sample_cache sample_policy key (PStr ''hello'') 60000 PNone (fake_view FakeValkey) = (Inr d, fake_view (w_ext w1))"
proof -
  obtain key lkey where k: "physical_key ref_lib sample_cache sample_context sample_ref (PStr ''u1'') PNone = Inr (key, sample_policy)"
    "lease_key (sample_encoder 1) key = Inr lkey" by (rule sample_physical_key [of "''u1''"]) simp
  obtain d v' where d: "spec_put ref_lib sample_cache sample_policy key (PStr ''hello'') 60000 PNone (fake_view FakeValkey) = (Inr d, v')"
    by (rule sample_spec_put [of "fake_view FakeValkey"]) auto
  have "refines fake_good fake_view (put ref_lib sample_cache sample_context sample_ref (PStr ''u1'') (PStr ''hello'') PNone PNone)
      (spec_put ref_lib sample_cache sample_policy key (PStr ''hello'') 60000 PNone) sample_world"
    using k(1) sample_ttl unfolding sample_cache_def by (intro fake_cache.put_refines) simp_all
  then obtain r w1 where "put ref_lib sample_cache sample_context sample_ref (PStr ''u1'') (PStr ''hello'') PNone PNone sample_world = (r, w1)"
    "fake_good (w_ext w1)" "spec_put ref_lib sample_cache sample_policy key (PStr ''hello'') 60000 PNone (fake_view FakeValkey) = (r, fake_view (w_ext w1))"
    by (rule refines_run) auto
  with d k that show ?thesis by auto
qed

lemma sample_hit:
  obtains key d w1 w2 where "physical_key ref_lib sample_cache sample_context sample_ref (PStr ''u1'') PNone = Inr (key, sample_policy)"
    "put ref_lib sample_cache sample_context sample_ref (PStr ''u1'') (PStr ''hello'') PNone PNone sample_world = (Inr d, w1)"
    "fake_good (w_ext w1)" "f_now_ms (w_ext w1) = 1700000000000" "de_source_version d = PNone"
    "cell_of ref_lib sample_cache sample_policy key (fake_view (w_ext w1)) = Entry d"
    "lookup ref_lib sample_cache sample_context sample_ref (PStr ''u1'') w1 = (Inr (HIT d), w2)"
proof -
  obtain key lkey d w1 where k: "physical_key ref_lib sample_cache sample_context sample_ref (PStr ''u1'') PNone = Inr (key, sample_policy)"
    and put: "put ref_lib sample_cache sample_context sample_ref (PStr ''u1'') (PStr ''hello'') PNone PNone sample_world = (Inr d, w1)"
      "fake_good (w_ext w1)"
    and sp: "spec_put ref_lib sample_cache sample_policy key (PStr ''hello'') 60000 PNone (fake_view FakeValkey) = (Inr d, fake_view (w_ext w1))"
    by (rule sample_put)
  have now: "f_now_ms (w_ext w1) = 1700000000000"
    using sp by (rule spec_put_Inr) (metis v_now_fake_view v_get_simps(3) sample_world_simps(3))
  have cell: "cell_of ref_lib sample_cache sample_policy key (fake_view (w_ext w1)) = Entry d"
    using sp by (rule spec_put_Inr) (simp add: cell_of_def)
  have "refines fake_good fake_view (lookup ref_lib sample_cache sample_context sample_ref (PStr ''u1''))
      (spec_lookup ref_lib sample_cache sample_policy key) w1"
    using k put(2) unfolding sample_cache_def by (intro fake_cache.lookup_refines) simp_all
  then obtain w2 where "lookup ref_lib sample_cache sample_context sample_ref (PStr ''u1'') w1 = (Inr (HIT d), w2)"
    by (rule refines_run) (use cell in \<open>auto simp: spec_lookup_def\<close>)
  with that k put now cell entry_after_put(3) [OF lawful_ref_lib sp] show ?thesis by simp
qed

lemma sample_load:
  obtains key lkey d v' where "physical_key ref_lib sample_cache sample_context sample_ref (PStr ''u1'') PNone = Inr (key, sample_policy)"
    "lease_key (vc_key_encoder sample_cache) key = Inr lkey"
    "spec_get_or_load ref_lib sample_cache sample_policy key (PStr ''hello'') 60000 PNone (fake_view (w_ext sample_world)) =
      (Inr (LOADED (PStr ''hello'') (Some d) False), v')"
    "loads fake_good fake_view (returnM (PStr ''hello'')) (PStr ''hello'')"
proof -
  obtain key lkey where k: "physical_key ref_lib sample_cache sample_context sample_ref (PStr ''u1'') PNone = Inr (key, sample_policy)"
    "lease_key (vc_key_encoder sample_cache) key = Inr lkey"
    by (rule sample_physical_key [of "''u1''"]) simp_all
  obtain d v' where "spec_put ref_lib sample_cache sample_policy key (PStr ''hello'') 60000 PNone (fake_view FakeValkey) = (Inr d, v')"
    by (rule sample_spec_put [of "fake_view FakeValkey"]) auto
  then have "spec_get_or_load ref_lib sample_cache sample_policy key (PStr ''hello'') 60000 PNone (fake_view (w_ext sample_world)) =
      (Inr (LOADED (PStr ''hello'') (Some d) False), v')"
    by (simp add: spec_get_or_load_def spec_lookup_def cell_of_def spec_load_def)
  moreover have "loads fake_good fake_view (returnM (PStr ''hello'')) (PStr ''hello'')" by (simp add: loads_def)
  ultimately show ?thesis using that k by blast
qed

lemma fake_advance:
  assumes "fake_good s" "f_now_ms s \<le> t"
  shows "fake_good (s\<lparr>f_now_ms := t\<rparr>)" "fake_view (s\<lparr>f_now_ms := t\<rparr>) = v_at t (fake_view s)"
  using assms by (auto simp: fake_good_def fake_view_def v_at_def live_entry_def fun_eq_iff split: option.splits Option.bind_splits)

lemma sample_contract: "engine_contract (vc_client sample_cache) (vc_host sample_cache) fake_good fake_view (\<lambda>s. set (f_scripts s))"
  using fake.engine_contract_axioms [of 10] by simp

theorem cache_refines_store_witness:
  "\<exists>key. refines fake_good fake_view (lookup ref_lib sample_cache sample_context sample_ref (PStr ''u1''))
      (spec_lookup ref_lib sample_cache sample_policy key) sample_world \<and>
    refines fake_good fake_view (put ref_lib sample_cache sample_context sample_ref (PStr ''u1'') (PStr ''hello'') PNone PNone)
      (spec_put ref_lib sample_cache sample_policy key (PStr ''hello'') 60000 PNone) sample_world"
proof -
  obtain key lkey where k: "physical_key ref_lib sample_cache sample_context sample_ref (PStr ''u1'') PNone = Inr (key, sample_policy)"
    by (rule sample_physical_key [of "''u1''"]) simp
  from cache_refines_store [OF sample_contract _ sample_utf8 k, of sample_world PNone "PStr ''hello''" 60000 PNone]
  show ?thesis by (auto simp: wf_sample_settings sample_ttl)
qed

theorem put_then_lookup_witness:
  "\<exists>d w1 w2 w3. put ref_lib sample_cache sample_context sample_ref (PStr ''u1'') (PStr ''hello'') PNone PNone sample_world = (Inr d, w1) \<and>
    w2 = w1\<lparr>w_ext := (w_ext w1)\<lparr>f_now_ms := 1700000059999\<rparr>\<rparr> \<and>
    lookup ref_lib sample_cache sample_context sample_ref (PStr ''u1'') w2 = (Inr (HIT d), w3) \<and>
    same_value ref_lib SERIALIZER_CANONICAL_JSON (PStr ''hello'') (de_value d)"
proof -
  obtain key d w1 where k: "physical_key ref_lib sample_cache sample_context sample_ref (PStr ''u1'') PNone = Inr (key, sample_policy)"
    and put: "put ref_lib sample_cache sample_context sample_ref (PStr ''u1'') (PStr ''hello'') PNone PNone sample_world = (Inr d, w1)"
      "fake_good (w_ext w1)" and "f_now_ms (w_ext w1) = 1700000000000" by (rule sample_hit)
  then have t: "f_now_ms (w_ext w1) \<le> 1700000059999" by simp
  let ?w2 = "w1\<lparr>w_ext := (w_ext w1)\<lparr>f_now_ms := 1700000059999\<rparr>\<rparr>"
  have "effective_ttl_ms (vc_settings sample_cache) sample_policy PNone (PStr ''hello'' = PNone \<and> rp_negative_caching sample_policy) = Inr 60000"
    "wf_settings (vc_settings sample_cache)" "fake_good (w_ext sample_world)" "fake_good (w_ext ?w2)"
    "fake_view (w_ext ?w2) = v_at 1700000059999 (fake_view (w_ext w1))"
    using fake_advance [OF put(2) t] by (simp_all add: wf_sample_settings sample_ttl)
  from put_then_lookup [OF sample_contract lawful_ref_lib this(2) sample_utf8 k this(1,3) put(1) this(4,5)] put(1)
  show ?thesis by auto
qed


theorem lease_excludes_witness:
  "\<exists>s1 s2 s3 s4. acquire_lease fake_client ''lease'' ''mine'' 5000 FakeValkey = (Inr True, s1) \<and>
    acquire_lease fake_client ''lease'' ''theirs'' 5000 s1 = (Inr False, s2) \<and>
    release_lease fake_client ''lease'' ''theirs'' s2 = (Inr False, s3) \<and> release_lease fake_client ''lease'' ''mine'' s3 = (Inr True, s4)"
  using lease_excludes [OF fake.engine_contract_axioms [of 10], of FakeValkey 5000 "''lease''" "''theirs''" "''mine''"] by auto

theorem get_or_load_fills_witness:
  "\<exists>key. refines fake_good fake_view
    (get_or_load ref_lib sample_cache sample_context sample_ref (PStr ''u1'') (returnM (PStr ''hello'')) PNone PNone 100)
    (spec_get_or_load ref_lib sample_cache sample_policy key (PStr ''hello'') 60000 PNone) sample_world"
proof -
  obtain key lkey d v' where k: "physical_key ref_lib sample_cache sample_context sample_ref (PStr ''u1'') PNone = Inr (key, sample_policy)"
    "lease_key (vc_key_encoder sample_cache) key = Inr lkey"
    and "spec_get_or_load ref_lib sample_cache sample_policy key (PStr ''hello'') 60000 PNone (fake_view (w_ext sample_world)) =
      (Inr (LOADED (PStr ''hello'') (Some d) False), v')"
    "loads fake_good fake_view (returnM (PStr ''hello'')) (PStr ''hello'')" by (rule sample_load)
  then show ?thesis
    using get_or_load_fills [OF sample_contract _ _ sample_utf8 k, of sample_world PNone "PStr ''hello''" 60000 "returnM (PStr ''hello'')" PNone 100]
    by (auto simp: wf_sample_settings sample_ttl)
qed

lemma sample_cas:
  obtains key d w1 d2 w2 where "physical_key ref_lib sample_cache sample_context sample_ref (PStr ''u1'') PNone = Inr (key, sample_policy)"
    "put ref_lib sample_cache sample_context sample_ref (PStr ''u1'') (PStr ''hello'') PNone PNone sample_world = (Inr d, w1)"
    "fake_good (w_ext w1)" "cell_of ref_lib sample_cache sample_policy key (fake_view (w_ext w1)) = Entry d"
    "compare_and_set ref_lib sample_cache sample_context sample_ref (PStr ''u1'') (PStr (de_envelope_version d)) (PStr ''hello'') PNone w1 =
      (Inr (CompareAndSetResult True False False, Some d2), w2)"
proof -
  obtain key d w1 where k: "physical_key ref_lib sample_cache sample_context sample_ref (PStr ''u1'') PNone = Inr (key, sample_policy)"
    and put: "put ref_lib sample_cache sample_context sample_ref (PStr ''u1'') (PStr ''hello'') PNone PNone sample_world = (Inr d, w1)"
      "fake_good (w_ext w1)" and now: "f_now_ms (w_ext w1) = 1700000000000" and source: "de_source_version d = PNone"
    and cell: "cell_of ref_lib sample_cache sample_policy key (fake_view (w_ext w1)) = Entry d" by (rule sample_hit)
  obtain d2 v2 where put2: "spec_put ref_lib sample_cache sample_policy key (PStr ''hello'') 60000 PNone (fake_view (w_ext w1)) = (Inr d2, v2)"
    by (rule sample_spec_put [of "fake_view (w_ext w1)"]) (use now in auto)
  have "version_matches (PStr (de_envelope_version d)) d" by (simp add: version_matches_def version_eq_def)
  with cell put2 source have cas: "spec_cas ref_lib sample_cache sample_policy key (PStr (de_envelope_version d)) (PStr ''hello'') PNone (fake_view (w_ext w1)) =
      (Inr (CompareAndSetResult True False False, Some d2), v2)"
    by (simp add: spec_cas_def sample_ttl)
  have "refines fake_good fake_view (compare_and_set ref_lib sample_cache sample_context sample_ref (PStr ''u1'') (PStr (de_envelope_version d)) (PStr ''hello'') PNone)
      (spec_cas ref_lib sample_cache sample_policy key (PStr (de_envelope_version d)) (PStr ''hello'') PNone) w1"
    using k put(2) unfolding sample_cache_def by (intro fake_cache.compare_and_set_refines) (simp_all add: wf_sample_settings)
  then obtain w2 where "compare_and_set ref_lib sample_cache sample_context sample_ref (PStr ''u1'') (PStr (de_envelope_version d)) (PStr ''hello'') PNone w1 =
      (Inr (CompareAndSetResult True False False, Some d2), w2)"
    by (rule refines_run) (use cas in auto)
  with k put cell show ?thesis by (rule that)
qed

theorem compare_and_set_exact_witness:
  "\<exists>d w1 d2 w2. put ref_lib sample_cache sample_context sample_ref (PStr ''u1'') (PStr ''hello'') PNone PNone sample_world = (Inr d, w1) \<and>
    compare_and_set ref_lib sample_cache sample_context sample_ref (PStr ''u1'') (PStr (de_envelope_version d)) (PStr ''hello'') PNone w1 =
      (Inr (CompareAndSetResult True False False, Some d2), w2) \<and> same_value ref_lib SERIALIZER_CANONICAL_JSON (PStr ''hello'') (de_value d2)"
proof -
  obtain key d w1 d2 w2 where k: "physical_key ref_lib sample_cache sample_context sample_ref (PStr ''u1'') PNone = Inr (key, sample_policy)"
    and put: "put ref_lib sample_cache sample_context sample_ref (PStr ''u1'') (PStr ''hello'') PNone PNone sample_world = (Inr d, w1)"
      "fake_good (w_ext w1)" and cell: "cell_of ref_lib sample_cache sample_policy key (fake_view (w_ext w1)) = Entry d"
    and w2: "compare_and_set ref_lib sample_cache sample_context sample_ref (PStr ''u1'') (PStr (de_envelope_version d)) (PStr ''hello'') PNone w1 =
      (Inr (CompareAndSetResult True False False, Some d2), w2)" by (rule sample_cas)
  have "wf_settings (vc_settings sample_cache)" by (simp add: wf_sample_settings)
  from compare_and_set_exact [OF sample_contract lawful_ref_lib this sample_utf8 k put(2) w2] cell put(1) w2
  show ?thesis by (auto simp: version_matches_def version_eq_def)
qed

end
