(* ===== verification/Vk_Cache_Safety.thy ===== *)
theory Vk_Cache_Safety
  imports Vk_Cache_Theorems
begin

section \<open>What the cache guarantees on any engine\<close>

text \<open>
  Properties of the cache that assume nothing about what the engine answers: a hit is verified, a
  cache-aside read returns a verified hit or the caller's own load, failures of the engine do not
  surface from it, and it ends.
\<close>

subsection \<open>Verified results\<close>

lemma lookup_total:
  assumes "lookup L vc context ref k w = (Inr r, w')"
  obtains key policy where "physical_key L vc context ref k PNone = Inr (key, policy)"
    "counted (w_metrics w) r (w_metrics w')" "r = MISS \<or> (\<exists>d. r = HIT d \<and> served L vc key policy (w_ext w) d)"
proof (cases "physical_key L vc context ref k PNone")
  case (Inl e)
  with assms show ?thesis by (simp add: lookup_def bindM_def)
next
  case (Inr kp)
  then obtain key policy where key: "physical_key L vc context ref k PNone = Inr (key, policy)" by (cases kp) auto
  have "wpM (lookup L vc context ref k) (\<lambda>r w'. counted (w_metrics w) r (w_metrics w') \<and>
      (r = MISS \<or> (\<exists>d. r = HIT d \<and> served L vc key policy (w_ext w) d))) (\<lambda>_ _. True) w"
    by (rule wp_lookup [OF key]) auto
  with assms key that show ?thesis by (auto dest: wpM_Inr)
qed

lemma policy_of_key:
  "physical_key L vc context ref k g = Inr (key, policy) \<Longrightarrow> policy_for (vc_settings vc) (rr_str ref) = Inr policy"
  by (auto simp: physical_key_def res_simps)

text \<open>
  C10: whatever the engine answers, a lookup that returns is a plain miss, or a hit whose value came
  out of the bytes the engine returned for the key of this context, resource and logical key: those
  bytes are an intact envelope of the schema the settings fix for the resource that, at the time
  the clock showed after the read, had neither expired nor passed the resource's maximum staleness.
  Exactly one of the counters hit, miss, stale and corruption grows, by one, and it is hit for a hit.
\<close>

theorem lookup_returns_verified:
  assumes "lookup L vc context ref k w = (Inr r, w')"
  shows "\<exists>key policy. physical_key L vc context ref k PNone = Inr (key, policy) \<and> counted (w_metrics w) r (w_metrics w') \<and>
    (r = MISS \<or> (\<exists>d v s raw now s'. r = HIT d \<and> c_get (vc_client vc) key (w_ext w) = (Inr v, s) \<and> bytes_of v = Some raw \<and>
       h_clock_ms (vc_host vc) s = (Inr now, s') \<and> de_schema_fingerprint d = rp_schema_fingerprint policy \<and>
       de_envelope_version d = sha256_hex (signed_bytes L raw) \<and> now < de_expires_at_ms d \<and>
       (case rp_maximum_staleness_ms policy of None \<Rightarrow> True | Some m \<Rightarrow> now < de_created_at_ms d + m)))"
proof -
  obtain key policy where k: "physical_key L vc context ref k PNone = Inr (key, policy)" "counted (w_metrics w) r (w_metrics w')"
    and r: "r = MISS \<or> (\<exists>d. r = HIT d \<and> served L vc key policy (w_ext w) d)"
    by (rule lookup_total [OF assms])
  have "\<exists>v s raw now s'. c_get (vc_client vc) key (w_ext w) = (Inr v, s) \<and> bytes_of v = Some raw \<and>
      h_clock_ms (vc_host vc) s = (Inr now, s') \<and> de_schema_fingerprint d = rp_schema_fingerprint policy \<and>
      de_envelope_version d = sha256_hex (signed_bytes L raw) \<and> now < de_expires_at_ms d \<and>
      (case rp_maximum_staleness_ms policy of None \<Rightarrow> True | Some m \<Rightarrow> now < de_created_at_ms d + m)"
    if "served L vc key policy (w_ext w) d" for d
    using that unfolding served_def by (fastforce dest!: decode_at_facts split: option.splits)
  with k r show ?thesis by blast
qed

text \<open>
  C12: a cache-aside read that returns, whatever the engine does, returns either a hit as a lookup
  verifies it, or a value the caller's loader returned; and if it reports an envelope for a loaded
  value, that envelope is the encoding of this value under the resource's policy, read back.
\<close>

theorem get_or_load_returns_authority:
  assumes "get_or_load L vc context ref k loader req source fuel w = (Inr r, w')"
    "physical_key L vc context ref k PNone = Inr (key, policy)"
  shows "(\<exists>d s. r = HIT d \<and> served L vc key policy s d) \<or>
    (\<exists>v env degraded s s'. r = LOADED v env degraded \<and> loader s = (Inr v, s') \<and> pred_option (stored_as L vc policy v) env)"
proof -
  have "wpM (get_or_load L vc context ref k loader req source fuel) (\<lambda>r _. (\<exists>d s. r = HIT d \<and> served L vc key policy s d) \<or>
    (\<exists>v env degraded s s'. r = LOADED v env degraded \<and> loader s = (Inr v, s') \<and> pred_option (stored_as L vc policy v) env)) (\<lambda>_ _. True) w"
    by (rule wp_get_or_load [OF assms(2)]) blast+
  with assms(1) show ?thesis by (auto dest: wpM_Inr)
qed

subsection \<open>Engine failures\<close>

definition host_raises :: "(exn \<Rightarrow> bool) \<Rightarrow> 's host \<Rightarrow> bool" where
  "host_raises P H = (onlyM P (h_clock_ms H) \<and> onlyM P (h_token_bytes H) \<and> onlyM P (h_monotonic H) \<and>
     (\<forall>x. onlyM P (h_sleep H x)) \<and> (\<forall>n as. onlyM P (h_emit H n as)))"

lemma lease_key_only: "onlyE (\<lambda>e. \<not> is_ValkeyError e) (lease_key ke key)"
  by (auto simp: lease_key_def Let_def ascii_decode_def intro!: only_intros split: option.split)

lemma event_only: "host_raises P (vc_host vc) \<Longrightarrow> P UnicodeEncodeError \<Longrightarrow> onlyM P (event vc n ref as)"
  unfolding event_def by (auto simp: host_raises_def utf8_encode_def intro!: only_intros onlyE_I)

lemma onlyM_any: "onlyM (\<lambda>_. True) m"
  by (simp add: keepsM_def wp_any)

lemma quiet_try:
  "(\<And>e. is_ValkeyError e \<Longrightarrow> onlyM (\<lambda>e. \<not> is_ValkeyError e) (h e)) \<Longrightarrow> (\<And>x. onlyM (\<lambda>e. \<not> is_ValkeyError e) (k x)) \<Longrightarrow>
   onlyM (\<lambda>e. \<not> is_ValkeyError e) (tryM m is_ValkeyError h k)"
  by (rule keepsM_try [OF onlyM_any]) auto

text \<open>
  C13: a cache-aside read never surfaces a failure of the engine. Whatever the client raises, in a
  lookup, when taking or releasing the lease, while waiting or when storing the loaded value, the
  read does not raise an exception of the client library, unless the caller's loader or the host's
  clocks, random source or event sink raise one.
\<close>

theorem get_or_load_hides_engine_errors:
  assumes "onlyM (\<lambda>e. \<not> is_ValkeyError e) loader" "host_raises (\<lambda>e. \<not> is_ValkeyError e) (vc_host vc)"
    "get_or_load L vc context ref k loader req source fuel w = (Inl e, w')"
  shows "\<not> is_ValkeyError e"
proof -
  let ?P = "\<lambda>e. \<not> is_ValkeyError e"
  note ev = event_only [OF assms(2), simplified]
  have host: "onlyM ?P (h_monotonic (vc_host vc))" "onlyM ?P (h_sleep (vc_host vc) x)" "onlyM ?P (h_token_bytes (vc_host vc))" for x
    using assms(2) by (simp_all add: host_raises_def)
  have wait: "onlyM ?P (wait_for_peer L vc context ref k deadline n)" for deadline n
  proof (induction n)
    case 0
    show ?case unfolding wait_for_peer.simps by (rule keepsM_raise) simp
  next
    case (Suc n)
    then show ?case unfolding wait_for_peer.simps by (auto intro!: only_intros host quiet_try)
  qed
  have put: "onlyM ?P (load_and_populate L vc context ref k loader req source policy)"
    "onlyM ?P (duplicate_load L vc context ref k loader req source policy)" for policy
    unfolding load_and_populate_def duplicate_load_def by (auto intro!: only_intros quiet_try ev assms(1))
  have rel: "onlyM ?P (release_quietly vc lkey token)" for lkey token
    unfolding release_quietly_def by (rule keepsM_catch [OF onlyM_any]) (auto intro: only_intros)
  show ?thesis
  proof (cases "physical_key L vc context ref k PNone")
    case (Inl e')
    then have "get_or_load L vc context ref k loader req source fuel =
        (if is_ValkeyError e' then thenM (metric ''unavailable_miss'') (thenM (event vc ''unavailable-miss'' ref []) (unavailable loader))
         else raiseM e')"
      by (auto simp: get_or_load_def lookup_def tryM_def fun_eq_iff)
    moreover have "onlyM ?P \<dots>"
      unfolding unavailable_def by (auto intro!: only_intros ev assms(1))
    ultimately show ?thesis using assms(3) by (auto dest: onlyM_D)
  next
    case (Inr kp)
    have "onlyM ?P (get_or_load L vc context ref k loader req source fuel)"
      unfolding get_or_load_def load_through_def contended_def unavailable_def Inr Let_def
      by (auto intro!: only_intros quiet_try ev host wait put rel lease_key_only assms(1) split: prod.split option.split)
    with assms(3) show ?thesis by (rule onlyM_D [rotated])
  qed
qed

subsection \<open>The wait ends\<close>

text \<open>
  Every exception of the parts is one Python raises: none is the mark that the bound of the model
  was reached.
\<close>

definition is_real :: "exn \<Rightarrow> bool" where
  "is_real e = (e \<noteq> OutOfFuel)"

lemma is_real_simps [simp]:
  "is_real (ValkeyError a b c)" "is_real (ValueError a)" "is_real (TypeError a)" "is_real (RuntimeError a)" "is_real OverflowError"
  "is_real RecursionError" "is_real UnicodeDecodeError" "is_real UnicodeEncodeError" "is_real JSONDecodeError" "is_real (KeyError a)"
  "is_real (EnvelopeError a)" "is_real (EnvelopeCorruptionError a)" "is_real (EnvelopeExpiredError a)"
  "is_real (EnvelopeSchemaMismatchError a)" "is_real (EnvelopeTooLargeError a)" "is_real (MeridianError m)" "is_real (OtherError a)"
  "\<not> is_real OutOfFuel" "is_real (meridian cls code msg ds)" "is_real (fail msg)"
  by (simp_all add: is_real_def meridian_def fail_def)

definition real_lib :: "lib \<Rightarrow> bool" where
  "real_lib L = ((\<forall>v. onlyE is_real (canonical_json_bytes L v)) \<and> (\<forall>r. onlyE is_real (resource_ref_parse L r)))"

lemma real_pure [only_intros]:
  "onlyE is_real (policy_for s r)" "onlyE is_real (utf8_encode x)"
  "onlyE is_real (ascii_decode b)" "onlyE is_real (lease_key ke key)"
  by (auto intro!: onlyE_I simp: policy_for_def Let_def utf8_encode_def ascii_decode_def
      lease_key_def res_simps split: option.splits if_splits)

lemma real_fingerprint [only_intros]: "onlyE is_real (require_fingerprint v f)"
  by (cases v) (auto simp: require_fingerprint_def intro!: only_intros)

lemma real_effective_ttl [only_intros]: "onlyE is_real (effective_ttl_ms s p req neg)"
  by (cases "selected_ttl s p req neg") (auto simp: effective_ttl_ms_def Let_def intro!: only_intros)

lemma real_json: "onlyE is_real (bindE (utf8_decode b) (json_loads n))"
  by (rule onlyE_mono [OF json_only]) (auto simp: json_error_def digits_error_def)

lemma real_corrupt [only_intros]: "onlyE is_real (corrupt m)" "onlyE is_real (guardC b m)"
  by (simp_all add: corrupt_def guardC_def only_intros)

lemma real_decode_checks [only_intros]:
  assumes "real_lib L"
  shows "onlyE is_real (decode_checks L c raw schema)"
proof -
  have ff: "onlyE is_real (fingerprint_field h k f)" for h k f
    unfolding fingerprint_field_def by (rule onlyE_catchE [of is_real]) (auto intro!: only_intros)
  have version: "onlyE is_real (extract_version r)" for r
    unfolding extract_version_def Let_def by (intro only_intros onlyE_catchE [of is_real]) auto
  have frame: "onlyE is_real (parse_frame r)" for r
    unfolding parse_frame_def Let_def parse_length_def by (auto intro!: only_intros version split: option.split)
  have header: "onlyE is_real (parse_header L hb)" for hb
    unfolding parse_header_def by (rule onlyE_bindE [OF onlyE_catchE [OF real_json]]) (auto intro!: only_intros split: pyval.split)
  show ?thesis
    using assms unfolding decode_checks_def parse_envelope_def check_header_def nonneg_field_def real_lib_def
    by (auto intro!: only_intros ff frame header split: prod.split)
qed

lemma real_decode_fresh [only_intros]:
  assumes "real_lib L"
  shows "onlyE is_real (decode_fresh L version header payload stale now)"
proof -
  have "onlyE is_real (decode_payload L ser p)" for ser p
    using assms unfolding decode_payload_def real_lib_def
    by (auto intro!: only_intros onlyE_catchE [of is_real] real_json split: if_splits)
  then show ?thesis unfolding decode_fresh_def Let_def by (auto intro!: only_intros split: option.split)
qed

lemma real_encode [only_intros]:
  "onlyE is_real (encode_checks ser schema t source)"
  "real_lib L \<Longrightarrow> onlyE is_real (encode_framed L c v ser schema' t' source cr)"
  unfolding encode_checks_def encode_framed_def encode_payload_def Let_def real_lib_def
  by (auto intro!: only_intros onlyE_catchE [of is_real] split: option.split)

lemma real_physical_key [only_intros]:
  assumes "real_lib L"
  shows "onlyE is_real (physical_key L vc context ref k g)"
proof -
  have "onlyE is_real (json_scalar_or_array L v f)" for v f
    using assms unfolding json_scalar_or_array_def Let_def real_lib_def
    by (auto intro!: only_intros split: option.split pyval.split)
  then show ?thesis
    using assms unfolding physical_key_def KeyMaterial_def encode_key_def Let_def real_lib_def
    by (auto intro!: only_intros)
qed

text \<open>\<open>settles N F w\<close>: from the bound \<open>N\<close> on, the outcome of \<open>F\<close> in \<open>w\<close> does not depend on the bound any more,
  and the bound is not what ended it.\<close>

definition settles :: "nat \<Rightarrow> (nat \<Rightarrow> ('s, 'a) py) \<Rightarrow> 's \<Rightarrow> bool" where
  "settles N F w = ((\<forall>n\<ge>N. F n w = F N w) \<and> (\<forall>e w'. F N w = (Inl e, w') \<longrightarrow> is_real e))"

lemma settles_const: "onlyM is_real m \<Longrightarrow> settles N (\<lambda>_. m) w"
  by (auto simp: settles_def dest: onlyM_D)

lemma settles_Suc: "settles k (\<lambda>n. F (Suc n)) w \<Longrightarrow> settles (Suc k) F w"
  unfolding settles_def
proof (elim conjE, intro conjI allI impI)
  fix n assume "\<forall>n\<ge>k. F (Suc n) w = F (Suc k) w" "Suc k \<le> n"
  then show "F n w = F (Suc k) w" by (cases n) blast+
qed blast

lemma settles_mono: "settles N F w \<Longrightarrow> N \<le> M \<Longrightarrow> settles M F w"
  unfolding settles_def by (metis le_trans)

lemma settles_raise: "(\<And>n. F n w = (Inl e, w')) \<Longrightarrow> is_real e \<Longrightarrow> settles N F w"
  by (simp add: settles_def)

lemma settles_step: "(\<And>n. F n w = G n w') \<Longrightarrow> settles N G w' \<Longrightarrow> settles N F w"
  unfolding settles_def by metis

lemma settles_bind:
  assumes "onlyM is_real m" "\<And>x w'. m w = (Inr x, w') \<Longrightarrow> settles N (F x) w'"
  shows "settles N (\<lambda>n. bindM m (\<lambda>x. F x n)) w"
proof (cases "m w")
  case (Pair r w')
  show ?thesis
  proof (cases r)
    case (Inl e)
    with Pair show ?thesis by (intro settles_raise [of _ w e w'] onlyM_D [OF assms(1)]) (simp_all add: bindM_def)
  next
    case (Inr x)
    with Pair show ?thesis by (intro settles_step [OF _ assms(2)]) (simp_all add: bindM_def)
  qed
qed

lemma settles_then:
  "onlyM is_real m \<Longrightarrow> (\<And>x w'. m w = (Inr x, w') \<Longrightarrow> settles N F w') \<Longrightarrow> settles N (\<lambda>n. thenM m (F n)) w"
  unfolding thenM_def by (rule settles_bind)

lemma settles_try:
  assumes "onlyM is_real m" "\<And>e. onlyM is_real (h e)" "\<And>x w'. m w = (Inr x, w') \<Longrightarrow> settles N (F x) w'"
  shows "settles N (\<lambda>n. tryM m p h (\<lambda>x. F x n)) w"
proof (cases "m w")
  case (Pair r w')
  show ?thesis
  proof (cases r)
    case (Inl e)
    show ?thesis
    proof (cases "p e")
      case True
      with Pair Inl show ?thesis
        by (intro settles_step [OF _ settles_const [OF assms(2)]]) (simp_all add: tryM_def)
    next
      case False
      with Pair Inl show ?thesis by (intro settles_raise [of _ w e w'] onlyM_D [OF assms(1)]) (simp_all add: tryM_def)
    qed
  next
    case (Inr x)
    with Pair show ?thesis by (intro settles_step [OF _ assms(3)]) (simp_all add: tryM_def)
  qed
qed

lemma settles_into:
  assumes "settles N F w" "\<And>x. onlyM is_real (g x)"
  shows "settles N (\<lambda>n. bindM (F n) g) w"
proof -
  have same: "F n w = F N w" if "N \<le> n" for n using assms(1) that unfolding settles_def by blast
  have real: "is_real e" if "F N w = (Inl e, w')" for e w' using assms(1) that unfolding settles_def by blast
  have "is_real e" if "bindM (F N) g w = (Inl e, w')" for e w'
    using that real onlyM_D [OF assms(2)] by (auto simp: bindM_def split: prod.splits sum.splits)
  moreover have "bindM (F n) g w = bindM (F N) g w" if "N \<le> n" for n
    unfolding bindM_def same [OF that] ..
  ultimately show ?thesis unfolding settles_def by blast
qed

lemma settles_if: "(b \<Longrightarrow> settles N F w) \<Longrightarrow> (\<not> b \<Longrightarrow> settles N G w) \<Longrightarrow> settles N (\<lambda>n. if b then F n else G n) w"
  by (cases b) simp_all

text \<open>The existence of a bound, along a path.\<close>

lemma bound_bind:
  assumes "onlyM is_real m" "\<And>x w'. m w = (Inr x, w') \<Longrightarrow> \<exists>N. settles N (F x) w'"
  shows "\<exists>N. settles N (\<lambda>n. bindM m (\<lambda>x. F x n)) w"
proof (cases "m w")
  case (Pair r w')
  with assms obtain N where "\<And>x. r = Inr x \<Longrightarrow> settles N (F x) w'" by (cases r) auto
  with Pair have "settles N (\<lambda>n. bindM m (\<lambda>x. F x n)) w" by (intro settles_bind [OF assms(1)]) auto
  then show ?thesis ..
qed

lemma bound_then: "onlyM is_real m \<Longrightarrow> (\<And>x w'. m w = (Inr x, w') \<Longrightarrow> \<exists>N. settles N F w') \<Longrightarrow> \<exists>N. settles N (\<lambda>n. thenM m (F n)) w"
  unfolding thenM_def by (rule bound_bind)

lemma bound_try:
  assumes "onlyM is_real m" "\<And>e. onlyM is_real (h e)" "\<And>x w'. m w = (Inr x, w') \<Longrightarrow> \<exists>N. settles N (F x) w'"
  shows "\<exists>N. settles N (\<lambda>n. tryM m p h (\<lambda>x. F x n)) w"
proof (cases "m w")
  case (Pair r w')
  with assms obtain N where "\<And>x. r = Inr x \<Longrightarrow> settles N (F x) w'" by (cases r) auto
  with Pair have "settles N (\<lambda>n. tryM m p h (\<lambda>x. F x n)) w" by (intro settles_try [OF assms(1,2)]) auto
  then show ?thesis ..
qed

lemma bound_if: "(b \<Longrightarrow> \<exists>N. settles N F w) \<Longrightarrow> (\<not> b \<Longrightarrow> \<exists>N. settles N G w) \<Longrightarrow> \<exists>N. settles N (\<lambda>n. if b then F n else G n) w"
  by (cases b) simp_all

subsection \<open>Progress of the clock\<close>

definition real_engine :: "'s valkey_cache \<Rightarrow> bool" where
  "real_engine vc = ((\<forall>k. onlyM is_real (c_get (vc_client vc) k)) \<and> (\<forall>k v nx px. onlyM is_real (c_set (vc_client vc) k v nx px)) \<and>
     (\<forall>k. onlyM is_real (c_delete (vc_client vc) k)) \<and> (\<forall>sha n args. onlyM is_real (c_evalsha (vc_client vc) sha n args)) \<and>
     (\<forall>script. onlyM is_real (c_script_load (vc_client vc) script)) \<and> host_raises is_real (vc_host vc))"

text \<open>
  \<open>left\<close> bounds the polls before the deadline: a reading of the monotonic clock below the deadline
  means that some are left, a sleep uses up at least one, and the other calls of a poll give none
  back.
\<close>

definition runs_down :: "'s valkey_cache \<Rightarrow> pyfloat \<Rightarrow> ('s \<Rightarrow> nat) \<Rightarrow> bool" where
  "runs_down vc deadline left =
     ((\<forall>s t s'. h_monotonic (vc_host vc) s = (Inr t, s') \<longrightarrow> float_less t deadline \<longrightarrow> 0 < left s' \<and> left s' \<le> left s) \<and>
      (\<forall>s s'. h_sleep (vc_host vc) (seconds_of_ms (poll_ms (single_flight (vc_settings vc)))) s = (Inr (), s') \<longrightarrow>
         0 < left s \<longrightarrow> left s' < left s) \<and>
      (\<forall>n. (\<forall>k. keepsM (\<lambda>s. left s \<le> n) is_real (c_get (vc_client vc) k)) \<and>
         (\<forall>k. keepsM (\<lambda>s. left s \<le> n) is_real (c_delete (vc_client vc) k)) \<and>
         keepsM (\<lambda>s. left s \<le> n) is_real (h_clock_ms (vc_host vc)) \<and>
         (\<forall>name as. keepsM (\<lambda>s. left s \<le> n) is_real (h_emit (vc_host vc) name as))))"

lemma lookup_keeps:
  assumes "real_lib L" "\<And>k. keepsM I is_real (c_get (vc_client vc) k)" "\<And>k. keepsM I is_real (c_delete (vc_client vc) k)"
    "keepsM I is_real (h_clock_ms (vc_host vc))" "\<And>name as. keepsM I is_real (h_emit (vc_host vc) name as)"
  shows "keepsM (\<lambda>w. I (w_ext w)) is_real (lookup L vc context ref k)"
proof -
  have ev: "keepsM (\<lambda>w. I (w_ext w)) is_real (event vc n ref as)" for n as
    unfolding event_def by (intro only_intros assms)
  have del: "keepsM (\<lambda>w. I (w_ext w)) is_real (best_effort_delete vc key)" for key
    unfolding best_effort_delete_def by (rule keepsM_catch [of _ is_real]) (auto intro!: only_intros assms)
  have dec: "keepsM (\<lambda>w. I (w_ext w)) is_real (decode_for L vc policy raw)" for policy raw
    unfolding decode_for_def codec_decode_def by (auto intro!: only_intros assms split: prod.split)
  show ?thesis
    unfolding lookup_def discard_corrupt_def
    by (auto intro!: only_intros keepsM_try [OF dec] ev del assms)
qed

lemma lookup_real: "real_lib L \<Longrightarrow> real_engine vc \<Longrightarrow> onlyM is_real (lookup L vc context ref k)"
  by (rule lookup_keeps [where I = "\<lambda>_. True"]) (simp_all add: real_engine_def host_raises_def)

lemma wait_settles:
  assumes "real_lib L" "real_engine vc" "runs_down vc deadline left" "left (w_ext w) < n"
  shows "settles n (wait_for_peer L vc context ref k deadline) w"
  using assms(4)
proof (induction n arbitrary: w)
  case (Suc n)
  have real: "onlyM is_real (ext (h_monotonic (vc_host vc)))" "onlyM is_real (ext (h_sleep (vc_host vc) x))" for x
    using assms(2) by (auto simp: real_engine_def host_raises_def intro!: only_intros)
  show ?case
    unfolding wait_for_peer.simps
  proof (rule settles_Suc, unfold wait_for_peer.simps, intro settles_bind settles_if settles_then settles_try real
      lookup_real [OF assms(1,2)] settles_const keepsM_return Suc.IH)
    fix t w1 u w2 peer w3
    assume run: "ext (h_monotonic (vc_host vc)) w = (Inr t, w1)" "float_less t deadline"
      "ext (h_sleep (vc_host vc) (seconds_of_ms (poll_ms (single_flight (vc_settings vc))))) w1 = (Inr u, w2)"
      "lookup L vc context ref k w2 = (Inr peer, w3)"
    have "0 < left (w_ext w1)" "left (w_ext w1) \<le> left (w_ext w)" "left (w_ext w2) < left (w_ext w1)"
      using assms(3) run by (auto simp: runs_down_def ext_def split: prod.splits)
    moreover have "keepsM (\<lambda>w. left (w_ext w) \<le> left (w_ext w2)) is_real (lookup L vc context ref k)"
      using assms(3) by (intro lookup_keeps [where I = "\<lambda>s. left s \<le> left (w_ext w2)"] assms(1)) (simp_all add: runs_down_def)
    then have "left (w_ext w3) \<le> left (w_ext w2)" using keepsM_Inr run(4) by fastforce
    ultimately show "left (w_ext w3) < n" using Suc.prems by simp
  qed
qed simp


lemma real_calls:
  assumes "real_engine vc"
  shows "onlyM is_real (c_set (vc_client vc) key v nx px)" "onlyM is_real (h_token_bytes (vc_host vc))"
    "onlyM is_real (h_monotonic (vc_host vc))" "onlyM is_real (h_clock_ms (vc_host vc))" "onlyM is_real (h_emit (vc_host vc) name as)"
    "onlyM is_real (c_evalsha (vc_client vc) sha n args)" "onlyM is_real (c_script_load (vc_client vc) script)"
  using assms by (simp_all add: real_engine_def host_raises_def)

lemma real_event: "real_engine vc \<Longrightarrow> onlyM is_real (event vc n ref as)"
  unfolding event_def by (auto intro!: only_intros real_calls)

lemma real_eval_script: "real_engine vc \<Longrightarrow> onlyM is_real (eval_script (vc_client vc) script sha n args)"
  unfolding eval_script_def reload_script_def Let_def
  by (rule keepsM_catch [of _ is_real]) (auto intro!: only_intros real_calls split: pyval.split)

lemma real_lease:
  assumes "real_engine vc"
  shows "onlyM is_real (release_quietly vc lkey token)" "onlyM is_real (acquire_lease (vc_client vc) lkey token ms)"
proof -
  show "onlyM is_real (release_quietly vc lkey token)"
    unfolding release_quietly_def release_lease_def
    by (rule keepsM_catch [of _ is_real]) (auto intro!: only_intros real_eval_script [OF assms])
  show "onlyM is_real (acquire_lease (vc_client vc) lkey token ms)"
    unfolding acquire_lease_def by (auto intro!: only_intros real_calls [OF assms])
qed

lemma real_put:
  assumes "real_lib L" "real_engine vc"
  shows "onlyM is_real (put L vc context ref k v req source)"
  unfolding put_def encode_for_def decode_for_def codec_encode_def codec_decode_def
  by (auto intro!: only_intros real_calls real_event assms split: prod.split)

lemma real_loads:
  assumes "real_lib L" "real_engine vc" "onlyM is_real loader"
  shows "onlyM is_real (load_and_populate L vc context ref k loader req source policy)"
    "onlyM is_real (duplicate_load L vc context ref k loader req source policy)"
  unfolding load_and_populate_def duplicate_load_def
  by (auto intro!: only_intros keepsM_try [OF real_put [OF assms(1,2)]] real_event assms)

lemma real_unavailable: "onlyM is_real loader \<Longrightarrow> onlyM is_real (unavailable loader)"
  unfolding unavailable_def by (auto intro!: only_intros)

lemma contended_settles:
  assumes "real_lib L" "real_engine vc" "onlyM is_real loader"
    "\<And>s t s'. h_monotonic (vc_host vc) s = (Inr t, s') \<Longrightarrow>
      runs_down vc (float_add t (seconds_of_ms (wait_ms (single_flight (vc_settings vc))))) (left t)"
  shows "\<exists>N. settles N (contended L vc context ref k loader req source policy) w"
  unfolding contended_def Let_def
proof (intro bound_then bound_bind only_intros real_calls [OF assms(2)])
  fix u w1 t w2 assume "ext (h_monotonic (vc_host vc)) w1 = (Inr t, w2)"
  then have "runs_down vc (float_add t (seconds_of_ms (wait_ms (single_flight (vc_settings vc))))) (left t)"
    by (auto simp: ext_def split: prod.splits dest: assms(4))
  then have "settles (Suc (left t (w_ext w2))) (wait_for_peer L vc context ref k
      (float_add t (seconds_of_ms (wait_ms (single_flight (vc_settings vc)))))) w2"
    by (rule wait_settles [OF assms(1,2) _ lessI])
  then show "\<exists>N. settles N (\<lambda>n. bindM (wait_for_peer L vc context ref k (float_add t (seconds_of_ms (wait_ms (single_flight (vc_settings vc))))) n)
      (\<lambda>r. case r of None \<Rightarrow> duplicate_load L vc context ref k loader req source policy | Some peer \<Rightarrow> returnM peer)) w2"
    by (intro exI settles_into only_intros real_loads assms(1-3))
qed

text \<open>
  C14: a cache-aside read ends. The wait for another caller's load is bounded by the monotonic clock
  only: if for every deadline it can set there is a bound on the polls that are left, which a
  clock reading below the deadline keeps positive and every sleep lowers, then some bound on the
  number of turns is enough. The outcome does not depend on it any more and is not its exhaustion.
\<close>

theorem get_or_load_terminates:
  assumes "real_lib L" "real_engine vc" "onlyM is_real loader"
    "\<And>s t s'. h_monotonic (vc_host vc) s = (Inr t, s') \<Longrightarrow>
      runs_down vc (float_add t (seconds_of_ms (wait_ms (single_flight (vc_settings vc))))) (left t)"
  shows "\<exists>N. (\<forall>fuel\<ge>N. get_or_load L vc context ref k loader req source fuel w = get_or_load L vc context ref k loader req source N w) \<and>
    fst (get_or_load L vc context ref k loader req source N w) \<noteq> Inl OutOfFuel"
proof -
  have "\<exists>N. settles N (get_or_load L vc context ref k loader req source) w"
    unfolding get_or_load_def load_through_def case_prod_unfold
    by (intro bound_try bound_bind bound_if only_intros lookup_real real_loads real_unavailable real_event real_calls real_lease
        contended_settles [OF assms] assms(1-3) exI [where P = "\<lambda>N. settles N (\<lambda>_. m) w" for m w] settles_const)
  then show ?thesis unfolding settles_def by (metis is_real_simps(18) prod.collapse)
qed

subsection \<open>Examples\<close>

theorem lookup_returns_verified_witness:
  "\<exists>key policy d w1 w2 v s raw now s'. lookup ref_lib sample_cache sample_context sample_ref (PStr ''u1'') w1 = (Inr (HIT d), w2) \<and>
    physical_key ref_lib sample_cache sample_context sample_ref (PStr ''u1'') PNone = Inr (key, policy) \<and>
    c_get fake_client key (w_ext w1) = (Inr v, s) \<and> bytes_of v = Some raw \<and> h_clock_ms (fake_host 10) s = (Inr now, s') \<and>
    now < de_expires_at_ms d"
proof -
  obtain d w1 w2 where hit: "lookup ref_lib sample_cache sample_context sample_ref (PStr ''u1'') w1 = (Inr (HIT d), w2)"
    by (rule sample_hit)
  have "MISS \<noteq> HIT d" "HIT d = HIT d' \<longleftrightarrow> d = d'" for d' by (auto simp: MISS_def HIT_def)
  with lookup_returns_verified [OF hit] hit show ?thesis by auto blast
qed

theorem get_or_load_returns_authority_witness:
  "\<exists>d w'. get_or_load ref_lib sample_cache sample_context sample_ref (PStr ''u1'') (returnM (PStr ''hello'')) PNone PNone 100 sample_world =
      (Inr (LOADED (PStr ''hello'') (Some d) False), w') \<and> stored_as ref_lib sample_cache sample_policy (PStr ''hello'') d"
proof -
  obtain key lkey d v' where k: "physical_key ref_lib sample_cache sample_context sample_ref (PStr ''u1'') PNone = Inr (key, sample_policy)"
    "lease_key (vc_key_encoder sample_cache) key = Inr lkey"
    and sp: "spec_get_or_load ref_lib sample_cache sample_policy key (PStr ''hello'') 60000 PNone (fake_view (w_ext sample_world)) =
      (Inr (LOADED (PStr ''hello'') (Some d) False), v')"
    "loads fake_good fake_view (returnM (PStr ''hello'')) (PStr ''hello'')" by (rule sample_load)
  have "refines fake_good fake_view
      (get_or_load ref_lib sample_cache sample_context sample_ref (PStr ''u1'') (returnM (PStr ''hello'')) PNone PNone 100)
      (spec_get_or_load ref_lib sample_cache sample_policy key (PStr ''hello'') 60000 PNone) sample_world"
    using k sp unfolding sample_cache_def
    by (intro fake_cache.get_or_load_refines) (auto simp: wf_sample_settings sample_ttl)
  then obtain w' where run: "get_or_load ref_lib sample_cache sample_context sample_ref (PStr ''u1'') (returnM (PStr ''hello'')) PNone PNone 100 sample_world =
      (Inr (LOADED (PStr ''hello'') (Some d) False), w')" by (rule refines_run) (use sp in auto)
  have "LOADED (PStr ''hello'') (Some d) False \<noteq> HIT d'" for d' by (simp add: LOADED_def HIT_def)
  with get_or_load_returns_authority [OF run k(1)] run show ?thesis by (auto simp: LOADED_def)
qed

lemma real_ref_lib: "real_lib ref_lib"
proof -
  have "onlyE is_real (print_body inner v)" if "\<And>f x. inner = Some f \<Longrightarrow> onlyE is_real (f x)" for inner v
    using that by (cases v; cases inner) (auto simp: print_body_def intro!: only_intros)
  note body = this
  have "onlyE is_real (print_json n v)" for n v
    by (induction n arbitrary: v) (auto intro!: body)
  then show ?thesis by (simp add: real_lib_def ref_lib_def ref_json_def onlyE_Inr)
qed

text \<open>The calls of the fake keep its clock.\<close>

definition keeps_clock :: "(fake, 'a) py \<Rightarrow> bool" where
  "keeps_clock m = (\<forall>T. keepsM (\<lambda>s. f_now_ms s = T) is_real m)"

lemma keeps_clock_base: "keeps_clock (returnM x)" "is_real e \<Longrightarrow> keeps_clock (raiseM e)" "onlyE is_real r \<Longrightarrow> keeps_clock (liftM r)"
  by (auto simp: keeps_clock_def intro!: only_intros)

lemma keeps_clock_read: "keeps_clock (readM f)"
  by (auto simp: keeps_clock_def readM_def intro!: keepsM_I)

lemma keeps_clock_modify: "(\<And>s. f_now_ms (f s) = f_now_ms s) \<Longrightarrow> keeps_clock (modifyM f)"
  by (auto simp: keeps_clock_def modifyM_def intro!: keepsM_I)

lemma keeps_clock_bind: "keeps_clock m \<Longrightarrow> (\<And>x. keeps_clock (g x)) \<Longrightarrow> keeps_clock (bindM m g)"
  by (auto simp: keeps_clock_def intro!: keepsM_bind)

lemma keeps_clock_then: "keeps_clock m \<Longrightarrow> keeps_clock m' \<Longrightarrow> keeps_clock (thenM m m')"
  by (simp add: thenM_def keeps_clock_bind)

lemma keeps_clock_if: "(b \<Longrightarrow> keeps_clock m) \<Longrightarrow> (\<not> b \<Longrightarrow> keeps_clock m') \<Longrightarrow> keeps_clock (if b then m else m')"
  by simp

lemmas keeps_clock_intros = keeps_clock_base keeps_clock_read keeps_clock_modify keeps_clock_bind keeps_clock_then keeps_clock_if

lemma keeps_clock_parts: "keeps_clock fake_check" "keeps_clock (fake_live k)"
  by (auto simp: keeps_clock_def fake_check_def fake_live_def bump_def intro!: keepsM_I split: if_splits option.splits)

lemma keeps_clock_fake:
  "keeps_clock (fake_get k)" "keeps_clock (fake_delete k)" "keeps_clock (recording_emit n as)" "keeps_clock (fake_set k v nx px)"
  "keeps_clock (fake_script_load b)" "keeps_clock (h_token_bytes (fake_host step))"
proof -
  have "keeps_clock (\<lambda>s. (Inr (PInt (if f_values s k \<noteq> None then 1 else 0)), bump k (s\<lparr>f_values := (f_values s)(k := None)\<rparr>)))"
    by (auto simp: keeps_clock_def bump_def intro!: keepsM_I)
  then show "keeps_clock (fake_delete k)" unfolding fake_delete_def by (rule keeps_clock_then [OF keeps_clock_parts(1)])
  show "keeps_clock (h_token_bytes (fake_host step))" by (auto simp: keeps_clock_def fake_host_def intro!: keepsM_I)
qed (auto simp: fake_get_def recording_emit_def fake_set_def fake_store_def fake_script_load_def Let_def bump_def
    intro!: keeps_clock_intros keeps_clock_parts)

lemma keeps_clock_evalsha: "keeps_clock (fake_evalsha sha n args)"
proof -
  have int10: "onlyE is_real (py_int10 ms)" for ms
    by (auto simp: py_int10_def Let_def digits_error_def intro!: onlyE_I split: option.splits list.splits if_splits prod.splits)
  have "keeps_clock (fake_cas key xs)" for key xs
    unfolding fake_cas_def
    by (intro keeps_clock_intros keeps_clock_fake) (auto intro!: keeps_clock_intros keeps_clock_fake only_intros int10 split: list.split pyval.split)
  moreover have "keeps_clock (fake_release key token)" for key token
    unfolding fake_release_def by (intro keeps_clock_intros keeps_clock_fake)
  ultimately show ?thesis
    unfolding fake_evalsha_def assertM_def
    by (auto intro!: keeps_clock_intros keeps_clock_parts only_intros split: list.split pyval.split)
qed

lemma keeps_clockD:
  assumes "keeps_clock m"
  shows "keepsM (\<lambda>s. F (f_now_ms s)) is_real m"
proof (rule keepsM_I)
  fix s x s' assume run: "m s = (Inr x, s')" "F (f_now_ms s)"
  have "keepsM (\<lambda>u. f_now_ms u = f_now_ms s) is_real m" using assms by (simp add: keeps_clock_def)
  from keepsM_Inr [OF this run(1) refl] run(2) show "F (f_now_ms s')" by simp
next
  fix s e s' assume run: "m s = (Inl e, s')" "F (f_now_ms s)"
  have "keepsM (\<lambda>u. f_now_ms u = f_now_ms s) is_real m" using assms by (simp add: keeps_clock_def)
  from keepsM_Inl [OF this run(1) refl] run(2) show "is_real e \<and> F (f_now_ms s')" by simp
qed

lemmas keeps_clock_only = keeps_clockD [where F = "\<lambda>_. True"]

lemma sample_real: "real_engine sample_cache"
proof -
  have "onlyM is_real (advance t)" for t by (auto simp: advance_def modifyM_def intro!: keepsM_I)
  then show ?thesis
    unfolding real_engine_def host_raises_def sample_cache_simps fake_client_simps fake_host_simps
    by (simp add: keeps_clock_only keeps_clock_fake keeps_clock_evalsha keeps_clock_read)
qed

lemma sample_runs_down: "runs_down sample_cache deadline (\<lambda>s. nat (2 ^ 50 - f_now_ms s))"
proof -
  have reading: "f_now_ms s < 2 ^ 50" if "float_less (fake_monotonic s) deadline" for s
    using that by (cases deadline) (auto simp: fake_monotonic_def split: if_splits)
  note keeps = keeps_clockD [where F = "\<lambda>t. nat (2 ^ 50 - t) \<le> n" for n]
  show ?thesis
    unfolding runs_down_def sample_cache_simps fake_client_simps fake_host_simps
    by (intro conjI allI keeps keeps_clock_fake keeps_clock_intros) (auto simp: advance_def dest!: reading)
qed

theorem get_or_load_terminates_witness:
  "\<exists>N. fst (get_or_load ref_lib sample_cache sample_context sample_ref (PStr ''u1'') (returnM (PStr ''hello'')) PNone PNone N sample_world) \<noteq> Inl OutOfFuel"
  using get_or_load_terminates [OF real_ref_lib sample_real keepsM_return sample_runs_down] by blast

theorem get_or_load_hides_engine_errors_witness:
  "\<exists>w'. get_or_load ref_lib sample_cache sample_context sample_ref (PStr ''u1'') (raiseM (ValueError ''no authority'')) PNone PNone 100
      (sample_world\<lparr>w_ext := FakeValkey\<lparr>f_raise_connection := True\<rparr>\<rparr>) = (Inl (ValueError ''no authority''), w') \<and>
    \<not> is_ValkeyError (ValueError ''no authority'')"
proof -
  let ?P = "\<lambda>e. \<not> is_ValkeyError e"
  obtain key lkey where k: "physical_key ref_lib sample_cache sample_context sample_ref (PStr ''u1'') PNone = Inr (key, sample_policy)"
    by (rule sample_physical_key [of "''u1''"]) simp
  then obtain w' where run: "get_or_load ref_lib sample_cache sample_context sample_ref (PStr ''u1'') (raiseM (ValueError ''no authority'')) PNone PNone 100
      (sample_world\<lparr>w_ext := FakeValkey\<lparr>f_raise_connection := True\<rparr>\<rparr>) = (Inl (ValueError ''no authority''), w')"
    by (simp add: get_or_load_def lookup_def tryM_def bindM_def thenM_def ext_def fake_get_def fake_check_def metric_def
        event_def utf8_encode_def unavailable_def recording_emit_def)
  have "onlyM ?P (raiseM (ValueError ''no authority''))" "host_raises ?P (vc_host sample_cache)"
    by (auto simp: host_raises_def fake_host_def recording_emit_def advance_def readM_def modifyM_def intro!: keepsM_I only_intros)
  from get_or_load_hides_engine_errors [OF this run] run show ?thesis by blast
qed

end
