(* ===== verification/Vk_Sharing.thy ===== *)
theory Vk_Sharing
  imports Vk_Cache_Theorems
begin

section \<open>Several callers on one engine\<close>

text \<open>
  The engine runs commands one at a time, the callers interleave between them. Here leases are
  followed through every interleaving of any number of callers, and a compare-and-set through an
  engine that others change between its commands.
\<close>

subsection \<open>Leases\<close>

text \<open>
  The state of a lease: the engine, and what each caller believes to hold, its token and the end of its lease.
  \<open>lease_step\<close> are the calls of \<^verbatim>\<open>AtomicExecutor\<close> by any caller, each with a token no caller holds,
  and anything that leaves the lease's own entry alone but for its expiry: other keys, the clock.
\<close>

record 's leases =
  ls_engine :: 's
  ls_held :: "nat \<Rightarrow> (bytes \<times> int) option"

definition fresh_token :: "bytes \<Rightarrow> 's leases \<Rightarrow> bool" where
  "fresh_token token a = (\<forall>p t u. ls_held a p = Some (t, u) \<longrightarrow> t \<noteq> token)"

definition live_holder :: "('s \<Rightarrow> view) \<Rightarrow> 's leases \<Rightarrow> nat \<Rightarrow> bool" where
  "live_holder store a p = (\<exists>t u. ls_held a p = Some (t, u) \<and> v_now (store (ls_engine a)) < u)"

inductive lease_step :: "'s client \<Rightarrow> ('s \<Rightarrow> bool) \<Rightarrow> ('s \<Rightarrow> view) \<Rightarrow> bytes \<Rightarrow> 's leases \<Rightarrow> 's leases \<Rightarrow> bool"
  for C good store lkey where
  step_acquired: "acquire_lease C lkey token ms (ls_engine a) = (Inr True, s') \<Longrightarrow> 0 < ms \<Longrightarrow> fresh_token token a \<Longrightarrow>
    lease_step C good store lkey a
      (a\<lparr>ls_engine := s', ls_held := (ls_held a)(p \<mapsto> (token, v_now (store (ls_engine a)) + ms))\<rparr>)"
| step_refused: "acquire_lease C lkey token ms (ls_engine a) = (Inr False, s') \<Longrightarrow> 0 < ms \<Longrightarrow>
    lease_step C good store lkey a (a\<lparr>ls_engine := s'\<rparr>)"
| step_released: "ls_held a p = Some (token, u) \<Longrightarrow> release_lease C lkey token (ls_engine a) = (r, s') \<Longrightarrow>
    lease_step C good store lkey a (a\<lparr>ls_engine := s', ls_held := (ls_held a)(p := None)\<rparr>)"
| step_others: "good s' \<Longrightarrow> v_entries (store s') lkey = v_entries (v_at (v_now (store s')) (store (ls_engine a))) lkey \<Longrightarrow>
    v_now (store (ls_engine a)) \<le> v_now (store s') \<Longrightarrow> lease_step C good store lkey a (a\<lparr>ls_engine := s'\<rparr>)"

inductive_cases lease_stepE: "lease_step C good store lkey a a'"

inductive lease_reachable :: "'s client \<Rightarrow> ('s \<Rightarrow> bool) \<Rightarrow> ('s \<Rightarrow> view) \<Rightarrow> bytes \<Rightarrow> 's leases \<Rightarrow> bool"
  for C good store lkey where
  lease_start: "good s \<Longrightarrow> lease_reachable C good store lkey \<lparr>ls_engine = s, ls_held = Map.empty\<rparr>"
| lease_next: "lease_reachable C good store lkey a \<Longrightarrow> lease_step C good store lkey a a' \<Longrightarrow> lease_reachable C good store lkey a'"

text \<open>A lease that has not ended is the entry in the store, and no two callers have one token.\<close>

definition leases_inv :: "('s \<Rightarrow> bool) \<Rightarrow> ('s \<Rightarrow> view) \<Rightarrow> bytes \<Rightarrow> 's leases \<Rightarrow> bool" where
  "leases_inv good store lkey a = (good (ls_engine a) \<and>
     (\<forall>p t u. ls_held a p = Some (t, u) \<and> v_now (store (ls_engine a)) < u \<longrightarrow> v_entries (store (ls_engine a)) lkey = Some (t, u)) \<and>
     (\<forall>p q t u u'. ls_held a p = Some (t, u) \<and> ls_held a q = Some (t, u') \<longrightarrow> p = q))"

lemma v_put_entries [simp]: "v_entries (v_put key x px v) key = Some (x, v_now v + px)"
  by (simp add: v_put_def)

lemma v_at_entry: "v_entries (v_at t v) key = Some (x, u) \<longleftrightarrow> v_entries v key = Some (x, u) \<and> t < u"
  by (auto simp: v_at_def split: option.splits prod.splits if_splits)

lemma v_get_None: "v_get v key = None \<longleftrightarrow> v_entries v key = None"
  by (simp add: v_get_def)

lemma release_script_keeps:
  "v_entries v lkey = Some (t, u) \<Longrightarrow> t \<noteq> token \<Longrightarrow> snd (release_script lkey token v) = v"
  "v_now (snd (release_script lkey token v)) = v_now v"
  by (auto simp: release_script_def v_get_def split: option.split)

context engine_contract
begin

lemma acquire_run:
  assumes "good s" "0 < px"
  obtains s' where "acquire_lease C key token px s = (Inr (v_get (store s) key = None), s')" "good s'"
    "store s' = (if v_get (store s) key = None then v_put key token px (store s) else store s)"
proof -
  have "wpM (acquire_lease C key token px) (\<lambda>b s'. b = (v_get (store s) key = None) \<and> good s' \<and>
      store s' = (if v_get (store s) key = None then v_put key token px (store s) else store s)) (\<lambda>_ _. False) s"
    using assms by (intro wp_acquire) auto
  with that show ?thesis by (auto simp: wpM_def split: prod.splits sum.splits)
qed

lemma release_run:
  assumes "good s"
  obtains s' where "release_lease C key token s = (Inr (fst (release_script key token (store s)) = 1), s')" "good s'"
    "store s' = snd (release_script key token (store s))"
proof -
  have "wpM (release_lease C key token) (\<lambda>b s'. b = (fst (release_script key token (store s)) = 1) \<and> good s' \<and>
      store s' = snd (release_script key token (store s))) (\<lambda>_ _. False) s"
    using assms by (intro wp_release) auto
  with that show ?thesis by (auto simp: wpM_def split: prod.splits sum.splits)
qed

lemma leases_step_keeps:
  assumes "lease_step C good store lkey a a'" "leases_inv good store lkey a"
  shows "leases_inv good store lkey a'"
  using assms(1)
proof (rule lease_stepE)
  fix token ms s' p
  assume run: "acquire_lease C lkey token ms (ls_engine a) = (Inr True, s')" "0 < ms" "fresh_token token a"
    and a': "a' = a\<lparr>ls_engine := s', ls_held := (ls_held a)(p \<mapsto> (token, v_now (store (ls_engine a)) + ms))\<rparr>"
  obtain s1 where "acquire_lease C lkey token ms (ls_engine a) = (Inr (v_get (store (ls_engine a)) lkey = None), s1)" "good s1"
    "store s1 = (if v_get (store (ls_engine a)) lkey = None then v_put lkey token ms (store (ls_engine a)) else store (ls_engine a))"
    by (rule acquire_run [of "ls_engine a" ms lkey token]) (use assms(2) run(2) in \<open>simp_all add: leases_inv_def\<close>)
  with run(1) have s': "v_entries (store (ls_engine a)) lkey = None" "good s'" "store s' = v_put lkey token ms (store (ls_engine a))"
    by (auto simp: v_get_None)
  show ?thesis
    using assms(2) run(3) s' unfolding leases_inv_def fresh_token_def a' by (fastforce split: if_splits)
next
  fix token ms s'
  assume run: "acquire_lease C lkey token ms (ls_engine a) = (Inr False, s')" "0 < ms" and a': "a' = a\<lparr>ls_engine := s'\<rparr>"
  obtain s1 where "acquire_lease C lkey token ms (ls_engine a) = (Inr (v_get (store (ls_engine a)) lkey = None), s1)" "good s1"
    "store s1 = (if v_get (store (ls_engine a)) lkey = None then v_put lkey token ms (store (ls_engine a)) else store (ls_engine a))"
    by (rule acquire_run [of "ls_engine a" ms lkey token]) (use assms(2) run(2) in \<open>simp_all add: leases_inv_def\<close>)
  with run(1) have "good s'" "store s' = store (ls_engine a)" by auto
  with assms(2) show ?thesis by (simp add: leases_inv_def a')
next
  fix p token u r s'
  assume run: "ls_held a p = Some (token, u)" "release_lease C lkey token (ls_engine a) = (r, s')"
    and a': "a' = a\<lparr>ls_engine := s', ls_held := (ls_held a)(p := None)\<rparr>"
  obtain s1 where "release_lease C lkey token (ls_engine a) = (Inr (fst (release_script lkey token (store (ls_engine a))) = 1), s1)"
    "good s1" "store s1 = snd (release_script lkey token (store (ls_engine a)))"
    by (rule release_run [of "ls_engine a" lkey token]) (use assms(2) in \<open>simp_all add: leases_inv_def\<close>)
  with run(2) have s': "good s'" "store s' = snd (release_script lkey token (store (ls_engine a)))" by auto
  have "v_entries (store s') lkey = Some (t, u')"
    if "ls_held a q = Some (t, u')" "q \<noteq> p" "v_now (store (ls_engine a)) < u'" for q t u'
  proof -
    have "v_entries (store (ls_engine a)) lkey = Some (t, u')" "t \<noteq> token"
      using assms(2) that run(1) unfolding leases_inv_def by blast+
    then show ?thesis by (simp add: s'(2) release_script_keeps(1))
  qed
  then show ?thesis
    using assms(2) s' unfolding leases_inv_def a' by (auto simp: release_script_keeps(2) split: if_splits)
next
  fix s'
  assume s': "good s'" "v_entries (store s') lkey = v_entries (v_at (v_now (store s')) (store (ls_engine a))) lkey"
    "v_now (store (ls_engine a)) \<le> v_now (store s')" and a': "a' = a\<lparr>ls_engine := s'\<rparr>"
  have "v_entries (store s') lkey = Some (t, u)" if "ls_held a p = Some (t, u)" "v_now (store s') < u" for p t u
  proof -
    have "v_now (store (ls_engine a)) < u" using s'(3) that(2) by simp
    then have "v_entries (store (ls_engine a)) lkey = Some (t, u)" using assms(2) that(1) unfolding leases_inv_def by blast
    with that(2) show ?thesis by (simp add: s'(2) v_at_entry)
  qed
  with assms(2) s'(1) show ?thesis unfolding leases_inv_def a' by auto
qed

lemma leases_reachable_inv: "lease_reachable C good store lkey a \<Longrightarrow> leases_inv good store lkey a"
proof (induction rule: lease_reachable.induct)
  case (lease_start s)
  then show ?case by (simp add: leases_inv_def)
qed (rule leases_step_keeps)

end

text \<open>
  C7: leases exclude under every interleaving. However any number of callers acquire and release a
  lease, late releases after the end of a lease included, with the clock and other traffic moving in
  between: at most one caller holds a lease that has not ended; while one does, every attempt to
  acquire it is refused and a release by any other caller, also by one whose own lease has ended,
  leaves the entry of the lease alone; a release by the holder itself frees it.
\<close>

theorem single_flight_exclusive:
  assumes "engine_contract C H good store loaded" "lease_reachable C good store lkey a" "live_holder store a p" "0 < ms"
  shows "(\<forall>q. live_holder store a q \<longrightarrow> q = p) \<and>
    (\<exists>s'. acquire_lease C lkey token ms (ls_engine a) = (Inr False, s') \<and> store s' = store (ls_engine a)) \<and>
    (\<forall>q t u. ls_held a q = Some (t, u) \<longrightarrow> (\<exists>s'. release_lease C lkey t (ls_engine a) = (Inr (q = p), s') \<and>
      store s' = (if q = p then v_del lkey (store (ls_engine a)) else store (ls_engine a))))"
proof -
  let ?s = "ls_engine a"
  note inv = engine_contract.leases_reachable_inv [OF assms(1,2)]
  from assms(3) obtain t u where p: "ls_held a p = Some (t, u)" "v_now (store ?s) < u" by (auto simp: live_holder_def)
  have good: "good ?s" using inv by (simp add: leases_inv_def)
  have tokens: "p = q" if "ls_held a p = Some (t, u)" "ls_held a q = Some (t, u')" for p q t u u'
    using inv that unfolding leases_inv_def by blast
  have live: "v_entries (store ?s) lkey = Some (t', u')" if "ls_held a q = Some (t', u')" "v_now (store ?s) < u'" for q t' u'
    using inv that unfolding leases_inv_def by blast
  have e: "v_entries (store ?s) lkey = Some (t, u)" using live p .
  have one: "q = p" if "live_holder store a q" for q
  proof -
    from that obtain t' u' where q: "ls_held a q = Some (t', u')" "v_now (store ?s) < u'" by (auto simp: live_holder_def)
    with live [OF q] e have "t' = t" by simp
    with tokens [OF p(1)] q(1) show ?thesis by blast
  qed
  obtain s1 where s1: "acquire_lease C lkey token ms ?s = (Inr (v_get (store ?s) lkey = None), s1)"
    "store s1 = (if v_get (store ?s) lkey = None then v_put lkey token ms (store ?s) else store ?s)"
    by (rule engine_contract.acquire_run [OF assms(1) good assms(4)])
  then have acquire: "acquire_lease C lkey token ms ?s = (Inr False, s1)" "store s1 = store ?s" using e by (simp_all add: v_get_def)
  have release: "\<exists>s'. release_lease C lkey t' ?s = (Inr (q = p), s') \<and> store s' = (if q = p then v_del lkey (store ?s) else store ?s)"
    if "ls_held a q = Some (t', u')" for q t' u'
  proof -
    have "t' = t" if "q = p" using that p(1) \<open>ls_held a q = Some (t', u')\<close> by simp
    moreover have "q = p" if "t' = t" using tokens [OF p(1)] that \<open>ls_held a q = Some (t', u')\<close> by blast
    ultimately have "q = p \<longleftrightarrow> t' = t" by blast
    then have script: "release_script lkey t' (store ?s) = (if q = p then (1, v_del lkey (store ?s)) else (0, store ?s))"
      using e by (simp add: release_script_def v_get_def)
    obtain s2 where "release_lease C lkey t' ?s = (Inr (fst (release_script lkey t' (store ?s)) = 1), s2)"
      "store s2 = snd (release_script lkey t' (store ?s))"
      by (rule engine_contract.release_run [OF assms(1) good])
    then show ?thesis by (simp add: script split: if_splits)
  qed
  show ?thesis
  proof (intro conjI allI impI)
    show "q = p" if "live_holder store a q" for q using that by (rule one)
    show "\<exists>s'. acquire_lease C lkey token ms ?s = (Inr False, s') \<and> store s' = store ?s" using acquire by blast
  qed (rule release)
qed

subsection \<open>Compare-and-set among other writers\<close>

text \<open>
  An engine that others use too: between two commands of one caller its store may change in any
  way. What is left of the contract is that a script runs in one step: there is a store it ran on,
  its answer is the one of the script there, and it left the script's store.
\<close>

locale atomic_engine =
  fixes C :: "'s client" and H :: "'s host" and good :: "'s \<Rightarrow> bool" and store :: "'s \<Rightarrow> view"
  assumes get_keeps: "good s \<Longrightarrow> c_get C key s = (r, s') \<Longrightarrow> good s'"
    and clock_keeps: "good s \<Longrightarrow> h_clock_ms H s = (t, s') \<Longrightarrow> good s'"
    and load_keeps: "good s \<Longrightarrow> c_script_load C CAS_SCRIPT s = (l, s') \<Longrightarrow> good s'"
    and cas_atomic: "good s \<Longrightarrow> utf8_ok version \<Longrightarrow> 0 < px \<Longrightarrow> length (show_nat (nat px)) \<le> max_str_digits \<Longrightarrow>
        c_evalsha C (hexdigest (sha1 CAS_SCRIPT)) 1 [PBytes key, PStr version, PBytes x, PStr (show_int px)] s = (a, s') \<Longrightarrow>
        good s' \<and> (\<forall>n. a = Inr n \<longrightarrow> (\<exists>v. n = PInt (fst (cas_script key version x px v)) \<and> store s' = snd (cas_script key version x px v)))"
begin

text \<open>What an execution of the script that answered goes back to.\<close>

lemma cas_call:
  assumes "good s" "utf8_ok version" "0 < px" "length (show_nat (nat px)) \<le> max_str_digits"
    "atomic_compare_and_set C key version x px s = (Inr result, s')" "swapped result"
  obtains s1 v where "c_evalsha C (hexdigest (sha1 CAS_SCRIPT)) 1 [PBytes key, PStr version, PBytes x, PStr (show_int px)] s1 = (Inr (PInt 1), s')"
    "fst (cas_script key version x px v) = 1" "store s' = snd (cas_script key version x px v)"
proof -
  let ?call = "c_evalsha C (hexdigest (sha1 CAS_SCRIPT)) 1 [PBytes key, PStr version, PBytes x, PStr (show_int px)]"
  have sha: "removeprefix ''sha1:'' CAS_SCRIPT_DIGEST = hexdigest (sha1 CAS_SCRIPT)"
    by (simp add: CAS_SCRIPT_DIGEST_def sha1_hex_def removeprefix_def)
  obtain a b where a: "eval_script C CAS_SCRIPT CAS_SCRIPT_DIGEST 1 [PBytes key, PStr version, PBytes x, PStr (show_int px)] s = (Inr a, s')"
    and b: "(case a of PBytes b \<Rightarrow> bindE (py_int10 b) (\<lambda>i. Inr (PInt i)) | _ \<Rightarrow> Inr a) = Inr b" "result = cas_outcome b"
    using assms(5) unfolding atomic_compare_and_set_def run_simps by blast
  have "\<exists>s1. good s1 \<and> ?call s1 = (Inr a, s')"
  proof (cases "?call s")
    case (Pair r s2)
    note kept = cas_atomic [OF assms(1-4) Pair, THEN conjunct1]
    show ?thesis
    proof (cases r)
      case (Inr n)
      with a Pair assms(1) show ?thesis by (auto simp: eval_script_def sha Let_def catchM_def)
    next
      case (Inl e)
      with a Pair have "thenM (reload_script C CAS_SCRIPT (hexdigest (sha1 CAS_SCRIPT))) ?call s2 = (Inr a, s')"
        by (auto simp: eval_script_def sha Let_def catchM_def split: if_splits)
      then obtain l s3 where l: "c_script_load C CAS_SCRIPT s2 = (Inr l, s3)" "?call s3 = (Inr a, s')"
        unfolding reload_script_def run_simps by blast
      with load_keeps [OF kept l(1)] show ?thesis by blast
    qed
  qed
  then obtain s1 where s1: "good s1" "?call s1 = (Inr a, s')" by blast
  from cas_atomic [OF s1(1) assms(2-4) s1(2)] obtain v where
    v: "a = PInt (fst (cas_script key version x px v))" "store s' = snd (cas_script key version x px v)" by blast
  with b assms(6) have "fst (cas_script key version x px v) = 1" by (auto simp: cas_outcome_def split: if_splits)
  with s1(2) v that show ?thesis by simp
qed

end

text \<open>The codec's methods against their pure forms, on a run that returned.\<close>

lemma codec_decode_run:
  assumes "codec_decode L H c raw schema stale s = (Inr d, s')"
  obtains now where "decode_at L c raw schema stale now = Inr d" "h_clock_ms H s = (Inr now, s')"
proof -
  from assms obtain version header payload where d: "decode_checks L c raw schema = Inr (version, header, payload)"
    by (auto simp: codec_decode_def run_simps)
  with assms that show ?thesis by (auto simp: codec_decode_def run_simps decode_at_def)
qed

lemma codec_encode_run:
  assumes "codec_encode L H c x ser schema t source s = (Inr raw, s')"
  obtains created where "encode_at L c x ser schema t source (PInt created) = Inr raw" "h_clock_ms H s = (Inr created, s')"
  using assms that by (auto simp: codec_encode_def run_simps encode_at_def)

lemma cas_script_swapped:
  assumes "fst (cas_script key version x px v) = 1"
  obtains found where "v_get v key = Some found" "take 6 found = MAGIC" "py_slice 6 77 found = version"
    "snd (cas_script key version x px v) = v_put key x px v"
  using assms by (auto simp: cas_script_def lua_sub_def py_slice_def MAGIC_def split: option.splits if_splits)

lemma ext_Inr: "ext m w = (Inr x, w') \<longleftrightarrow> (\<exists>s. m (w_ext w) = (Inr x, s) \<and> w' = w\<lparr>w_ext := s\<rparr>)"
  by (auto simp: ext_def split: prod.splits)

text \<open>The run of a compare-and-set that swapped, one command after the other.\<close>

lemma compare_and_set_run:
  assumes "physical_key L vc context ref k PNone = Inr (key, policy)"
    "compare_and_set L vc context ref k expected x req w = (Inr (result, out), w')" "swapped result"
  obtains n s1 raw current s2 ttl_ms envelope s3 s4 where "c_get (vc_client vc) key (w_ext w) = (Inr n, s1)" "bytes_of n = Some raw"
    "codec_decode L (vc_host vc) (vc_codec vc) raw (PStr (rp_schema_fingerprint policy)) (rp_maximum_staleness_ms policy) s1 = (Inr current, s2)"
    "version_matches expected current" "effective_ttl_ms (vc_settings vc) policy req False = Inr ttl_ms"
    "codec_encode L (vc_host vc) (vc_codec vc) x (rp_serializer_id policy) (PStr (rp_schema_fingerprint policy)) (PInt ttl_ms)
       (de_source_version current) s2 = (Inr envelope, s3)"
    "atomic_compare_and_set (vc_client vc) key (de_envelope_version current) envelope ttl_ms s3 = (Inr result, s4)"
proof -
  obtain n w1 where get: "ext (c_get (vc_client vc) key) w = (Inr n, w1)"
    and rest: "(if n = PNone then returnM (CompareAndSetResult False True False, None)
     else (case bytes_of n of
       None \<Rightarrow> thenM (discard_corrupt vc key ref ''unexpected-engine-type'') (returnM (CompareAndSetResult False False True, None))
     | Some b \<Rightarrow>
         tryM (decode_for L vc policy b) is_miss_error
           (\<lambda>_. thenM (discard_corrupt vc key ref ''envelope-validation'') (returnM (CompareAndSetResult False False True, None)))
           (\<lambda>current.
              if \<not> version_matches expected current
              then thenM (metric ''cas_conflict'') (returnM (CompareAndSetResult False False False, Some current))
              else
                bindM (liftM (effective_ttl_ms (vc_settings vc) policy req False)) (\<lambda>ttl_ms.
                bindM (encode_for L vc policy x ttl_ms (de_source_version current)) (\<lambda>envelope.
                bindM (ext (atomic_compare_and_set (vc_client vc) key (de_envelope_version current) envelope ttl_ms)) (\<lambda>result.
                thenM (metric (if swapped result then ''cas_swapped'' else ''cas_conflict''))
                (bindM (if swapped result then decode_for L vc policy envelope else returnM current) (\<lambda>decoded.
                returnM (result, Some decoded))))))))) w1 = (Inr (result, out), w')"
    using assms(1,2) by (auto simp: compare_and_set_def run_simps)
  have "n \<noteq> PNone" using rest assms(3) by (auto simp: run_simps)
  moreover obtain raw where raw: "bytes_of n = Some raw" using rest assms(3) calculation by (cases "bytes_of n") (auto simp: run_simps)
  ultimately obtain q w2 where dec: "decode_for L vc policy raw w1 = (q, w2)" by (cases "decode_for L vc policy raw w1")
  obtain current where q: "q = Inr current"
    using rest assms(3) \<open>n \<noteq> PNone\<close> raw dec by (cases q) (auto simp: tryM_def run_simps split: if_splits)
  have "version_matches expected current"
    using rest assms(3) \<open>n \<noteq> PNone\<close> raw dec q by (auto simp: tryM_def run_simps split: if_splits)
  with rest \<open>n \<noteq> PNone\<close> raw dec q obtain ttl_ms envelope w3 r w4 where
    "effective_ttl_ms (vc_settings vc) policy req False = Inr ttl_ms"
    "encode_for L vc policy x ttl_ms (de_source_version current) w2 = (Inr envelope, w3)"
    "ext (atomic_compare_and_set (vc_client vc) key (de_envelope_version current) envelope ttl_ms) w3 = (Inr r, w4)" "r = result"
    by (auto simp: tryM_def run_simps)
  with get raw dec q \<open>version_matches expected current\<close> that show ?thesis
    by (auto simp: ext_Inr decode_for_def encode_for_def)
qed

context atomic_engine
begin

lemma compare_and_set_atomic:
  assumes "vc_client vc = C" "vc_host vc = H" "wf_settings (vc_settings vc)" "physical_key L vc context ref k PNone = Inr (key, policy)"
    "good (w_ext w)" "compare_and_set L vc context ref k expected x req w = (Inr (result, out), w')" "swapped result"
  obtains n s1 raw now current ttl_ms created envelope s3 s4 v found where
    "c_get C key (w_ext w) = (Inr n, s1)" "bytes_of n = Some raw"
    "decode_at L (vc_codec vc) raw (PStr (rp_schema_fingerprint policy)) (rp_maximum_staleness_ms policy) now = Inr current"
    "version_matches expected current" "effective_ttl_ms (vc_settings vc) policy req False = Inr ttl_ms"
    "encode_at L (vc_codec vc) x (rp_serializer_id policy) (PStr (rp_schema_fingerprint policy)) (PInt ttl_ms)
       (de_source_version current) (PInt created) = Inr envelope"
    "c_evalsha C (hexdigest (sha1 CAS_SCRIPT)) 1
       [PBytes key, PStr (de_envelope_version current), PBytes envelope, PStr (show_int ttl_ms)] s3 = (Inr (PInt 1), s4)"
    "store s4 = v_put key envelope ttl_ms v" "v_get v key = Some found" "take 6 found = MAGIC"
    "py_slice 6 77 found = de_envelope_version current"
proof -
  obtain n s1 raw current s2 ttl_ms envelope s3 s4 where run: "c_get C key (w_ext w) = (Inr n, s1)" "bytes_of n = Some raw"
    "codec_decode L H (vc_codec vc) raw (PStr (rp_schema_fingerprint policy)) (rp_maximum_staleness_ms policy) s1 = (Inr current, s2)"
    "version_matches expected current" "effective_ttl_ms (vc_settings vc) policy req False = Inr ttl_ms"
    "codec_encode L H (vc_codec vc) x (rp_serializer_id policy) (PStr (rp_schema_fingerprint policy)) (PInt ttl_ms)
       (de_source_version current) s2 = (Inr envelope, s3)"
    "atomic_compare_and_set C key (de_envelope_version current) envelope ttl_ms s3 = (Inr result, s4)"
    by (rule compare_and_set_run [OF assms(4,6,7)]) (simp add: assms(1,2))
  obtain now where now: "decode_at L (vc_codec vc) raw (PStr (rp_schema_fingerprint policy)) (rp_maximum_staleness_ms policy) now = Inr current"
    "h_clock_ms H s1 = (Inr now, s2)" by (rule codec_decode_run [OF run(3)])
  obtain created where created: "encode_at L (vc_codec vc) x (rp_serializer_id policy) (PStr (rp_schema_fingerprint policy)) (PInt ttl_ms)
       (de_source_version current) (PInt created) = Inr envelope" "h_clock_ms H s2 = (Inr created, s3)"
    by (rule codec_encode_run [OF run(6)])
  have good: "good s3" using get_keeps [OF assms(5) run(1)] clock_keeps now(2) created(2) by blast
  note ttl = effective_ttl_range [OF assms(3) run(5)]
  obtain s5 v where v: "c_evalsha C (hexdigest (sha1 CAS_SCRIPT)) 1
       [PBytes key, PStr (de_envelope_version current), PBytes envelope, PStr (show_int ttl_ms)] s5 = (Inr (PInt 1), s4)"
    "fst (cas_script key (de_envelope_version current) envelope ttl_ms v) = 1"
    "store s4 = snd (cas_script key (de_envelope_version current) envelope ttl_ms v)"
    by (rule cas_call [OF good version_ascii [OF now(1)] _ _ run(7) assms(7)]) (use ttl show_ttl_digits in auto)
  obtain found where "v_get v key = Some found" "take 6 found = MAGIC" "py_slice 6 77 found = de_envelope_version current"
    "snd (cas_script key (de_envelope_version current) envelope ttl_ms v) = v_put key envelope ttl_ms v"
    by (rule cas_script_swapped [OF v(2)])
  with run(1,2,4,5) now(1) created(1) v that show ?thesis by metis
qed

end

text \<open>An engine that meets the contract is atomic, and it stays so when others act before each of its commands.\<close>

type_synonym 's busy = "'s \<times> ('s \<Rightarrow> 's) list"

definition after_others :: "('s, 'a) py \<Rightarrow> ('s busy, 'a) py" where
  "after_others m = (\<lambda>(s, fs). case fs of
     [] \<Rightarrow> (case m s of (r, s') \<Rightarrow> (r, (s', [])))
   | f # fs \<Rightarrow> (case m (f s) of (r, s') \<Rightarrow> (r, (s', fs))))"

definition busy_client :: "'s client \<Rightarrow> 's busy client" where
  "busy_client C = \<lparr>c_ping = after_others (c_ping C), c_info = (\<lambda>x. after_others (c_info C x)),
     c_config_get = (\<lambda>x. after_others (c_config_get C x)), c_execute_command = (\<lambda>x. after_others (c_execute_command C x)),
     c_script_load = (\<lambda>x. after_others (c_script_load C x)), c_script_exists = (\<lambda>x. after_others (c_script_exists C x)),
     c_evalsha = (\<lambda>x n y. after_others (c_evalsha C x n y)), c_get = (\<lambda>x. after_others (c_get C x)),
     c_mget = (\<lambda>x. after_others (c_mget C x)), c_set = (\<lambda>x y b n. after_others (c_set C x y b n)),
     c_delete = (\<lambda>x. after_others (c_delete C x)), c_close = after_others (c_close C), c_pipeline = after_others (c_pipeline C),
     p_watch = (\<lambda>p x. after_others (p_watch C p x)), p_get = (\<lambda>p x. after_others (p_get C p x)),
     p_multi = (\<lambda>p. after_others (p_multi C p)), p_set = (\<lambda>p x y n. after_others (p_set C p x y n)),
     p_execute = (\<lambda>p. after_others (p_execute C p)), p_reset = (\<lambda>p. after_others (p_reset C p))\<rparr>"

definition busy_host :: "'s host \<Rightarrow> 's busy host" where
  "busy_host H = \<lparr>h_clock_ms = after_others (h_clock_ms H), h_token_bytes = after_others (h_token_bytes H),
     h_emit = (\<lambda>n as. after_others (h_emit H n as)), h_sleep = (\<lambda>t. after_others (h_sleep H t)),
     h_monotonic = after_others (h_monotonic H)\<rparr>"

definition busy_good :: "('s \<Rightarrow> bool) \<Rightarrow> 's busy \<Rightarrow> bool" where
  "busy_good good = (\<lambda>(s, fs). good s \<and> (\<forall>f \<in> set fs. \<forall>s. good s \<longrightarrow> good (f s)))"

lemma busy_simps [simp]:
  "c_get (busy_client C) key = after_others (c_get C key)" "c_script_load (busy_client C) x = after_others (c_script_load C x)"
  "c_evalsha (busy_client C) sha n args = after_others (c_evalsha C sha n args)" "h_clock_ms (busy_host H) = after_others (h_clock_ms H)"
  by (simp_all add: busy_client_def busy_host_def)

lemma after_others_run:
  assumes "busy_good good a" "after_others m a = (r, a')"
  obtains s s' where "good s" "m s = (r, s')" "fst a' = s'" "good s' \<longrightarrow> busy_good good a'"
  using assms that by (cases a) (auto simp: after_others_def busy_good_def split: list.splits prod.splits)

context engine_contract
begin

lemma cas_answers:
  assumes "good s" "utf8_ok version" "0 < px" "length (show_nat (nat px)) \<le> max_str_digits"
    "c_evalsha C (hexdigest (sha1 CAS_SCRIPT)) 1 [PBytes key, PStr version, PBytes x, PStr (show_int px)] s = (a, s')"
  shows "good s' \<and> (\<forall>n. a = Inr n \<longrightarrow> (\<exists>v. n = PInt (fst (cas_script key version x px v)) \<and> store s' = snd (cas_script key version x px v)))"
proof (cases "hexdigest (sha1 CAS_SCRIPT) \<in> loaded s")
  case True
  with cas_law [OF assms(1) True assms(2-4), of key x] assms(5) show ?thesis by auto
next
  case False
  with script_unknown [OF assms(1) False, of 1 "[PBytes key, PStr version, PBytes x, PStr (show_int px)]"] assms(5) show ?thesis by auto
qed

lemma keeps_good:
  "good s \<Longrightarrow> c_get C key s = (r, s') \<Longrightarrow> good s'" "good s \<Longrightarrow> h_clock_ms H s = (t, s') \<Longrightarrow> good s'"
  "good s \<Longrightarrow> c_script_load C script s = (l, s') \<Longrightarrow> good s'"
  using get_law [of s key] clock_law [of s] script_load [of s script] by auto

lemma busy_keeps:
  assumes "busy_good good a" "after_others m a = (r, a')" "\<And>s s'. good s \<Longrightarrow> m s = (r, s') \<Longrightarrow> good s'"
  shows "busy_good good a'"
proof -
  obtain s s' where "good s" "m s = (r, s')" "fst a' = s'" "good s' \<longrightarrow> busy_good good a'" by (rule after_others_run [OF assms(1,2)])
  with assms(3) show ?thesis by blast
qed

lemma busy_atomic: "atomic_engine (busy_client C) (busy_host H) (busy_good good) (\<lambda>a. store (fst a))"
proof
  fix a version px key x r a'
  assume pre: "busy_good good a" "utf8_ok version" "0 < px" "length (show_nat (nat px)) \<le> max_str_digits"
    and run: "c_evalsha (busy_client C) (hexdigest (sha1 CAS_SCRIPT)) 1 [PBytes key, PStr version, PBytes x, PStr (show_int px)] a = (r, a')"
  obtain s s' where s: "good s" "c_evalsha C (hexdigest (sha1 CAS_SCRIPT)) 1 [PBytes key, PStr version, PBytes x, PStr (show_int px)] s = (r, s')"
    "fst a' = s'" "good s' \<longrightarrow> busy_good good a'" by (rule after_others_run [OF pre(1) run [unfolded busy_simps]])
  from cas_answers [OF s(1) pre(2-4) s(2)] s(3,4)
  show "busy_good good a' \<and> (\<forall>n. r = Inr n \<longrightarrow> (\<exists>v. n = PInt (fst (cas_script key version x px v)) \<and>
      store (fst a') = snd (cas_script key version x px v)))" by simp
qed (simp_all only: busy_simps, (erule (1) busy_keeps, erule (1) keeps_good)+)

end

sublocale engine_contract \<subseteq> atomic_engine
  by unfold_locales (auto dest: keeps_good cas_answers)

interpretation busy_fake: atomic_engine "busy_client fake_client" "busy_host (fake_host step)" "busy_good fake_good" "\<lambda>a. fake_view (fst a)" for step
  by (rule fake.busy_atomic)

text \<open>
  C8: compare-and-set loses no update. Whatever other writers do to the engine between the commands of
  the adapter: a compare-and-set that reports a swap read an entry that decodes and has the
  expected version, and its write replaced, in the one step of the script, an entry with the version
  of the entry it had read; if that entry decodes at all, it is the entry that was read, unless
  SHA-256 collides. What is written is the encoding of the new value with the source version of the
  old entry.
\<close>

theorem compare_and_set_loses_no_update:
  assumes "atomic_engine (vc_client vc) (vc_host vc) good store" "lawful_json L" "wf_settings (vc_settings vc)"
    "physical_key L vc context ref k PNone = Inr (key, policy)" "good (w_ext w)"
    "compare_and_set L vc context ref k expected x req w = (Inr (result, out), w')" "swapped result"
  shows "\<exists>n s1 raw now current ttl_ms created envelope s3 s4 v found. let schema = PStr (rp_schema_fingerprint policy) in
    c_get (vc_client vc) key (w_ext w) = (Inr n, s1) \<and> bytes_of n = Some raw \<and>
    decode_at L (vc_codec vc) raw schema (rp_maximum_staleness_ms policy) now = Inr current \<and> version_matches expected current \<and>
    encode_at L (vc_codec vc) x (rp_serializer_id policy) schema (PInt ttl_ms) (de_source_version current) (PInt created) = Inr envelope \<and>
    c_evalsha (vc_client vc) (hexdigest (sha1 CAS_SCRIPT)) 1
      [PBytes key, PStr (de_envelope_version current), PBytes envelope, PStr (show_int ttl_ms)] s3 = (Inr (PInt 1), s4) \<and>
    store s4 = v_put key envelope ttl_ms v \<and> v_get v key = Some found \<and> py_slice 6 77 found = de_envelope_version current \<and>
    (\<forall>stale now' d. decode_at L (vc_codec vc) found schema stale now' = Inr d \<longrightarrow>
      d = current \<or> sha256_collision (signed_bytes L found) (signed_bytes L raw))"
proof -
  obtain n s1 raw now current ttl_ms created envelope s3 s4 v found where
    run: "c_get (vc_client vc) key (w_ext w) = (Inr n, s1)" "bytes_of n = Some raw"
    "decode_at L (vc_codec vc) raw (PStr (rp_schema_fingerprint policy)) (rp_maximum_staleness_ms policy) now = Inr current"
    "version_matches expected current" "effective_ttl_ms (vc_settings vc) policy req False = Inr ttl_ms"
    "encode_at L (vc_codec vc) x (rp_serializer_id policy) (PStr (rp_schema_fingerprint policy)) (PInt ttl_ms)
       (de_source_version current) (PInt created) = Inr envelope"
    "c_evalsha (vc_client vc) (hexdigest (sha1 CAS_SCRIPT)) 1
       [PBytes key, PStr (de_envelope_version current), PBytes envelope, PStr (show_int ttl_ms)] s3 = (Inr (PInt 1), s4)"
    "store s4 = v_put key envelope ttl_ms v" "v_get v key = Some found" "take 6 found = MAGIC"
    "py_slice 6 77 found = de_envelope_version current"
    by (rule atomic_engine.compare_and_set_atomic [OF assms(1) refl refl assms(3-7)])
  have "d = current \<or> sha256_collision (signed_bytes L found) (signed_bytes L raw)"
    if "decode_at L (vc_codec vc) found (PStr (rp_schema_fingerprint policy)) stale now' = Inr d" for stale now' d
  proof (rule same_version_same_envelope [OF assms(2) that run(3)])
    have "de_envelope_version d = py_slice 6 77 found" using decode_at_facts [OF that] by (elim conjE)
    with run(11) show "de_envelope_version d = de_envelope_version current" by (rule trans [rotated])
  qed
  then have binds: "\<forall>stale now' d. decode_at L (vc_codec vc) found (PStr (rp_schema_fingerprint policy)) stale now' = Inr d \<longrightarrow>
      d = current \<or> sha256_collision (signed_bytes L found) (signed_bytes L raw)" by blast
  show ?thesis unfolding Let_def by (intro exI conjI) (rule run binds)+
qed

subsection \<open>Examples\<close>

theorem compare_and_set_loses_no_update_witness:
  "\<exists>w version d2 w2. compare_and_set ref_lib sample_cache sample_context sample_ref (PStr ''u1'') (PStr version) (PStr ''hello'') PNone w =
      (Inr (CompareAndSetResult True False False, Some d2), w2) \<and>
    (\<exists>s3 envelope s4. c_evalsha fake_client (hexdigest (sha1 CAS_SCRIPT)) 1 envelope s3 = (Inr (PInt 1), s4))"
proof -
  obtain key d w1 d2 w2 where k: "physical_key ref_lib sample_cache sample_context sample_ref (PStr ''u1'') PNone = Inr (key, sample_policy)"
    and put: "put ref_lib sample_cache sample_context sample_ref (PStr ''u1'') (PStr ''hello'') PNone PNone sample_world = (Inr d, w1)"
      "fake_good (w_ext w1)" and cell: "cell_of ref_lib sample_cache sample_policy key (fake_view (w_ext w1)) = Entry d"
    and w2: "compare_and_set ref_lib sample_cache sample_context sample_ref (PStr ''u1'') (PStr (de_envelope_version d)) (PStr ''hello'') PNone w1 =
      (Inr (CompareAndSetResult True False False, Some d2), w2)" by (rule sample_cas)
  have wf: "wf_settings (vc_settings sample_cache)" by (simp add: wf_sample_settings)
  have atomic: "atomic_engine (vc_client sample_cache) (vc_host sample_cache) fake_good fake_view"
    using fake.atomic_engine_axioms by simp
  from compare_and_set_loses_no_update [OF atomic lawful_ref_lib wf k put(2) w2] obtain args s3 s4 where
    "c_evalsha fake_client (hexdigest (sha1 CAS_SCRIPT)) 1 args s3 = (Inr (PInt 1), s4)" by (auto simp: Let_def)
  with w2 show ?thesis by blast
qed

theorem single_flight_exclusive_witness:
  "\<exists>a. lease_reachable fake_client fake_good fake_view ''lease'' a \<and> live_holder fake_view a 0 \<and>
    (\<forall>q. live_holder fake_view a q \<longrightarrow> q = 0) \<and> (\<exists>s'. acquire_lease fake_client ''lease'' ''token'' 1000 (ls_engine a) = (Inr False, s'))"
proof -
  have good: "fake_good FakeValkey" and none: "v_get (fake_view FakeValkey) ''lease'' = None"
    by (simp_all add: fake_good_def FakeValkey_def fake_view_def v_get_def)
  obtain s1 where s1: "acquire_lease fake_client ''lease'' ''mine'' 1000 FakeValkey = (Inr True, s1)"
    "fake_view s1 = v_put ''lease'' ''mine'' 1000 (fake_view FakeValkey)"
    by (rule fake.acquire_run [OF good, of 1000 "''lease''" "''mine''"]) (use none in auto)
  let ?a = "\<lparr>ls_engine = FakeValkey, ls_held = Map.empty\<rparr>"
  have "lease_step fake_client fake_good fake_view ''lease'' ?a
      (?a\<lparr>ls_engine := s1, ls_held := (ls_held ?a)(0 \<mapsto> (''mine'', v_now (fake_view (ls_engine ?a)) + 1000))\<rparr>)"
    by (rule step_acquired) (use s1(1) in \<open>simp_all add: fresh_token_def\<close>)
  note reach = lease_next [OF lease_start [of fake_good, OF good] this]
  have live: "live_holder fake_view (?a\<lparr>ls_engine := s1, ls_held := (ls_held ?a)(0 \<mapsto> (''mine'', v_now (fake_view (ls_engine ?a)) + 1000))\<rparr>) 0"
    using arg_cong [OF s1(2), of v_now] by (simp add: live_holder_def)
  from single_flight_exclusive [OF fake.engine_contract_axioms reach live, of 1000 "''token''"] reach live show ?thesis by auto
qed

end
