(* ===== verification/Vk_Increment.thy ===== *)
theory Vk_Increment
  imports Vk_Sharing
begin

section \<open>The optimistic increment\<close>

text \<open>
  What \<^verbatim>\<open>AtomicPrimitives.increment\<close> guarantees: on any engine, how often it tries, and that one that
  returns has read a number under its key and set the sum of it and the amount under that key in an
  executed transaction; on the engine of the test suite, that the sum is stored.
\<close>

subsection \<open>Contention\<close>

text \<open>\<open>n\<close> attempts in a row found the watched key changed.\<close>

fun conflicts :: "('s, 'a option) py \<Rightarrow> nat \<Rightarrow> 's \<Rightarrow> 's \<Rightarrow> bool" where
  "conflicts attempt 0 s s' = (s' = s)"
| "conflicts attempt (Suc n) s s' = (case attempt s of (Inr None, s1) \<Rightarrow> conflicts attempt n s1 s' | _ \<Rightarrow> False)"

lemma increment_loop_runs:
  "increment_loop attempt n s = (r, s') \<longleftrightarrow>
     (\<exists>k<n. \<exists>s1. conflicts attempt k s s1 \<and> (case r of Inl e \<Rightarrow> attempt s1 = (Inl e, s') | Inr d \<Rightarrow> attempt s1 = (Inr (Some d), s'))) \<or>
     conflicts attempt n s s' \<and> r = Inl (watch_error ''numeric increment contention exceeded its retry bound'')"
proof (induction n arbitrary: s)
  case 0
  then show ?case by (auto simp: raiseM_def)
next
  case (Suc n)
  obtain a s1 where a: "attempt s = (a, s1)" by (cases "attempt s")
  consider (fails) e where "a = Inl e" | (returns) d where "a = Inr (Some d)" | (again) "a = Inr None"
    by (cases a) auto
  then show ?case
  proof cases
    case again
    with a Suc.IH [of s1] show ?thesis by (cases r) (simp_all add: bindM_def Ex_less_Suc2)
  next
    case fails
    with a show ?thesis by (auto simp: bindM_def Ex_less_Suc2 split: sum.splits)
  next
    case returns
    with a show ?thesis by (auto simp: bindM_def returnM_def Ex_less_Suc2 split: sum.splits)
  qed
qed


text \<open>
  An increment retries exactly while it loses races. It returns or raises what its first attempt
  that is not a lost race returns or raises, if that is among the first \<open>retries\<close> attempts;
  otherwise, after \<open>retries\<close> lost races, it raises \<^verbatim>\<open>WatchError\<close>. So it always ends, and an amount that is not a
  finite number is refused before the first attempt.
\<close>

theorem increment_retry_bound:
  "increment L C H c key amount schema ttl_ms stale retries s = (r, s') \<longleftrightarrow>
    (let attempt = increment_attempt L C H c key amount schema ttl_ms stale in
     case increment_amount amount of
       Inl e \<Rightarrow> r = Inl e \<and> s' = s
     | Inr _ \<Rightarrow>
         (\<exists>k<nat retries. \<exists>s1. conflicts attempt k s s1 \<and>
            (case r of Inl e \<Rightarrow> attempt s1 = (Inl e, s') | Inr d \<Rightarrow> attempt s1 = (Inr (Some d), s'))) \<or>
         conflicts attempt (nat retries) s s' \<and> r = Inl (watch_error ''numeric increment contention exceeded its retry bound''))"
  by (cases "increment_amount amount")
    (auto simp: increment_def thenM_def bindM_def liftM_def Let_def increment_loop_runs)

subsection \<open>The transaction of an increment\<close>

text \<open>
  \<open>increment_transaction\<close> is a successful attempt as the engine sees it, from \<open>s\<close> to \<open>s'\<close>: on one new pipeline
  the key is watched and then read, the clock is read for decoding and encoding, the envelope is set under the same key inside
  the transaction, and the transaction is executed before the envelope is decoded and returned.
\<close>

definition increment_transaction ::
    "lib \<Rightarrow> 's client \<Rightarrow> 's host \<Rightarrow> envelope_codec \<Rightarrow> bytes \<Rightarrow> pyval \<Rightarrow> int \<Rightarrow> int option
      \<Rightarrow> bytes \<Rightarrow> decoded_envelope \<Rightarrow> pyval \<Rightarrow> bytes \<Rightarrow> decoded_envelope \<Rightarrow> 's \<Rightarrow> 's \<Rightarrow> bool" where
  "increment_transaction L C H c key schema ttl_ms stale raw old v envelope d s s' \<longleftrightarrow>
     (\<exists>p n s1 s2 s3 s4 s5 s6 s7 s8 s9.
        c_pipeline C s = (Inr p, s1) \<and> p_watch C p key s1 = (Inr (), s2) \<and>
        p_get C p key s2 = (Inr n, s3) \<and> bytes_of n = Some raw \<and>
        codec_decode L H c raw schema stale s3 = (Inr old, s4) \<and>
        codec_encode L H c v SERIALIZER_CANONICAL_JSON schema (PInt ttl_ms) (de_source_version old) s4 = (Inr envelope, s5) \<and>
        p_multi C p s5 = (Inr (), s6) \<and> p_set C p key envelope ttl_ms s6 = (Inr (), s7) \<and>
        p_execute C p s7 = (Inr (), s8) \<and>
        codec_decode L H c envelope schema stale s8 = (Inr d, s9) \<and> p_reset C p s9 = (Inr (), s'))"

lemma increment_body_run:
  assumes "increment_body L C H c key amount schema ttl_ms stale p s1 = (Inr d, s9)"
    "c_pipeline C s = (Inr p, s1)" "p_reset C p s9 = (Inr (), s')"
  obtains raw old v envelope where "increment_value old amount = Inr v"
    "increment_transaction L C H c key schema ttl_ms stale raw old v envelope d s s'"
proof -
  from assms(1) obtain n s2 s3 old s4 v where run: "p_watch C p key s1 = (Inr (), s2)" "p_get C p key s2 = (Inr n, s3)"
    and dec: "(case bytes_of n of None \<Rightarrow> raiseM (ValueError ''numeric increment requires an existing envelope'')
        | Some raw \<Rightarrow> codec_decode L H c raw schema stale) s3 = (Inr old, s4)"
    and v: "increment_value old amount = Inr v"
    and rest: "\<exists>envelope s5 s6 s7 s8. codec_encode L H c v SERIALIZER_CANONICAL_JSON schema (PInt ttl_ms) (de_source_version old) s4 = (Inr envelope, s5) \<and>
        p_multi C p s5 = (Inr (), s6) \<and> p_set C p key envelope ttl_ms s6 = (Inr (), s7) \<and>
        p_execute C p s7 = (Inr (), s8) \<and> codec_decode L H c envelope schema stale s8 = (Inr d, s9)"
    unfolding increment_body_def run_simps by auto
  from dec obtain raw where "bytes_of n = Some raw" "codec_decode L H c raw schema stale s3 = (Inr old, s4)"
    by (cases "bytes_of n") (simp_all add: raiseM_def)
  with run rest assms(2,3) that [OF v] show ?thesis unfolding increment_transaction_def by blast
qed

lemma increment_run:
  assumes "increment L C H c key amount schema ttl_ms stale retries s = (Inr d, s')"
  obtains k s0 raw old v envelope where "k < nat retries"
    "conflicts (increment_attempt L C H c key amount schema ttl_ms stale) k s s0" "increment_value old amount = Inr v"
    "increment_transaction L C H c key schema ttl_ms stale raw old v envelope d s0 s'"
proof -
  from assms obtain k s0 where k: "k < nat retries" "conflicts (increment_attempt L C H c key amount schema ttl_ms stale) k s s0"
    and attempt: "increment_attempt L C H c key amount schema ttl_ms stale s0 = (Inr (Some d), s')"
    by (auto simp: increment_def run_simps increment_loop_runs)
  from attempt obtain p s1 where p: "c_pipeline C s0 = (Inr p, s1)" and "finallyM
       (catchM (bindM (increment_body L C H c key amount schema ttl_ms stale p) (\<lambda>d. returnM (Some d)))
         (\<lambda>e. has_vclass e VWatchError) (\<lambda>_. returnM None)) (p_reset C p) s1 = (Inr (Some d), s')"
    unfolding increment_attempt_def run_simps by blast
  then obtain s9 where "increment_body L C H c key amount schema ttl_ms stale p s1 = (Inr d, s9)" "p_reset C p s9 = (Inr (), s')"
    by (auto simp: finallyM_def catchM_def bindM_def split: prod.splits sum.splits if_splits)
  then obtain raw old v envelope where "increment_value old amount = Inr v"
    "increment_transaction L C H c key schema ttl_ms stale raw old v envelope d s0 s'"
    using p by (auto elim: increment_body_run)
  with that k show ?thesis by blast
qed

text \<open>
  C30: whatever the engine does, an increment that returns has stored the sum. After at most
  \<open>retries - 1\<close> lost races there is one transaction on the engine, and it is the last thing that happens: the given
  key was watched and read, what was read is an envelope of the given schema that was valid then
  and whose value is a canonical JSON number, the envelope of the sum of that number and the
  amount was set under the same key with the requested lifetime, the transaction was executed without a conflict, and
  the increment returns that envelope, with the source version of the one read and the requested TTL.
\<close>

theorem increment_adds:
  assumes "lawful_json L" "is_fingerprint schema" "case stale of None \<Rightarrow> True | Some m \<Rightarrow> 0 < m"
    "increment L C H c key amount (PStr schema) ttl_ms stale retries s = (Inr d, s')"
  shows "\<exists>k s0 raw now old v envelope. k < nat retries \<and>
    conflicts (increment_attempt L C H c key amount (PStr schema) ttl_ms stale) k s s0 \<and>
    increment_transaction L C H c key (PStr schema) ttl_ms stale raw old v envelope d s0 s' \<and>
    decode_at L c raw (PStr schema) stale now = Inr old \<and> de_serializer_id old = SERIALIZER_CANONICAL_JSON \<and>
    is_int_or_float (de_value old) \<and> py_add (de_value old) amount = Inr v \<and> \<not> not_finite v \<and>
    same_value L SERIALIZER_CANONICAL_JSON v (de_value d) \<and> de_serializer_id d = SERIALIZER_CANONICAL_JSON \<and>
    de_schema_fingerprint d = schema \<and> de_source_version d = de_source_version old \<and>
    de_expires_at_ms d = de_created_at_ms d + ttl_ms"
proof -
  from assms(4) obtain k s0 raw old v envelope where run: "k < nat retries"
    "conflicts (increment_attempt L C H c key amount (PStr schema) ttl_ms stale) k s s0"
    "increment_transaction L C H c key (PStr schema) ttl_ms stale raw old v envelope d s0 s'"
    and v: "increment_value old amount = Inr v" by (rule increment_run)
  from run(3) obtain s3 s4 s5 s8 s9 where io: "codec_decode L H c raw (PStr schema) stale s3 = (Inr old, s4)"
    "codec_encode L H c v SERIALIZER_CANONICAL_JSON (PStr schema) (PInt ttl_ms) (de_source_version old) s4 = (Inr envelope, s5)"
    "codec_decode L H c envelope (PStr schema) stale s8 = (Inr d, s9)" unfolding increment_transaction_def by blast
  obtain now where old: "decode_at L c raw (PStr schema) stale now = Inr old" using io(1) by (rule codec_decode_run)
  obtain cr where enc: "encode_at L c v SERIALIZER_CANONICAL_JSON (PStr schema) (PInt ttl_ms) (de_source_version old) (PInt cr) = Inr envelope"
    using io(2) by (rule codec_encode_run)
  obtain now' where "decode_at L c envelope (PStr schema) stale now' = Inr d" using io(3) by (rule codec_decode_run)
  with decode_at_encoded [OF assms(1) enc assms(2,3), of now']
  have "same_value L SERIALIZER_CANONICAL_JSON v (de_value d) \<and> de_serializer_id d = SERIALIZER_CANONICAL_JSON \<and>
    de_schema_fingerprint d = schema \<and> de_source_version d = de_source_version old \<and> de_expires_at_ms d = de_created_at_ms d + ttl_ms"
    by (auto split: if_splits)
  moreover have "de_serializer_id old = SERIALIZER_CANONICAL_JSON \<and> is_int_or_float (de_value old) \<and>
      py_add (de_value old) amount = Inr v \<and> \<not> not_finite v"
    using v by (auto simp: increment_value_def res_simps split: if_splits)
  ultimately show ?thesis using old run by blast
qed

subsection \<open>On the engine of the test suite\<close>

lemma fake_live_hit:
  assumes "fake_good s" "v_get (fake_view s) key = Some b"
  shows "fake_get key s = (Inr (PBytes b), s)"
proof -
  from assms(2) obtain item where item: "f_values s key = Some item" by (cases "f_values s key") (auto simp: v_get_def fake_view_def)
  with assms(1) obtain x e where "item = \<lparr>st_value = PBytes x, st_expires_at_ms = Some e\<rparr>" unfolding fake_good_def by blast
  with assms item show ?thesis
    by (auto simp: fake_get_def fake_live_def v_get_def fake_view_def live_entry_def expired_def bindM_def split: if_splits)
qed

lemma fake_codec:
  "codec_decode L (fake_host step) c raw schema stale s = (decode_at L c raw schema stale (f_now_ms s), s)"
  "codec_encode L (fake_host step) c v ser schema t source s = (encode_at L c v ser schema t source (PInt (f_now_ms s)), s)"
  by (auto simp: codec_decode_def codec_encode_def decode_at_def encode_at_def bindM_def liftM_def split: sum.split prod.split)

lemma fake_body:
  assumes "fake_good s" "v_get (fake_view s) key = Some raw" "decode_at L c raw schema stale (f_now_ms s) = Inr old"
    "increment_value old amount = Inr v"
    "encode_at L c v SERIALIZER_CANONICAL_JSON schema (PInt ttl_ms) (de_source_version old) (PInt (f_now_ms s)) = Inr envelope"
    "p < length (f_pipes s)"
  shows "increment_body L fake_client (fake_host step) c key amount schema ttl_ms stale p s =
    thenM (fake_execute p) (codec_decode L (fake_host step) c envelope schema stale)
      (s\<lparr>f_pipes := (f_pipes s)[p := \<lparr>fp_watched = Some key, fp_expected_revision = f_revisions s key,
         fp_pending = Some (key, PBytes envelope, ttl_ms)\<rparr>]\<rparr>)"
  using assms
  by (cases "f_pipes s ! p")
    (simp add: increment_body_def thenM_def bindM_def liftM_def fake_watch_def update_pipe_def fake_live_hit fake_codec fake_pipe_set_def)

lemma conflict_frame [simp]:
  "fake_good (s\<lparr>f_force_watch_conflict := b\<rparr>) = fake_good s" "fake_view (s\<lparr>f_force_watch_conflict := b\<rparr>) = fake_view s"
  by (simp_all add: fake_good_def fake_view_def)

lemma fake_attempt:
  assumes "fake_good s" "v_get (fake_view s) key = Some raw" "decode_at L c raw schema stale (f_now_ms s) = Inr old"
    "increment_value old amount = Inr v"
    "encode_at L c v SERIALIZER_CANONICAL_JSON schema (PInt ttl_ms) (de_source_version old) (PInt (f_now_ms s)) = Inr envelope"
    "decode_at L c envelope schema stale (f_now_ms s) = Inr d" "0 < ttl_ms"
  shows "\<exists>s'. increment_attempt L fake_client (fake_host step) c key amount schema ttl_ms stale s =
      (Inr (if f_force_watch_conflict s then None else Some d), s') \<and> fake_good s' \<and> f_now_ms s' = f_now_ms s \<and> \<not> f_force_watch_conflict s' \<and>
      fake_view s' = (if f_force_watch_conflict s then fake_view s else v_put key envelope ttl_ms (fake_view s))"
proof -
  let ?fp = "\<lparr>fp_watched = Some key, fp_expected_revision = f_revisions s key, fp_pending = Some (key, PBytes envelope, ttl_ms)\<rparr>"
  let ?p = "length (f_pipes s)" and ?start = "s\<lparr>f_pipes := f_pipes s @ [\<lparr>fp_watched = None, fp_expected_revision = 0, fp_pending = None\<rparr>]\<rparr>"
    and ?ready = "s\<lparr>f_pipes := f_pipes s @ [?fp]\<rparr>"
  have body: "increment_body L fake_client (fake_host step) c key amount schema ttl_ms stale ?p ?start =
      thenM (fake_execute ?p) (codec_decode L (fake_host step) c envelope schema stale) ?ready"
    using fake_body [of ?start key raw L c schema stale old amount v ttl_ms envelope ?p step] assms by simp
  show ?thesis
  proof (cases "f_force_watch_conflict s")
    case True
    then have "fake_execute ?p ?ready = (Inl (watch_error ''injected contention''), ?ready\<lparr>f_force_watch_conflict := False\<rparr>)"
      by (simp add: fake_execute_def bindM_run thenM_def)
    with body True assms(1) show ?thesis
      by (simp add: increment_attempt_def fake_pipeline_new_def bindM_run finallyM_def catchM_def thenM_def
          fake_reset_def update_pipe_def watch_error_def)
  next
    case False
    obtain s1 where s1: "fake_set key (PBytes envelope) False ttl_ms ?ready = (Inr (PBool True), s1)" "fake_good s1"
      "fake_view s1 = v_put key envelope ttl_ms (fake_view s)"
      using fake_set_spec [of ?ready ttl_ms key envelope False] assms(1,7) by auto
    have "f_now_ms s1 = f_now_ms s" "f_force_watch_conflict s1 = f_force_watch_conflict s"
      using s1(1) assms(1) by (auto simp: fake_set_def fake_store_def thenM_def bindM_def bump_def fake_check_def fake_good_def)
    moreover have "fake_execute ?p ?ready = (Inr (), s1)"
      using False s1(1) by (simp add: fake_execute_def bindM_run)
    ultimately show ?thesis using body False s1 assms(6)
      by (simp add: increment_attempt_def fake_pipeline_new_def bindM_run finallyM_def catchM_def thenM_def fake_codec
          fake_reset_def update_pipe_def)
  qed
qed

lemma increment_on_fake:
  assumes "fake_good s" "v_get (fake_view s) key = Some raw" "decode_at L c raw schema stale (f_now_ms s) = Inr old"
    "increment_amount amount = Inr ()" "increment_value old amount = Inr v"
    "encode_at L c v SERIALIZER_CANONICAL_JSON schema (PInt ttl_ms) (de_source_version old) (PInt (f_now_ms s)) = Inr envelope"
    "decode_at L c envelope schema stale (f_now_ms s) = Inr d" "0 < ttl_ms"
    "(if f_force_watch_conflict s then 2 else 1) \<le> retries"
  shows "\<exists>s'. increment L fake_client (fake_host step) c key amount schema ttl_ms stale retries s = (Inr d, s') \<and>
    fake_view s' = v_put key envelope ttl_ms (fake_view s)"
proof -
  note attempt = fake_attempt [OF _ _ _ assms(5) _ _ assms(8), where step = step]
  obtain s1 where s1: "increment_attempt L fake_client (fake_host step) c key amount schema ttl_ms stale s =
      (Inr (if f_force_watch_conflict s then None else Some d), s1)" "fake_good s1" "f_now_ms s1 = f_now_ms s" "\<not> f_force_watch_conflict s1"
      "fake_view s1 = (if f_force_watch_conflict s then fake_view s else v_put key envelope ttl_ms (fake_view s))"
    using attempt [OF assms(1-3,6,7)] by blast
  show ?thesis
  proof (cases "f_force_watch_conflict s")
    case True
    with assms(9) obtain n where n: "nat retries = Suc (Suc n)" by (cases "nat retries"; cases "nat retries - 1") auto
    obtain s2 where "increment_attempt L fake_client (fake_host step) c key amount schema ttl_ms stale s1 = (Inr (Some d), s2)"
      "fake_view s2 = v_put key envelope ttl_ms (fake_view s)"
      using attempt [of s1 key raw L c schema stale envelope d] s1 True assms(2,3,6,7) by auto
    with n s1(1) True show ?thesis by (simp add: increment_def assms(4) thenM_def bindM_def liftM_def)
  next
    case False
    with assms(9) obtain n where n: "nat retries = Suc n" by (cases "nat retries") auto
    with s1 False show ?thesis by (simp add: increment_def assms(4) thenM_def bindM_def liftM_def)
  qed
qed


text \<open>
  C31: on the engine of the test suite an increment of a valid numeric entry stores the sum. It
  returns the envelope it stored and leaves the other entries as they were; a race lost once
  costs one more attempt.
\<close>

theorem increment_stores_sum:
  assumes "fake_good s" "v_get (fake_view s) key = Some raw" "decode_at L c raw schema stale (f_now_ms s) = Inr old"
    "increment_amount amount = Inr ()" "increment_value old amount = Inr v"
    "encode_at L c v SERIALIZER_CANONICAL_JSON schema (PInt ttl_ms) (de_source_version old) (PInt (f_now_ms s)) = Inr envelope"
    "decode_at L c envelope schema stale (f_now_ms s) = Inr d" "0 < ttl_ms"
    "(if f_force_watch_conflict s then 2 else 1) \<le> retries"
  shows "\<exists>s'. increment L fake_client (fake_host step) c key amount schema ttl_ms stale retries s = (Inr d, s') \<and>
    fake_view s' = v_put key envelope ttl_ms (fake_view s)"
  using assms by (rule increment_on_fake)

subsection \<open>Examples\<close>

text \<open>A counter at 41, and an engine that fails the first transaction.\<close>

definition counter_at :: "bytes \<Rightarrow> fake" where
  "counter_at raw = FakeValkey\<lparr>f_values := [''counter'' \<mapsto> \<lparr>st_value = PBytes raw, st_expires_at_ms = Some 1700000060000\<rparr>],
     f_force_watch_conflict := True\<rparr>"

lemma norm_json_int: "norm_json w = PInt i \<longleftrightarrow> w = PInt i"
  by (cases w) auto

lemma sample_number:
  assumes "0 \<le> i" "i < 10 ^ 9"
  obtains raw d where
    "encode_at ref_lib sample_codec (PInt i) SERIALIZER_CANONICAL_JSON (PStr sample_schema) (PInt 60000) PNone (PInt 1700000000000) = Inr raw"
    "decode_at ref_lib sample_codec raw (PStr sample_schema) None 1700000000000 = Inr d"
    "de_value d = PInt i" "de_serializer_id d = SERIALIZER_CANONICAL_JSON" "de_source_version d = PNone"
proof -
  have len: "length (show_nat (nat \<bar>i\<bar>)) \<le> 20" using assms by (intro show_small) simp
  then have "printable 100 (PInt i)" "json_size (PInt i) \<le> 1000" by (simp_all add: max_str_digits_def)
  then obtain raw where raw:
    "encode_at ref_lib sample_codec (PInt i) SERIALIZER_CANONICAL_JSON (PStr sample_schema) (PInt 60000) PNone (PInt 1700000000000) = Inr raw"
    by (rule sample_encode [of _ 60000 1700000000000]) auto
  from decode_at_encoded [OF lawful_ref_lib raw sample_schema_ok, of None 1700000000000]
  obtain d where "decode_at ref_lib sample_codec raw (PStr sample_schema) None 1700000000000 = Inr d"
    "same_value ref_lib SERIALIZER_CANONICAL_JSON (PInt i) (de_value d)" "de_serializer_id d = SERIALIZER_CANONICAL_JSON"
    "de_source_version d = PNone" by auto
  with raw that show ?thesis by (auto simp: same_value_def norm_json_int)
qed

lemma counter_facts:
  obtains raw old envelope d where "fake_good (counter_at raw)" "v_get (fake_view (counter_at raw)) ''counter'' = Some raw"
    "decode_at ref_lib sample_codec raw (PStr sample_schema) None (f_now_ms (counter_at raw)) = Inr old"
    "increment_amount (PInt 1) = Inr ()" "increment_value old (PInt 1) = Inr (PInt 42)"
    "encode_at ref_lib sample_codec (PInt 42) SERIALIZER_CANONICAL_JSON (PStr sample_schema) (PInt 60000) (de_source_version old)
       (PInt (f_now_ms (counter_at raw))) = Inr envelope"
    "decode_at ref_lib sample_codec envelope (PStr sample_schema) None (f_now_ms (counter_at raw)) = Inr d" "de_value d = PInt 42"
proof -
  obtain raw old where old: "decode_at ref_lib sample_codec raw (PStr sample_schema) None 1700000000000 = Inr old"
    "de_value old = PInt 41" "de_serializer_id old = SERIALIZER_CANONICAL_JSON" "de_source_version old = PNone"
    by (rule sample_number [of 41]) auto
  obtain envelope d where new: "encode_at ref_lib sample_codec (PInt 42) SERIALIZER_CANONICAL_JSON (PStr sample_schema) (PInt 60000) PNone
      (PInt 1700000000000) = Inr envelope"
    "decode_at ref_lib sample_codec envelope (PStr sample_schema) None 1700000000000 = Inr d" "de_value d = PInt 42"
    by (rule sample_number [of 42]) auto
  have "increment_amount (PInt 1) = Inr ()" "increment_value old (PInt 1) = Inr (PInt 42)"
    using old by (simp_all add: increment_amount_def increment_value_def is_int_or_float_def)
  moreover have "fake_good (counter_at raw)" "v_get (fake_view (counter_at raw)) ''counter'' = Some raw"
    "f_now_ms (counter_at raw) = 1700000000000"
    by (simp_all add: counter_at_def FakeValkey_def fake_good_def v_get_def fake_view_def live_entry_def)
  ultimately show ?thesis using that old new by auto
qed

theorem increment_stores_sum_witness:
  "\<exists>raw d s'. increment ref_lib fake_client (fake_host 10) sample_codec ''counter'' (PInt 1) (PStr sample_schema) 60000 None 8 (counter_at raw) = (Inr d, s') \<and>
    f_force_watch_conflict (counter_at raw) \<and> de_value d = PInt 42"
proof -
  obtain raw old envelope d where c: "fake_good (counter_at raw)" "v_get (fake_view (counter_at raw)) ''counter'' = Some raw"
    "decode_at ref_lib sample_codec raw (PStr sample_schema) None (f_now_ms (counter_at raw)) = Inr old"
    "increment_amount (PInt 1) = Inr ()" "increment_value old (PInt 1) = Inr (PInt 42)"
    "encode_at ref_lib sample_codec (PInt 42) SERIALIZER_CANONICAL_JSON (PStr sample_schema) (PInt 60000) (de_source_version old)
       (PInt (f_now_ms (counter_at raw))) = Inr envelope"
    "decode_at ref_lib sample_codec envelope (PStr sample_schema) None (f_now_ms (counter_at raw)) = Inr d" "de_value d = PInt 42"
    by (rule counter_facts)
  have "f_force_watch_conflict (counter_at raw)" by (simp add: counter_at_def)
  with increment_stores_sum [OF c(1-7), of 8 10] c(8) show ?thesis by auto
qed

theorem increment_adds_witness:
  "\<exists>raw d s' k s0 found old w envelope. increment ref_lib fake_client (fake_host 10) sample_codec ''counter'' (PInt 1) (PStr sample_schema) 60000 None 8
      (counter_at raw) = (Inr d, s') \<and>
    increment_transaction ref_lib fake_client (fake_host 10) sample_codec ''counter'' (PStr sample_schema) 60000 None found old w envelope d s0 s' \<and>
    k < nat 8 \<and> same_value ref_lib SERIALIZER_CANONICAL_JSON w (de_value d) \<and> de_expires_at_ms d = de_created_at_ms d + 60000"
proof -
  obtain raw old envelope d where c: "fake_good (counter_at raw)" "v_get (fake_view (counter_at raw)) ''counter'' = Some raw"
    "decode_at ref_lib sample_codec raw (PStr sample_schema) None (f_now_ms (counter_at raw)) = Inr old"
    "increment_amount (PInt 1) = Inr ()" "increment_value old (PInt 1) = Inr (PInt 42)"
    "encode_at ref_lib sample_codec (PInt 42) SERIALIZER_CANONICAL_JSON (PStr sample_schema) (PInt 60000) (de_source_version old)
       (PInt (f_now_ms (counter_at raw))) = Inr envelope"
    "decode_at ref_lib sample_codec envelope (PStr sample_schema) None (f_now_ms (counter_at raw)) = Inr d"
    by (rule counter_facts)
  obtain s' where run: "increment ref_lib fake_client (fake_host 10) sample_codec ''counter'' (PInt 1) (PStr sample_schema) 60000 None 8 (counter_at raw) = (Inr d, s')"
    using increment_on_fake [OF c(1-7), of 8 10] by (auto simp: counter_at_def)
  have fresh: "case None of None \<Rightarrow> True | Some m \<Rightarrow> 0 < (m::int)" by simp
  from increment_adds [OF lawful_ref_lib sample_schema_ok fresh run]
  obtain k s0 found old' v where "k < nat 8" "\<exists>envelope. increment_transaction ref_lib fake_client (fake_host 10) sample_codec ''counter''
      (PStr sample_schema) 60000 None found old' v envelope d s0 s'"
    "same_value ref_lib SERIALIZER_CANONICAL_JSON v (de_value d)" "de_expires_at_ms d = de_created_at_ms d + 60000" by blast
  with run show ?thesis by blast
qed

end
