(* ===== verification/Vk_Descriptor.thy ===== *)
theory Vk_Descriptor
  imports Vk_Scripts Vk_Configuration
begin

section \<open>The capability declaration\<close>

text \<open>
  The module \<^verbatim>\<open>descriptor\<close>: the constants of the adapter, its descriptor and its capability manifest.
  \<^verbatim>\<open>OperationCapability\<close>, \<^verbatim>\<open>AdapterDescriptor\<close> and \<^verbatim>\<open>CapabilityManifest\<close> are classes of the Meridian core: a
  value is represented by the arguments of its constructor, and what the constructors of a
  manifest raise and its fingerprint are parameters (the record \<open>core\<close>).
\<close>

subsection \<open>Constants\<close>

definition ADAPTER_ID :: string where
  "ADAPTER_ID = ''org.meridian.storage.valkey''"

definition ADAPTER_CONTRACT_VERSION :: string where
  "ADAPTER_CONTRACT_VERSION = ''1.0.0''"

definition ENGINE_PROFILE_STANDALONE :: string where
  "ENGINE_PROFILE_STANDALONE = ''valkey-standalone''"

definition ENGINE_PROFILE_SENTINEL :: string where
  "ENGINE_PROFILE_SENTINEL = ''valkey-sentinel''"

definition SUPPORTED_ENGINE_VERSIONS :: "string list" where
  "SUPPORTED_ENGINE_VERSIONS = [''8.1.9'']"

definition OPERATION_VERSION :: string where
  "OPERATION_VERSION = ''1.0.0''"

definition GET_CONTRACT :: string where
  "GET_CONTRACT = ''meridian.cache.get''"

definition PUT_CONTRACT :: string where
  "PUT_CONTRACT = ''meridian.cache.put''"

definition PUT_IF_ABSENT_CONTRACT :: string where
  "PUT_IF_ABSENT_CONTRACT = ''meridian.cache.put_if_absent''"

definition COMPARE_AND_SET_CONTRACT :: string where
  "COMPARE_AND_SET_CONTRACT = ''meridian.cache.compare_and_set''"

definition DELETE_CONTRACT :: string where
  "DELETE_CONTRACT = ''meridian.cache.delete''"

definition INVALIDATE_CONTRACT :: string where
  "INVALIDATE_CONTRACT = ''meridian.cache.invalidate''"

definition DATA_PLANE_CONTRACTS :: "string list" where
  "DATA_PLANE_CONTRACTS = [COMPARE_AND_SET_CONTRACT, DELETE_CONTRACT, GET_CONTRACT, INVALIDATE_CONTRACT,
     PUT_CONTRACT, PUT_IF_ABSENT_CONTRACT]"

lemmas contract_defs = GET_CONTRACT_def PUT_CONTRACT_def PUT_IF_ABSENT_CONTRACT_def COMPARE_AND_SET_CONTRACT_def
  DELETE_CONTRACT_def INVALIDATE_CONTRACT_def

subsection \<open>Values of the core\<close>

record operation_capability =
  oc_operation_contract :: string
  oc_operation_versions :: "string list"
  oc_guarantees :: "string list"
  oc_limits :: "(string \<times> int) list"
  oc_cursor_behavior :: string
  oc_migration_behavior :: string
  oc_health_probes :: "string list"
  oc_extensions :: "(string \<times> pyval) list"

record descriptor =
  ad_adapter_id :: string
  ad_adapter_contract_version :: string
  ad_driver :: string
  ad_supported_engine_versions :: "(string \<times> string list) list"
  ad_capabilities :: "operation_capability list"

record manifest =
  mf_descriptor :: descriptor
  mf_engine_profile :: string
  mf_engine_version :: string
  mf_available_operation_contracts :: "string list"
  mf_extensions :: "(string \<times> pyval) list"

text \<open>
  What the adapter takes from outside the repository: what the constructors of a manifest, a probe
  result, a verification and an execution result raise, the fingerprints of a manifest and of a
  JSON value, the order of resource references, and of the interpreter the text of floats and
  containers (\<^verbatim>\<open>str\<close>) and the Unicode tables \<^verbatim>\<open>int\<close> reads digits with.
\<close>

record core =
  manifest_check :: "manifest \<Rightarrow> unit res"
  manifest_fingerprint :: "manifest \<Rightarrow> string"
  probe_check :: "manifest \<Rightarrow> (string \<times> string) list \<Rightarrow> unit res"
  verification_check :: "string \<Rightarrow> (string \<times> string) list \<Rightarrow> (string \<times> string) list \<Rightarrow> unit res"
  result_check :: "pyval \<Rightarrow> nat \<Rightarrow> (string \<times> string) list \<Rightarrow> unit res"
  sha256_fingerprint :: "pyval \<Rightarrow> string res"
  resource_less :: "resource_ref \<Rightarrow> resource_ref \<Rightarrow> bool"
  repr_other :: "pyval \<Rightarrow> string res"
  int_unicode :: "string \<Rightarrow> int res"

subsection \<open>The declaration\<close>

definition descriptor_limits :: "valkey_settings \<Rightarrow> (string \<times> int) list" where
  "descriptor_limits s = [
     (''batchSize'', max_batch_size (limits s)),
     (''keyBytes'', max_key_bytes (limits s)),
     (''maximumTtlMs'', ttl_maximum_ms (ttl s)),
     (''valueBytes'', max_value_bytes (limits s))]"

definition shared_extensions :: "(string \<times> pyval) list" where
  "shared_extensions = [
     (''consistencyClass'', PStr ''disposable-cache''),
     (''serializers'', PList [PStr SERIALIZER_CANONICAL_JSON, PStr SERIALIZER_RAW_BYTES]),
     (''ttlRequired'', PBool True)]"

text \<open>An operation capability with the arguments all of them share.\<close>

definition capability :: "valkey_settings \<Rightarrow> string \<Rightarrow> string list \<Rightarrow> (string \<times> pyval) list \<Rightarrow> operation_capability" where
  "capability s contract guarantees extensions = \<lparr>
     oc_operation_contract = contract,
     oc_operation_versions = [OPERATION_VERSION],
     oc_guarantees = guarantees,
     oc_limits = descriptor_limits s,
     oc_cursor_behavior = ''none'',
     oc_migration_behavior = ''external-namespace-generation'',
     oc_health_probes = [''authenticated'', ''engine-version'', ''required-commands'', ''eviction-policy'', ''memory-limit'',
       ''persistence-policy'', ''script-support'', ''topology''],
     oc_extensions = extensions\<rparr>"

definition adapter_descriptor :: "valkey_settings \<Rightarrow> descriptor" where
  "adapter_descriptor s = \<lparr>
     ad_adapter_id = ADAPTER_ID,
     ad_adapter_contract_version = ADAPTER_CONTRACT_VERSION,
     ad_driver = ''valkey-py'',
     ad_supported_engine_versions = [
       (ENGINE_PROFILE_STANDALONE, SUPPORTED_ENGINE_VERSIONS),
       (ENGINE_PROFILE_SENTINEL, SUPPORTED_ENGINE_VERSIONS)],
     ad_capabilities = [
       capability s GET_CONTRACT
         [''disposable-cache'', ''miss-on-unavailable'', ''schema-validated'', ''scope-isolation'', ''ttl-bounded'']
         (shared_extensions @ [(''corruptionMode'', PStr ''delete-and-miss'')]),
       capability s PUT_CONTRACT [''disposable-cache'', ''scope-isolation'', ''ttl-bounded''] shared_extensions,
       capability s PUT_IF_ABSENT_CONTRACT
         [''atomic-single-key'', ''disposable-cache'', ''scope-isolation'', ''ttl-bounded''] shared_extensions,
       capability s COMPARE_AND_SET_CONTRACT
         [''atomic-single-key'', ''disposable-cache'', ''scope-isolation'', ''ttl-bounded'']
         (shared_extensions @ [(''scriptDigest'', PStr CAS_SCRIPT_DIGEST)]),
       capability s DELETE_CONTRACT [''disposable-cache'', ''scope-isolation''] shared_extensions,
       capability s INVALIDATE_CONTRACT [''bounded-exact-keys'', ''disposable-cache'', ''scope-isolation'']
         (shared_extensions @ [(''namespaceInvalidation'', PStr ''deployment-generation-only'')])]\<rparr>"

definition engine_profile :: "valkey_settings \<Rightarrow> string" where
  "engine_profile s =
     (if topo_mode (topology s) = TOPOLOGY_SENTINEL then ENGINE_PROFILE_SENTINEL else ENGINE_PROFILE_STANDALONE)"

definition manifest_of :: "string \<Rightarrow> valkey_settings \<Rightarrow> manifest" where
  "manifest_of engine_version s = \<lparr>
     mf_descriptor = adapter_descriptor s,
     mf_engine_profile = engine_profile s,
     mf_engine_version = engine_version,
     mf_available_operation_contracts = DATA_PLANE_CONTRACTS,
     mf_extensions = [
       (''consistencyClass'', PStr ''disposable-cache''),
       (''degradationModes'', PList [PStr ''corrupt-envelope-delete-and-miss'', PStr ''eviction-miss'', PStr ''read-unavailable-miss'']),
       (''namespaceGeneration'', PInt (namespace_generation s)),
       (''releaseLeaseScriptDigest'', PStr RELEASE_LEASE_SCRIPT_DIGEST),
       (''topology'', PStr (topo_mode (topology s)))]\<rparr>"

definition capability_manifest :: "core \<Rightarrow> string \<Rightarrow> valkey_settings \<Rightarrow> manifest res" where
  "capability_manifest K engine_version s =
     bindE (manifest_check K (manifest_of engine_version s)) (\<lambda>_. Inr (manifest_of engine_version s))"

definition expected_capability_fingerprint :: "core \<Rightarrow> string \<Rightarrow> valkey_settings \<Rightarrow> string res" where
  "expected_capability_fingerprint K engine_version s =
     bindE (capability_manifest K engine_version s) (\<lambda>m. Inr (manifest_fingerprint K m))"

subsection \<open>What a manifest declares\<close>

text \<open>The settings a manifest tells apart: the limits, the longest TTL, the generation and the topology.\<close>

lemma manifest_of_eq_iff:
  "manifest_of v s = manifest_of v' s' \<longleftrightarrow> v = v' \<and> limits s = limits s' \<and> ttl_maximum_ms (ttl s) = ttl_maximum_ms (ttl s') \<and>
     namespace_generation s = namespace_generation s' \<and> topo_mode (topology s) = topo_mode (topology s')"
  by (cases "limits s"; cases "limits s'")
    (auto simp: manifest_of_def adapter_descriptor_def capability_def descriptor_limits_def engine_profile_def)

text \<open>
  C33: the manifest is truthful about what can be executed. It advertises the contracts of exactly the
  operation capabilities of its descriptor, each once, and with the fingerprint it pins the engine
  version, the limits, the longest TTL, the namespace generation and the topology: two manifests
  that agree on their content agree on all of these.
\<close>

theorem manifest_pins_settings:
  assumes "capability_manifest K v s = Inr m" "capability_manifest K v' s' = Inr m'"
  shows "set (mf_available_operation_contracts m) = oc_operation_contract ` set (ad_capabilities (mf_descriptor m)) \<and>
    distinct (map oc_operation_contract (ad_capabilities (mf_descriptor m))) \<and>
    (m = m' \<longleftrightarrow> v = v' \<and> limits s = limits s' \<and> ttl_maximum_ms (ttl s) = ttl_maximum_ms (ttl s') \<and>
      namespace_generation s = namespace_generation s' \<and> topo_mode (topology s) = topo_mode (topology s'))"
proof -
  have m: "m = manifest_of v s" "m' = manifest_of v' s'"
    using assms by (simp_all add: capability_manifest_def res_simps)
  have "set (mf_available_operation_contracts m) = oc_operation_contract ` set (ad_capabilities (mf_descriptor m))"
    by (auto simp: m manifest_of_def adapter_descriptor_def capability_def DATA_PLANE_CONTRACTS_def)
  moreover have "distinct (map oc_operation_contract (ad_capabilities (mf_descriptor m)))"
    by (simp add: m manifest_of_def adapter_descriptor_def capability_def contract_defs)
  ultimately show ?thesis by (simp add: m manifest_of_eq_iff)
qed

subsection \<open>Examples\<close>

definition ref_core :: core where
  "ref_core = \<lparr>manifest_check = (\<lambda>_. Inr ()), manifest_fingerprint = mf_engine_version, probe_check = (\<lambda>_ _. Inr ()),
     verification_check = (\<lambda>_ _ _. Inr ()), result_check = (\<lambda>_ _ _. Inr ()), sha256_fingerprint = (\<lambda>_. Inr []),
     resource_less = (\<lambda>a b. rr_str a < rr_str b), repr_other = (\<lambda>_. Inr []), int_unicode = (\<lambda>_. Inl (ValueError []))\<rparr>"

lemma ref_core_simps [simp]:
  "manifest_check ref_core m = Inr ()" "manifest_fingerprint ref_core = mf_engine_version" "probe_check ref_core m e = Inr ()"
  "result_check ref_core d n e = Inr ()"
  by (simp_all add: ref_core_def)

theorem manifest_pins_settings_witness:
  "\<exists>m m'. capability_manifest ref_core ''8.1.9'' sample_settings = Inr m \<and>
    capability_manifest ref_core ''8.1.9'' (sample_settings\<lparr>namespace_generation := 2\<rparr>) = Inr m' \<and> m \<noteq> m'"
proof -
  obtain m m' where m: "capability_manifest ref_core ''8.1.9'' sample_settings = Inr m"
    "capability_manifest ref_core ''8.1.9'' (sample_settings\<lparr>namespace_generation := 2\<rparr>) = Inr m'"
    by (simp add: capability_manifest_def ref_core_def)
  from manifest_pins_settings [OF m] have "m \<noteq> m'" by (simp add: sample_settings_def)
  with m show ?thesis by blast
qed

end
