(* ===== verification/Vk_Probe.thy ===== *)
theory Vk_Probe
  imports Vk_Fake Vk_Descriptor "HOL-Library.Multiset"
begin

section \<open>Startup and physical probes\<close>

text \<open>
  The module \<^verbatim>\<open>probe\<close>: what the adapter checks of an engine before it serves, and how it verifies the
  resources placed on it. The client is any client. Shown: a probe that returns found what the
  settings require, and a verification that returns covers cache resources of the pinned schemas
  only and maps distinct resources to distinct prefixes.
\<close>

subsection \<open>Text and numbers of a reply\<close>

definition unsupported :: "string \<Rightarrow> exn" where
  "unsupported msg = meridian CompatibilityErrorC ''CAPABILITY_UNSUPPORTED'' msg []"

text \<open>\<^verbatim>\<open>str(v)\<close>\<close>

definition py_str :: "core \<Rightarrow> pyval \<Rightarrow> string res" where
  "py_str K v = (case v of
     PStr s \<Rightarrow> Inr s
   | PNone \<Rightarrow> Inr ''None''
   | PBool b \<Rightarrow> Inr (if b then ''True'' else ''False'')
   | PInt i \<Rightarrow> if length (show_nat (nat \<bar>i\<bar>)) \<le> max_str_digits then Inr (show_int i) else Inl digits_error
   | _ \<Rightarrow> repr_other K v)"

text \<open>\<^verbatim>\<open>int(v)\<close>\<close>

definition py_int :: "core \<Rightarrow> pyval \<Rightarrow> int res" where
  "py_int K v = (case v of
     PInt i \<Rightarrow> Inr i
   | PBool b \<Rightarrow> Inr (of_bool b)
   | PFloat f \<Rightarrow> (case f of
       FFinite s m e \<Rightarrow> Inr ((if s then - 1 else 1) * (if 0 \<le> e then int m * 2 ^ nat e else int m div 2 ^ nat (- e)))
     | FInf _ \<Rightarrow> Inl OverflowError
     | FNan \<Rightarrow> Inl (ValueError ''cannot convert float NaN to integer''))
   | PStr s \<Rightarrow> if is_ascii s then py_int10 s else int_unicode K s
   | _ \<Rightarrow> (case bytes_of v of
       Some b \<Rightarrow> py_int10 b
     | None \<Rightarrow> Inl (TypeError ''int() argument must be a string, a bytes-like object or a real number'')))"

text \<open>\<^verbatim>\<open>len(s)\<close> counts code points.\<close>

definition code_points :: "string \<Rightarrow> nat" where
  "code_points s = length (filter (\<lambda>c. \<not> utf8_cont c) s)"

text \<open>
  \<^verbatim>\<open>s.lower()\<close>, to compare it with ASCII text: among the other characters only the Kelvin sign becomes
  an ASCII letter, and the rest are left as they are.
\<close>

definition lower_char :: "char \<Rightarrow> char" where
  "lower_char c = (let n = of_char c :: nat in if 65 \<le> n \<and> n \<le> 90 then char_of (n + 32) else c)"

fun lower_text :: "string \<Rightarrow> string" where
  "lower_text [] = []"
| "lower_text (c # cs) =
     (if c = CHR 0xE2 \<and> take 2 cs = [CHR 0x84, CHR 0xAA] then CHR ''k'' # lower_text (drop 2 cs)
      else lower_char c # lower_text cs)"

text \<open>\<^verbatim>\<open>not s.strip()\<close>: every character is white space.\<close>

fun all_space :: "string \<Rightarrow> bool" where
  "all_space [] = True"
| "all_space (c # cs) =
     (if is_space c \<or> (28 \<le> (of_char c :: nat) \<and> (of_char c :: nat) \<le> 31) then all_space cs
      else if c = CHR 0xC2 \<and> (take 1 cs = [CHR 0x85] \<or> take 1 cs = [CHR 0xA0]) then all_space (drop 1 cs)
      else if (c = CHR 0xE1 \<and> take 2 cs = [CHR 0x9A, CHR 0x80]) \<or> (c = CHR 0xE3 \<and> take 2 cs = [CHR 0x80, CHR 0x80]) \<or>
          (c = CHR 0xE2 \<and> (take 2 cs = [CHR 0x81, CHR 0x9F] \<or>
            (case cs of a # b # _ \<Rightarrow> a = CHR 0x80 \<and> (let n = of_char b :: nat in
               (128 \<le> n \<and> n \<le> 138) \<or> n = 168 \<or> n = 169 \<or> n = 175) | _ \<Rightarrow> False)))
        then all_space (drop 2 cs)
      else False)"

text \<open>\<^verbatim>\<open>_normalized_mapping\<close>, as the loop that fills a dictionary.\<close>

fun normalized_items :: "core \<Rightarrow> mapping \<Rightarrow> mapping \<Rightarrow> mapping res" where
  "normalized_items K acc [] = Inr acc"
| "normalized_items K acc ((raw_key, raw_value) # items) =
     bindE (case raw_key of PBytes b \<Rightarrow> utf8_decode b | _ \<Rightarrow> py_str K raw_key) (\<lambda>key.
     normalized_items K
       (dict_set acc (PStr key)
         (case raw_value of PBytes b \<Rightarrow> PStr (if utf8_ok b then b else ''<binary>'') | _ \<Rightarrow> raw_value)) items)"

definition normalized_mapping :: "core \<Rightarrow> mapping \<Rightarrow> mapping res" where
  "normalized_mapping K v = normalized_items K [] v"

definition probe_text :: "pyval \<Rightarrow> string \<Rightarrow> string res" where
  "probe_text v field_name =
     bindE (case v of
         PBytes b \<Rightarrow> if utf8_ok b then Inr (PStr b) else Inl (unsupported (''Valkey probe field '' @ field_name @ '' is not UTF-8''))
       | _ \<Rightarrow> Inr v) (\<lambda>v.
     case v of
       PStr s \<Rightarrow> if s \<noteq> [] \<and> code_points s \<le> 512 then Inr s
         else Inl (unsupported (''Valkey probe field '' @ field_name @ '' is absent or malformed''))
     | _ \<Rightarrow> Inl (unsupported (''Valkey probe field '' @ field_name @ '' is absent or malformed'')))"

definition probe_number :: "core \<Rightarrow> pyval \<Rightarrow> string \<Rightarrow> int res" where
  "probe_number K v field_name =
     bindE (catchE (py_int K v) (\<lambda>e. is_TypeError e \<or> is_ValueError e)
       (\<lambda>_. Inl (unsupported (''Valkey probe field '' @ field_name @ '' is not an integer'')))) (\<lambda>result.
     if result < 0 then Inl (unsupported (''Valkey probe field '' @ field_name @ '' is negative'')) else Inr result)"

subsection \<open>Commands and scripts\<close>

definition REQUIRED_COMMANDS :: "string list" where
  "REQUIRED_COMMANDS = [''ping'', ''info'', ''config|get'', ''get'', ''mget'', ''set'', ''del'', ''pttl'', ''watch'', ''unwatch'',
     ''multi'', ''exec'', ''discard'', ''script|load'', ''script|exists'', ''evalsha'']"

fun list_items :: "pyval \<Rightarrow> pyval list option" where
  "list_items (PList xs) = Some xs"
| "list_items (PTuple xs) = Some xs"
| "list_items _ = None"

definition check_command :: "string \<Rightarrow> pyval \<Rightarrow> unit res" where
  "check_command command entry = (case list_items entry of
     Some (x # y # _) \<Rightarrow>
       bindE (probe_text x ''command_name'') (\<lambda>name.
       guardE (lower_text name = command) (unsupported ''Valkey command protocol response differs''))
   | _ \<Rightarrow> Inl (unsupported (''Valkey required command '' @ command @ '' is missing'')))"

definition verify_commands :: "'s client \<Rightarrow> ('s, unit) py" where
  "verify_commands C =
     bindM (c_execute_command C (''COMMAND INFO'' # REQUIRED_COMMANDS)) (\<lambda>response.
     case list_items response of
       Some entries \<Rightarrow>
         if length entries = length REQUIRED_COMMANDS
         then bindM (liftM (mapE (\<lambda>(command, entry). check_command command entry) (zip REQUIRED_COMMANDS entries))) (\<lambda>_. returnM ())
         else raiseM (unsupported ''Valkey COMMAND INFO response is malformed'')
     | None \<Rightarrow> raiseM (unsupported ''Valkey COMMAND INFO response is malformed''))"

text \<open>One turn of the loop that loads the owned scripts.\<close>

definition load_owned :: "'s client \<Rightarrow> bytes \<Rightarrow> string \<Rightarrow> ('s, unit) py" where
  "load_owned C script digest =
     bindM (c_script_load C script) (\<lambda>r.
     bindM (liftM (probe_text r ''script_digest'')) (\<lambda>loaded.
     if loaded \<noteq> removeprefix ''sha1:'' digest then raiseM (unsupported ''Valkey script digest differs from owned script'')
     else returnM ()))"

definition verify_scripts :: "'s client \<Rightarrow> ('s, unit) py" where
  "verify_scripts C =
     thenM (load_owned C CAS_SCRIPT CAS_SCRIPT_DIGEST)
     (thenM (load_owned C RELEASE_LEASE_SCRIPT RELEASE_LEASE_SCRIPT_DIGEST)
     (bindM (c_script_exists C [removeprefix ''sha1:'' CAS_SCRIPT_DIGEST, removeprefix ''sha1:'' RELEASE_LEASE_SCRIPT_DIGEST]) (\<lambda>found.
      if length found = 2 \<and> list_all truthy found then returnM ()
      else raiseM (unsupported ''Valkey SCRIPT EXISTS response is malformed''))))"

subsection \<open>The probe\<close>

record adapter_probe =
  ap_manifest :: manifest
  ap_evidence :: "(string \<times> string) list"

definition info_of :: "core \<Rightarrow> 's client \<Rightarrow> string \<Rightarrow> ('s, mapping) py" where
  "info_of K C sect = bindM (c_info C sect) (\<lambda>m. liftM (normalized_mapping K m))"

definition config_of :: "core \<Rightarrow> 's client \<Rightarrow> string \<Rightarrow> ('s, mapping) py" where
  "config_of K C pattern = bindM (c_config_get C pattern) (\<lambda>m. liftM (normalized_mapping K m))"

definition is_off :: "string \<Rightarrow> bool" where
  "is_off appendonly = (lower_text appendonly = ''no'' \<or> lower_text appendonly = ''0'')"

definition probe ::
    "core \<Rightarrow> 's client \<Rightarrow> valkey_settings \<Rightarrow> string \<Rightarrow> string option \<Rightarrow> ('s, adapter_probe) py" where
  "probe K C settings tls_mode selected_engine_version =
     bindM (c_ping C) (\<lambda>pong.
     if \<not> truthy pong then raiseM (unsupported ''authenticated Valkey PING failed'') else
     bindM (info_of K C ''server'') (\<lambda>server.
     bindM (info_of K C ''memory'') (\<lambda>mem.
     bindM (info_of K C ''replication'') (\<lambda>replication.
     bindM (liftM (probe_text (dict_get server ''valkey_version'' (dict_get server ''redis_version'' PNone)) ''valkey_version'')) (\<lambda>engine_version.
     thenM (verify_commands C)
     (bindM (liftM (probe_number K (dict_get mem ''maxmemory'' (PInt 0)) ''maxmemory'')) (\<lambda>maxmemory.
     bindM (config_of K C ''maxmemory-policy'') (\<lambda>config.
     bindM (liftM (probe_text (dict_get config ''maxmemory-policy'' PNone) ''maxmemory-policy'')) (\<lambda>eviction.
     if require_maxmemory (memory settings) \<and> maxmemory = 0
     then raiseM (unsupported ''Valkey maxmemory must be bounded for disposable Cache placement'')
     else if eviction \<notin> set (allowed_eviction_policies (memory settings))
     then raiseM (unsupported ''Valkey eviction policy is incompatible with the selected Cache profile'') else
     bindM (config_of K C ''appendonly'') (\<lambda>persistence.
     bindM (config_of K C ''save'') (\<lambda>more.
     let persistence = AList.updates (map fst more) (map snd more) persistence in
     bindM (liftM (py_str K (dict_get persistence ''appendonly'' (PStr '''')))) (\<lambda>appendonly.
     bindM (liftM (py_str K (dict_get persistence ''save'' (PStr '''')))) (\<lambda>save.
     if require_persistence_disabled (memory settings) \<and> (\<not> is_off appendonly \<or> \<not> all_space save)
     then raiseM (unsupported ''Valkey persistence must be disabled for the selected disposable profile'') else
     bindM (liftM (probe_text (dict_get replication ''role'' PNone) ''role'')) (\<lambda>role.
     bindM (liftM (probe_number K (dict_get replication ''connected_slaves'' (PInt 0)) ''connected_slaves'')) (\<lambda>replicas.
     if role \<noteq> ''master'' then raiseM (unsupported ''Valkey Adapter must connect to the writable primary'')
     else if replicas < minimum_replicas (topology settings)
     then raiseM (unsupported ''Valkey replica count is below the selected topology requirement'') else
     thenM (verify_scripts C)
     (bindM (liftM (capability_manifest K engine_version settings)) (\<lambda>m.
     bindM (liftM (py_str K (PInt maxmemory))) (\<lambda>maxmemory_text.
     bindM (liftM (py_str K (PInt replicas))) (\<lambda>replicas_text.
     let evidence = [
       (''authentication'', ''verified''),
       (''observedEngineVersion'', engine_version),
       (''selectedEngineVersion'', case selected_engine_version of Some (c # cs) \<Rightarrow> c # cs | _ \<Rightarrow> ''unavailable''),
       (''releaseConformance'', ''unverified-by-probe''),
       (''commandSupport'', ''verified''),
       (''evictionPolicy'', eviction),
       (''maxmemoryBytes'', maxmemory_text),
       (''persistence'', if is_off appendonly \<and> save = [] then ''disabled'' else ''enabled''),
       (''replicas'', replicas_text),
       (''role'', role),
       (''scriptSupport'', ''load-and-digest-verified''),
       (''tlsMode'', tls_mode),
       (''topology'', topo_mode (topology settings))] in
     bindM (liftM (probe_check K m evidence)) (\<lambda>_.
     returnM \<lparr>ap_manifest = m, ap_evidence = evidence\<rparr>))))))))))))))))))))"

subsection \<open>Physical verification\<close>

record physical_resource =
  pr_resource_ref :: resource_ref
  pr_resource_fingerprint :: string
  pr_schema_fingerprint :: string
  pr_profile :: string

record physical_verification =
  pv_fingerprint :: string
  pv_mappings :: "(string \<times> string) list"
  pv_evidence :: "(string \<times> string) list"

text \<open>\<^verbatim>\<open>sorted(resources, key=...)\<close> is stable.\<close>

fun insort_by :: "('a \<Rightarrow> 'a \<Rightarrow> bool) \<Rightarrow> 'a \<Rightarrow> 'a list \<Rightarrow> 'a list" where
  "insort_by lt x [] = [x]"
| "insort_by lt x (y # ys) = (if lt y x then y # insort_by lt x ys else x # y # ys)"

definition sorted_by :: "('a \<Rightarrow> 'a \<Rightarrow> bool) \<Rightarrow> 'a list \<Rightarrow> 'a list" where
  "sorted_by lt xs = foldr (insort_by lt) xs []"

definition physical_mapping :: "valkey_settings \<Rightarrow> string \<Rightarrow> string res" where
  "physical_mapping settings logical =
     bindE (utf8_encode logical) (\<lambda>b.
     Inr (''mrvk:v1:g'' @ show_int (namespace_generation settings) @ '':r:'' @ take 22 (base64url_digest b)))"

text \<open>One turn of the loop: the resource's name, its mapping and its record.\<close>

definition verify_resource :: "valkey_settings \<Rightarrow> physical_resource \<Rightarrow> (string \<times> string \<times> pyval) res" where
  "verify_resource settings r =
     (let logical = rr_str (pr_resource_ref r) in
      bindE (guardE (rr_catalog (pr_resource_ref r) = ''cache'' \<and>
          pr_profile r \<in> set [''cache'', ''disposable-cache'', ''disposable-key-value''])
        (meridian ValidationErrorC ''CAPABILITY_UNSUPPORTED'' ''Valkey cannot provide authoritative or non-Cache semantics''
          [(''resource_ref'', PStr logical)])) (\<lambda>_.
      bindE (policy_for settings logical) (\<lambda>policy.
      bindE (guardE (pr_schema_fingerprint r = rp_schema_fingerprint policy)
        (meridian ValidationErrorC ''PHYSICAL_FINGERPRINT'' ''Valkey Resource Schema fingerprint differs from its Binding policy''
          [(''resource_ref'', PStr logical)])) (\<lambda>_.
      bindE (physical_mapping settings logical) (\<lambda>m.
      Inr (logical, m, PDict [
        (PStr ''resource'', rr_dict (pr_resource_ref r)),
        (PStr ''resourceFingerprint'', PStr (pr_resource_fingerprint r)),
        (PStr ''schemaFingerprint'', PStr (pr_schema_fingerprint r)),
        (PStr ''profile'', PStr (pr_profile r)),
        (PStr ''physicalMapping'', PStr m)]))))))"

definition verify_physical :: "core \<Rightarrow> valkey_settings \<Rightarrow> physical_resource list \<Rightarrow> physical_verification res" where
  "verify_physical K settings rs =
     bindE (guardE (rs \<noteq> []) (meridian ValidationErrorC ''OPERATION_INVALID''
       ''Valkey physical verification requires at least one Cache Resource'' [])) (\<lambda>_.
     bindE (mapE (verify_resource settings) (sorted_by (\<lambda>a b. resource_less K (pr_resource_ref a) (pr_resource_ref b)) rs)) (\<lambda>items.
     let mappings = AList.updates (map fst items) (map (fst \<circ> snd) items) [] in
     bindE (sha256_fingerprint K (PDict [
       (PStr ''formatVersion'', PStr ''meridian-valkey-physical.v1''),
       (PStr ''consistencyClass'', PStr ''disposable-cache''),
       (PStr ''namespaceGeneration'', PInt (namespace_generation settings)),
       (PStr ''resources'', PList (map (snd \<circ> snd) items)),
       (PStr ''topology'', PStr (topo_mode (topology settings)))])) (\<lambda>fingerprint.
     let evidence = [
       (''authority'', ''disposable-only''),
       (''namespaceGeneration'', show_int (namespace_generation settings)),
       (''resourceCount'', show_nat (length rs)),
       (''topology'', topo_mode (topology settings))] in
     bindE (verification_check K fingerprint mappings evidence) (\<lambda>_.
     Inr \<lparr>pv_fingerprint = fingerprint, pv_mappings = mappings, pv_evidence = evidence\<rparr>))))"

subsection \<open>What an accepted engine reported\<close>

text \<open>What a client answered, in some state, for a section of \<open>INFO\<close>, and for a script.\<close>

definition informed :: "core \<Rightarrow> 's client \<Rightarrow> string \<Rightarrow> mapping \<Rightarrow> bool" where
  "informed K C sect m = (\<exists>s r s'. c_info C sect s = (Inr r, s') \<and> normalized_mapping K r = Inr m)"

definition configured :: "core \<Rightarrow> 's client \<Rightarrow> string \<Rightarrow> mapping \<Rightarrow> bool" where
  "configured K C pattern m = (\<exists>s r s'. c_config_get C pattern s = (Inr r, s') \<and> normalized_mapping K r = Inr m)"

definition script_loaded :: "'s client \<Rightarrow> bytes \<Rightarrow> bool" where
  "script_loaded C script = (\<exists>s r s'. c_script_load C script s = (Inr r, s') \<and>
     (r = PStr (hexdigest (sha1 script)) \<or> r = PBytes (hexdigest (sha1 script))))"

lemma info_of_Inr: "info_of K C sect s = (Inr m, s') \<Longrightarrow> informed K C sect m"
  by (auto simp: info_of_def run_simps informed_def)

lemma config_of_Inr: "config_of K C pattern s = (Inr m, s') \<Longrightarrow> configured K C pattern m"
  by (auto simp: config_of_def run_simps configured_def)

lemma probe_text_Inr: "probe_text v f = Inr t \<Longrightarrow> v = PStr t \<or> v = PBytes t"
  by (cases v) (auto simp: probe_text_def res_simps split: if_splits)

lemma load_owned_Inr: "load_owned C script (sha1_hex script) s = (Inr u, s') \<Longrightarrow> script_loaded C script"
  by (auto simp: sha1_hex_def load_owned_def run_simps script_loaded_def removeprefix_def dest!: probe_text_Inr split: if_splits)

lemma verify_scripts_Inr: "verify_scripts C s = (Inr u, s') \<Longrightarrow> script_loaded C CAS_SCRIPT \<and> script_loaded C RELEASE_LEASE_SCRIPT"
  by (auto simp: verify_scripts_def run_simps CAS_SCRIPT_DIGEST_def RELEASE_LEASE_SCRIPT_DIGEST_def dest: load_owned_Inr)

lemma probe_number_Inr: "probe_number K v f = Inr n \<Longrightarrow> 0 \<le> n"
  by (auto simp: probe_number_def res_simps split: if_splits)

lemma py_str_int: "py_str K (PInt i) = Inr t \<Longrightarrow> t = show_int i"
  by (simp add: py_str_def split: if_splits)

lemma capability_manifest_Inr: "capability_manifest K v s = Inr m \<Longrightarrow> m = manifest_of v s"
  by (simp add: capability_manifest_def res_simps)

text \<open>The calls a probe that returns has made, in their order, and what they returned.\<close>

lemma probe_run:
  assumes "probe K C settings tls_mode selected s = (Inr p, s')"
  obtains server mem replication version maxmemory config eviction a b appendonly save role replicas s1 s2 s3 s4 s5 s6 s7 s8 s9 s10
    s11 s12 s13 s14 s15 s16 u
  where "info_of K C ''server'' s1 = (Inr server, s2)" "info_of K C ''memory'' s3 = (Inr mem, s4)"
    "info_of K C ''replication'' s5 = (Inr replication, s6)"
    "probe_text (dict_get server ''valkey_version'' (dict_get server ''redis_version'' PNone)) ''valkey_version'' = Inr version"
    "probe_number K (dict_get mem ''maxmemory'' (PInt 0)) ''maxmemory'' = Inr maxmemory"
    "config_of K C ''maxmemory-policy'' s7 = (Inr config, s8)"
    "probe_text (dict_get config ''maxmemory-policy'' PNone) ''maxmemory-policy'' = Inr eviction"
    "require_maxmemory (memory settings) \<Longrightarrow> maxmemory \<noteq> 0" "eviction \<in> set (allowed_eviction_policies (memory settings))"
    "config_of K C ''appendonly'' s9 = (Inr a, s10)" "config_of K C ''save'' s11 = (Inr b, s12)"
    "py_str K (dict_get (AList.updates (map fst b) (map snd b) a) ''appendonly'' (PStr [])) = Inr appendonly"
    "py_str K (dict_get (AList.updates (map fst b) (map snd b) a) ''save'' (PStr [])) = Inr save"
    "require_persistence_disabled (memory settings) \<Longrightarrow> is_off appendonly \<and> all_space save"
    "probe_text (dict_get replication ''role'' PNone) ''role'' = Inr role" "role = ''master''"
    "probe_number K (dict_get replication ''connected_slaves'' (PInt 0)) ''connected_slaves'' = Inr replicas"
    "minimum_replicas (topology settings) \<le> replicas" "verify_scripts C s13 = (Inr u, s14)"
    "capability_manifest K version settings = Inr (ap_manifest p)" "verify_commands C s15 = (Inr (), s16)"
    "map_of (ap_evidence p) ''observedEngineVersion'' = Some version" "map_of (ap_evidence p) ''evictionPolicy'' = Some eviction"
  using assms
  apply (simp only: probe_def run_simps Let_def)
  apply (elim exE conjE)
  apply (rule that; (assumption | simp add: not_less))
  done


text \<open>Every required command is reported under its own name.\<close>

definition commands_reported :: "'s client \<Rightarrow> bool" where
  "commands_reported C = (\<exists>s r s' entries. c_execute_command C (''COMMAND INFO'' # REQUIRED_COMMANDS) s = (Inr r, s') \<and>
     list_items r = Some entries \<and> length entries = length REQUIRED_COMMANDS \<and>
     list_all (\<lambda>(command, entry). \<exists>name rest. list_items entry = Some (name # rest) \<and> rest \<noteq> [] \<and>
       (\<exists>t. (name = PStr t \<or> name = PBytes t) \<and> lower_text t = command)) (zip REQUIRED_COMMANDS entries))"

lemma check_command_Inr:
  assumes "check_command command entry = Inr u"
  shows "\<exists>name rest. list_items entry = Some (name # rest) \<and> rest \<noteq> [] \<and> (\<exists>t. (name = PStr t \<or> name = PBytes t) \<and> lower_text t = command)"
  using assms by (auto simp: check_command_def res_simps dest!: probe_text_Inr split: option.splits list.splits)

lemma verify_commands_Inr:
  assumes "verify_commands C s = (Inr u, s')"
  shows "commands_reported C"
proof -
  from assms obtain r s1 entries xs where r: "c_execute_command C (''COMMAND INFO'' # REQUIRED_COMMANDS) s = (Inr r, s1)"
    "list_items r = Some entries" "length entries = length REQUIRED_COMMANDS"
    "mapE (\<lambda>(command, entry). check_command command entry) (zip REQUIRED_COMMANDS entries) = Inr xs"
    by (auto simp: verify_commands_def run_simps split: option.splits if_splits)
  have "list_all (\<lambda>(command, entry). \<exists>name rest. list_items entry = Some (name # rest) \<and> rest \<noteq> [] \<and>
       (\<exists>t. (name = PStr t \<or> name = PBytes t) \<and> lower_text t = command)) (zip REQUIRED_COMMANDS entries)"
    using r(4)
  proof (rule mapE_all_args)
    fix x u assume "(case x of (command, entry) \<Rightarrow> check_command command entry) = Inr u"
    then show "case x of (command, entry) \<Rightarrow> \<exists>name rest. list_items entry = Some (name # rest) \<and> rest \<noteq> [] \<and>
       (\<exists>t. (name = PStr t \<or> name = PBytes t) \<and> lower_text t = command)"
      by (cases x) (simp add: check_command_Inr)
  qed
  with r show ?thesis unfolding commands_reported_def by blast
qed

text \<open>
  C16: an engine the startup probe accepts is the one the settings ask for, whatever the client is: it
  reported the version the returned manifest carries, every required command under its name, the
  role of a primary with enough replicas, an allowed eviction policy, a bounded memory when one is
  required, disabled persistence when that is required, and it loaded both owned scripts under
  the digests of their text.
\<close>

theorem probe_sound:
  assumes "probe K C settings tls_mode selected s = (Inr p, s')"
  shows "\<exists>server mem replication config a b version maxmemory eviction appendonly save replicas.
    informed K C ''server'' server \<and> informed K C ''memory'' mem \<and> informed K C ''replication'' replication \<and>
    configured K C ''maxmemory-policy'' config \<and> configured K C ''appendonly'' a \<and> configured K C ''save'' b \<and>
    commands_reported C \<and> script_loaded C CAS_SCRIPT \<and> script_loaded C RELEASE_LEASE_SCRIPT \<and>
    ap_manifest p = manifest_of version settings \<and>
    probe_text (dict_get server ''valkey_version'' (dict_get server ''redis_version'' PNone)) ''valkey_version'' = Inr version \<and>
    probe_text (dict_get replication ''role'' PNone) ''role'' = Inr ''master'' \<and>
    probe_number K (dict_get replication ''connected_slaves'' (PInt 0)) ''connected_slaves'' = Inr replicas \<and>
    minimum_replicas (topology settings) \<le> replicas \<and>
    probe_text (dict_get config ''maxmemory-policy'' PNone) ''maxmemory-policy'' = Inr eviction \<and>
    eviction \<in> set (allowed_eviction_policies (memory settings)) \<and>
    probe_number K (dict_get mem ''maxmemory'' (PInt 0)) ''maxmemory'' = Inr maxmemory \<and>
    (require_maxmemory (memory settings) \<longrightarrow> 0 < maxmemory) \<and>
    py_str K (dict_get (AList.updates (map fst b) (map snd b) a) ''appendonly'' (PStr [])) = Inr appendonly \<and>
    py_str K (dict_get (AList.updates (map fst b) (map snd b) a) ''save'' (PStr [])) = Inr save \<and>
    (require_persistence_disabled (memory settings) \<longrightarrow> is_off appendonly \<and> all_space save)"
proof (rule probe_run [OF assms], goal_cases)
  case (1 server mem replication version maxmemory config eviction a b appendonly save role replicas)
  note run = 1
  have "0 \<le> maxmemory" using run(5) by (rule probe_number_Inr)
  with run(8) have "require_maxmemory (memory settings) \<longrightarrow> 0 < maxmemory" by auto
  moreover have "require_persistence_disabled (memory settings) \<longrightarrow> is_off appendonly \<and> all_space save" using run(14) by blast
  moreover note info_of_Inr [OF run(1)] info_of_Inr [OF run(2)] info_of_Inr [OF run(3)] config_of_Inr [OF run(6)]
    config_of_Inr [OF run(10)] config_of_Inr [OF run(11)] verify_scripts_Inr [OF run(19)] capability_manifest_Inr [OF run(20)]
    verify_commands_Inr [OF run(21)]
  ultimately show ?thesis
    using run(4,5,7,9,12,13,15,17,18) unfolding run(16) by blast
qed


subsection \<open>What a verification covers\<close>

lemma mset_insort_by [simp]: "mset (insort_by lt x ys) = add_mset x (mset ys)"
  by (induction ys) auto

lemma mset_sorted_by [simp]: "mset (sorted_by lt xs) = mset xs"
  by (induction xs) (simp_all add: sorted_by_def)

lemma set_sorted_by [simp]: "set (sorted_by lt xs) = set xs"
  using mset_sorted_by [of lt xs] by (metis set_mset_mset)

lemma verify_resource_Inr:
  assumes "verify_resource settings r = Inr (logical, m, item)"
  shows "logical = rr_str (pr_resource_ref r) \<and> rr_catalog (pr_resource_ref r) = ''cache'' \<and>
    pr_profile r \<in> set [''cache'', ''disposable-cache'', ''disposable-key-value''] \<and>
    (\<exists>policy. policy_for settings logical = Inr policy \<and> pr_schema_fingerprint r = rp_schema_fingerprint policy) \<and>
    physical_mapping settings logical = Inr m"
  using assms by (simp only: verify_resource_def Let_def res_simps) auto

lemma map_of_updates_fun:
  "(\<And>k v. (k, v) \<in> set kvs \<Longrightarrow> f k = v) \<Longrightarrow> k \<in> fst ` set kvs \<Longrightarrow> map_of (AList.updates (map fst kvs) (map snd kvs) m) k = Some (f k)"
proof (induction kvs arbitrary: m rule: rev_induct)
  case (snoc kv kvs)
  then show ?case by (cases kv) (auto simp: updates_append1 update_conv' nth_append)
qed simp


lemma mapping_of_some_name:
  assumes "physical_mapping settings a = Inr m" "physical_mapping settings b = Inr m'"
  shows "m = m' \<longleftrightarrow> take 22 (base64url_digest a) = take 22 (base64url_digest b)"
  using assms by (auto simp: physical_mapping_def res_simps utf8_encode_def split: if_splits)

definition eligible :: "valkey_settings \<Rightarrow> physical_resource \<Rightarrow> bool" where
  "eligible settings r = (rr_catalog (pr_resource_ref r) = ''cache'' \<and>
     pr_profile r \<in> set [''cache'', ''disposable-cache'', ''disposable-key-value''] \<and>
     (\<exists>policy. policy_for settings (rr_str (pr_resource_ref r)) = Inr policy \<and> pr_schema_fingerprint r = rp_schema_fingerprint policy))"

lemma verified_items:
  assumes "mapE (verify_resource settings) xs = Inr items"
  shows "\<forall>r\<in>set xs. eligible settings r \<and> rr_str (pr_resource_ref r) \<in> fst ` set items"
    "\<forall>(k, m, _)\<in>set items. physical_mapping settings k = Inr m"
  using assms
proof (induction xs arbitrary: items)
  case (Cons r xs)
  {
    case 1
    then obtain k m x items' where "verify_resource settings r = Inr (k, m, x)" "mapE (verify_resource settings) xs = Inr items'"
      "items = (k, m, x) # items'" by (auto simp: res_simps)
    with Cons.IH(1) verify_resource_Inr show ?case by (fastforce simp: eligible_def)
  next
    case 2
    then obtain k m x items' where "verify_resource settings r = Inr (k, m, x)" "mapE (verify_resource settings) xs = Inr items'"
      "items = (k, m, x) # items'" by (auto simp: res_simps)
    with Cons.IH(2) verify_resource_Inr show ?case by fastforce
  }
qed simp_all

text \<open>
  C32: a physical verification that returns covers exactly what it was asked for: at least one
  resource, each of the cache catalog with a disposable profile and the schema the settings pin for
  it; its mapping names every resource, and two of them share a physical prefix only if the 132
  leading bits of the SHA-256 digests of their names agree.
\<close>

theorem verify_physical_sound:
  assumes "verify_physical K settings rs = Inr v"
  shows "rs \<noteq> [] \<and> (\<forall>r\<in>set rs. eligible settings r \<and> (\<exists>m. physical_mapping settings (rr_str (pr_resource_ref r)) = Inr m \<and>
      map_of (pv_mappings v) (rr_str (pr_resource_ref r)) = Some m)) \<and>
    (\<forall>r\<in>set rs. \<forall>r'\<in>set rs. map_of (pv_mappings v) (rr_str (pr_resource_ref r)) = map_of (pv_mappings v) (rr_str (pr_resource_ref r')) \<longrightarrow>
      take 22 (base64url_digest (rr_str (pr_resource_ref r))) = take 22 (base64url_digest (rr_str (pr_resource_ref r'))))"
proof -
  let ?name = "\<lambda>r. rr_str (pr_resource_ref r)" and ?map = "\<lambda>k. projr (physical_mapping settings k)"
  from assms obtain items where rs: "rs \<noteq> []"
    and items: "mapE (verify_resource settings) (sorted_by (\<lambda>a b. resource_less K (pr_resource_ref a) (pr_resource_ref b)) rs) = Inr items"
    and maps: "pv_mappings v = AList.updates (map fst items) (map (fst \<circ> snd) items) []"
    by (auto simp: verify_physical_def res_simps Let_def)
  let ?kvs = "map (\<lambda>(k, m, _). (k, m)) items"
  note all = verified_items [OF items, unfolded set_sorted_by]
  have named: "\<exists>m. physical_mapping settings (?name r) = Inr m \<and> map_of (pv_mappings v) (?name r) = Some m" if "r \<in> set rs" for r
  proof -
    have "?name r \<in> fst ` set items" using all(1) that by blast
    then obtain m x where m: "(?name r, m, x) \<in> set items" by auto
    have "map_of (AList.updates (map fst ?kvs) (map snd ?kvs) []) (?name r) = Some (?map (?name r))"
    proof (rule map_of_updates_fun)
      fix k m assume "(k, m) \<in> set ?kvs"
      then show "?map k = m" using all(2) by auto
    next
      show "?name r \<in> fst ` set ?kvs" using m by force
    qed
    moreover have "physical_mapping settings (?name r) = Inr m" using bspec [OF all(2) m] by simp
    ultimately show ?thesis by (simp add: maps comp_def case_prod_unfold)
  qed
  have "take 22 (base64url_digest (?name r)) = take 22 (base64url_digest (?name r'))"
    if rr: "r \<in> set rs" "r' \<in> set rs" "map_of (pv_mappings v) (?name r) = map_of (pv_mappings v) (?name r')" for r r'
  proof -
    from named [OF rr(1)] named [OF rr(2)] rr(3) obtain m where
      "physical_mapping settings (?name r) = Inr m" "physical_mapping settings (?name r') = Inr m" by auto
    then show ?thesis using mapping_of_some_name by blast
  qed
  with rs all(1) named show ?thesis by blast
qed

subsection \<open>Examples\<close>

lemma fake_infos:
  "info_of ref_core fake_client ''server'' FakeValkey = (Inr [(PStr ''valkey_version'', PStr ''8.1.9'')], FakeValkey)"
  "info_of ref_core fake_client ''memory'' FakeValkey = (Inr [(PStr ''maxmemory'', PInt 67108864)], FakeValkey)"
  "info_of ref_core fake_client ''replication'' FakeValkey =
     (Inr [(PStr ''role'', PStr ''master''), (PStr ''connected_slaves'', PInt 0)], FakeValkey)"
  "config_of ref_core fake_client pattern FakeValkey =
     (Inr [(PStr ''maxmemory-policy'', PStr ''allkeys-lru''), (PStr ''appendonly'', PStr ''no''), (PStr ''save'', PStr [])], FakeValkey)"
  by (simp_all add: info_of_def config_of_def fake_info_def fake_config_get_def bindM_run normalized_mapping_def dict_set_def py_str_def)
    (simp_all add: FakeValkey_def)

lemma fake_commands: "verify_commands fake_client FakeValkey = (Inr (), FakeValkey)"
  by (simp add: verify_commands_def fake_execute_command_def bindM_run REQUIRED_COMMANDS_def check_command_def
      probe_text_def utf8_ok_ascii is_ascii_def code_points_def utf8_cont_def lower_char_def)

lemma digest_text: "probe_text (PStr (hexdigest (sha1 b))) f = Inr (hexdigest (sha1 b))"
proof -
  have "length (hexdigest (sha1 b)) = 40" by (simp add: length_sha1 length_hexdigest)
  moreover from this have "hexdigest (sha1 b) \<noteq> []" by (metis list.size(3) zero_neq_numeral)
  moreover have "code_points (hexdigest (sha1 b)) \<le> length (hexdigest (sha1 b))"
    unfolding code_points_def by (rule length_filter_le)
  ultimately show ?thesis by (auto simp: probe_text_def)
qed

lemma fake_scripts: "\<exists>s'. verify_scripts fake_client FakeValkey = (Inr (), s')"
  by (simp add: verify_scripts_def load_owned_def fake_script_load_def fake_script_exists_def thenM_def [of "modifyM _"] Let_def
      bindM_run thenM_run digest_text removeprefix_digests)

lemma sample_probe_run:
  obtains p s' where "probe ref_core fake_client sample_settings tls_mode selected FakeValkey = (Inr p, s')"
    "ap_manifest p = manifest_of ''8.1.9'' sample_settings"
proof -
  have "\<exists>p s'. probe ref_core fake_client sample_settings tls_mode selected FakeValkey = (Inr p, s') \<and>
      ap_manifest p = manifest_of ''8.1.9'' sample_settings"
    using fake_scripts show_small_ok [of 67108864] show_small_ok [of 0]
    by (auto simp: probe_def bindM_run thenM_run fake_ping_def fake_infos fake_commands dict_get_def probe_text_def code_points_def
        utf8_cont_def probe_number_def py_int_def sample_settings_def default_eviction_policies_def py_str_def is_off_def lower_char_def
        capability_manifest_def)
  with that show ?thesis by blast
qed

theorem probe_sound_witness:
  "\<exists>p s' version. probe ref_core fake_client sample_settings ''disabled'' None FakeValkey = (Inr p, s') \<and>
     ap_manifest p = manifest_of version sample_settings \<and> commands_reported fake_client \<and> script_loaded fake_client CAS_SCRIPT"
proof -
  obtain p s' where p: "probe ref_core fake_client sample_settings ''disabled'' None FakeValkey = (Inr p, s')"
    by (rule sample_probe_run)
  from probe_sound [OF p] p show ?thesis by blast
qed

definition sample_resource :: physical_resource where
  "sample_resource = \<lparr>pr_resource_ref = sample_ref, pr_resource_fingerprint = ''r1'', pr_schema_fingerprint = sample_schema, pr_profile = ''cache''\<rparr>"

theorem verify_physical_sound_witness:
  "\<exists>v. verify_physical ref_core sample_settings [sample_resource] = Inr v \<and> eligible sample_settings sample_resource"
proof -
  have "\<exists>v. verify_physical ref_core sample_settings [sample_resource] = Inr v"
    by (simp add: verify_physical_def sorted_by_def verify_resource_def sample_resource_def physical_mapping_def Let_def ref_core_def
        policy_for_def sample_settings_def sample_ref_def utf8_encode_def utf8_ok_ascii is_ascii_def sample_policy_def)
  then obtain v where v: "verify_physical ref_core sample_settings [sample_resource] = Inr v" ..
  from verify_physical_sound [OF v] v show ?thesis by simp
qed

end
