(* ===== verification/Vk_Rounding.thy ===== *)
theory Vk_Rounding
  imports Vk_Engine Complex_Main
begin

section \<open>The error of floating-point rounding\<close>

text \<open>
  The model of doubles rounds a quotient of integers once, to nearest with ties to even. Here its
  result is compared with the exact quotient: below a power of two \<open>2 ^ k\<close> it is off by at most
  \<open>2 ^ (k - 54)\<close>. The timestamps of entries rest on it.
\<close>

subsection \<open>The error of one rounding\<close>

lemma bit_length_bounds: "0 < n \<Longrightarrow> 0 < bit_length n \<and> 2 powi (bit_length n - 1) \<le> real_of_int n \<and> real_of_int n < 2 powi bit_length n"
proof (induction n rule: bit_length.induct)
  case (1 n)
  show ?case
  proof (cases "n = 1")
    case True
    then show ?thesis by (simp add: bit_length.simps [of 1] bit_length.simps [of 0])
  next
    case False
    with 1 have pos: "0 < n div 2" by linarith
    let ?b = "bit_length (n div 2)"
    have IH: "0 < ?b" "2 powi (?b - 1) \<le> real_of_int (n div 2)" "real_of_int (n div 2) < 2 powi ?b"
      using 1 pos by auto
    have b: "bit_length n = 1 + ?b" using 1 by (simp add: bit_length.simps [of n])
    have int_pow: "2 powi ?b = real_of_int (2 ^ nat ?b)" using IH(1) by (simp add: power_int_def)
    have "n div 2 < 2 ^ nat ?b" using IH(3) unfolding int_pow of_int_less_iff .
    then have "n < 2 * 2 ^ nat ?b" by linarith
    then have "real_of_int n < real_of_int (2 * 2 ^ nat ?b)" by (simp only: of_int_less_iff)
    also have "\<dots> = 2 powi (1 + ?b)" by (simp add: int_pow power_int_add)
    finally have "real_of_int n < 2 powi (1 + ?b)" .
    moreover have "2 * real_of_int (n div 2) \<le> real_of_int n" by linarith
    then have "2 powi (1 + ?b - 1) \<le> real_of_int n"
      using IH(2) by (simp add: power_int_diff)
    ultimately show ?thesis using b IH(1) by simp
  qed
qed

lemma nearest_error:
  assumes "0 < (d :: int)"
  shows "\<bar>real_of_int (if d < 2 * (n mod d) \<or> (2 * (n mod d) = d \<and> odd (n div d)) then n div d + 1 else n div d) - real_of_int n / real_of_int d\<bar> \<le> 1 / 2"
proof -
  have "real_of_int n = real_of_int (n div d) * real_of_int d + real_of_int (n mod d)"
    by (metis div_mult_mod_eq of_int_add of_int_mult)
  then have n: "real_of_int n / real_of_int d = real_of_int (n div d) + real_of_int (n mod d) / real_of_int d"
    using assms by (simp add: field_simps)
  have r: "0 \<le> real_of_int (n mod d) / real_of_int d" "real_of_int (n mod d) / real_of_int d < 1"
    using assms by (simp_all add: pos_mod_bound)
  have "(d < 2 * (n mod d)) = (1 / 2 < real_of_int (n mod d) / real_of_int d)"
  proof -
    have "(d < 2 * (n mod d)) = (real_of_int d < 2 * real_of_int (n mod d))" by linarith
    also have "\<dots> = (1 / 2 < real_of_int (n mod d) / real_of_int d)" using assms by (simp add: field_simps)
    finally show ?thesis .
  qed
  moreover have "(2 * (n mod d) = d) \<Longrightarrow> real_of_int (n mod d) / real_of_int d = 1 / 2"
    using assms by (simp add: field_simps)
  ultimately show ?thesis using r unfolding n by (auto simp: abs_if)
qed

text \<open>A quotient below a power of two is rounded with an error of at most half a unit in its last of 53 places.\<close>

lemma scaled_quotient:
  assumes "0 < (den :: int)"
  shows "real_of_int (num * 2 ^ nat (- e)) / real_of_int (den * 2 ^ nat e) = real_of_int num / real_of_int den * 2 powi (- e)"
  using assms by (cases "0 \<le> e") (simp_all add: power_int_def field_simps)

lemma powi_cancel: "(x :: real) * 2 powi (- e) * 2 powi e = x"
  by (simp add: power_int_minus mult.assoc)

lemma round_ratio_error:
  assumes "0 < num" "0 < den" "real_of_int num / real_of_int den < 2 powi k" "- 1021 \<le> k" "k \<le> 1023"
  obtains m x where "round_ratio neg num den = FFinite neg m x" "x \<le> max 0 (k - 52)" "m \<noteq> 0 \<Longrightarrow> x \<le> k - 52"
    "\<bar>real m * 2 powi x - real_of_int num / real_of_int den\<bar> \<le> 2 powi (k - 54)"
proof -
  let ?q = "real_of_int num / real_of_int den"
  define e0 where "e0 = bit_length num - bit_length den"
  define lg where "lg = (if den * 2 ^ nat e0 \<le> num * 2 ^ nat (- e0) then e0 else e0 - 1)"
  define e where "e = max (lg - 52) (- 1074)"
  define n where "n = num * 2 ^ nat (- e)"
  define d where "d = den * 2 ^ nat e"
  define m1 where "m1 = (if d < 2 * (n mod d) \<or> (2 * (n mod d) = d \<and> odd (n div d)) then n div d + 1 else n div d)"
  have d: "0 < d" using assms(2) by (simp add: d_def)
  have n0: "0 \<le> n" using assms(1) by (simp add: n_def)
  have nd: "real_of_int n / real_of_int d = ?q * 2 powi (- e)"
    unfolding n_def d_def by (rule scaled_quotient [OF assms(2)])
  have lgq: "2 powi lg \<le> ?q"
  proof (cases "den * 2 ^ nat e0 \<le> num * 2 ^ nat (- e0)")
    case True
    then have "real_of_int (den * 2 ^ nat e0) \<le> real_of_int (num * 2 ^ nat (- e0))" by (simp only: of_int_le_iff)
    then have "1 \<le> real_of_int (num * 2 ^ nat (- e0)) / real_of_int (den * 2 ^ nat e0)" using assms(2) by simp
    then have "1 \<le> ?q * 2 powi (- e0)" unfolding scaled_quotient [OF assms(2)] .
    then have "1 * 2 powi e0 \<le> ?q * 2 powi (- e0) * 2 powi e0" by (rule mult_right_mono) simp
    then have "2 powi e0 \<le> ?q" unfolding powi_cancel by simp
    with True show ?thesis by (simp add: lg_def)
  next
    case False
    have "2 powi (bit_length num - 1) / 2 powi bit_length den \<le> ?q"
      using bit_length_bounds [OF assms(1)] bit_length_bounds [OF assms(2)] assms(1,2)
      by (intro frac_le) auto
    then have "2 powi (e0 - 1) \<le> ?q" by (simp add: e0_def power_int_diff power_int_add algebra_simps)
    with False show ?thesis by (simp add: lg_def)
  qed
  have "2 powi lg < (2 powi k :: real)" using lgq assms(3) by linarith
  then have "lg < k" using power_int_increasing [of k lg "2 :: real"] by (cases "k \<le> lg") auto
  then have ek: "e \<le> k - 53" using assms(4) by (simp add: e_def)
  have err: "\<bar>real_of_int m1 * 2 powi e - ?q\<bar> \<le> 2 powi (k - 54)"
  proof -
    have "\<bar>real_of_int m1 - ?q * 2 powi (- e)\<bar> \<le> 1 / 2" using nearest_error [OF d, of n] unfolding m1_def nd .
    then have "\<bar>real_of_int m1 - ?q * 2 powi (- e)\<bar> * 2 powi e \<le> 1 / 2 * 2 powi e" by (intro mult_right_mono) auto
    also have "\<bar>real_of_int m1 - ?q * 2 powi (- e)\<bar> * 2 powi e = \<bar>(real_of_int m1 - ?q * 2 powi (- e)) * 2 powi e\<bar>"
      by (simp add: abs_mult)
    also have "(real_of_int m1 - ?q * 2 powi (- e)) * 2 powi e = real_of_int m1 * 2 powi e - ?q"
      unfolding left_diff_distrib powi_cancel ..
    finally have "\<bar>real_of_int m1 * 2 powi e - ?q\<bar> \<le> 2 powi (e - 1)" by (simp add: power_int_diff)
    also have "(2 powi (e - 1) :: real) \<le> 2 powi (k - 54)" using ek by (intro power_int_increasing) auto
    finally show ?thesis .
  qed
  have m1: "0 \<le> m1" using n0 d by (simp add: m1_def pos_imp_zdiv_nonneg_iff)
  define m x where "m = (if m1 = 2 ^ 53 then 2 ^ 52 else m1)" and "x = (if m1 = 2 ^ 53 then e + 1 else e)"
  have mx: "real_of_int m * 2 powi x = real_of_int m1 * 2 powi e" "0 \<le> m" "x \<le> k - 52"
    using m1 ek by (auto simp: m_def x_def power_int_add)
  have rr: "round_ratio neg num den = (if m = 0 then FFinite neg 0 0 else if 971 < x then FInf neg else FFinite neg (nat m) x)"
    unfolding round_ratio_def Let_def e0_def [symmetric] lg_def [symmetric] e_def [symmetric] n_def [symmetric] d_def [symmetric]
      m1_def [symmetric] m_def x_def
    using assms(1) by (cases "m1 = 2 ^ 53") simp_all
  show ?thesis
  proof (cases "m = 0")
    case True
    with rr err mx(1) show ?thesis by (intro that [of 0 0]) auto
  next
    case False
    with rr err mx assms(5) show ?thesis by (intro that [of "nat m" x]) auto
  qed
qed

end
