(* ===== verification/Vk_Operations.thy ===== *)
theory Vk_Operations
  imports Vk_Probe Vk_Rounding
begin

section \<open>Values of operations\<close>

text \<open>
  The module-level functions of \<^verbatim>\<open>runtime.py\<close> that read the input of an operation and write its result:
  base64url text of raw values, timestamps, versions and selectors. Shown: raw values travel through
  the text form without loss and only their canonical spelling is accepted.
\<close>

subsection \<open>Strict base64\<close>

text \<open>
  \<^verbatim>\<open>base64.b64decode(s, altchars=b"-_", validate=True)\<close>: the two characters of the URL alphabet are
  translated, then \<^verbatim>\<open>binascii.a2b_base64\<close> runs in strict mode. The state of its loop is the position in
  the quad, the bits left over, the pads seen in the quad and whether padding has started.
\<close>

definition b64_translate :: "char \<Rightarrow> char" where
  "b64_translate c = (if c = CHR ''-'' then CHR ''+'' else if c = CHR ''_'' then CHR ''/'' else c)"

definition b64_table :: "char \<Rightarrow> nat option" where
  "b64_table c = (let n = of_char c in
     if 65 \<le> n \<and> n \<le> 90 then Some (n - 65) else if 97 \<le> n \<and> n \<le> 122 then Some (n - 71)
     else if 48 \<le> n \<and> n \<le> 57 then Some (n + 4) else if n = 43 then Some 62 else if n = 47 then Some 63 else None)"

definition b64_error :: exn where
  "b64_error = ValueError ''binascii.Error''"

fun a2b_loop :: "nat \<Rightarrow> nat \<Rightarrow> nat \<Rightarrow> bool \<Rightarrow> string \<Rightarrow> nat list res" where
  "a2b_loop quad_pos leftchar pads started [] = (if quad_pos = 0 then Inr [] else Inl b64_error)"
| "a2b_loop quad_pos leftchar pads started (c # cs) =
     (if c = CHR ''='' then
        (if 2 \<le> quad_pos \<and> 4 \<le> quad_pos + (pads + 1) then (if cs \<noteq> [] then Inl b64_error else Inr [])
         else a2b_loop quad_pos leftchar (if 2 \<le> quad_pos then pads + 1 else pads) True cs)
      else (case b64_table c of
        None \<Rightarrow> Inl b64_error
      | Some v \<Rightarrow>
          if started then Inl b64_error
          else if quad_pos = 0 then a2b_loop 1 v 0 started cs
          else if quad_pos = 1 then bindE (a2b_loop 2 (v mod 16) 0 started cs) (\<lambda>r. Inr ((leftchar * 4 + v div 16) # r))
          else if quad_pos = 2 then bindE (a2b_loop 3 (v mod 4) 0 started cs) (\<lambda>r. Inr ((leftchar * 16 + v div 4) # r))
          else bindE (a2b_loop 0 0 0 started cs) (\<lambda>r. Inr ((leftchar * 64 + v) # r))))"

definition a2b_base64_strict :: "bytes \<Rightarrow> bytes res" where
  "a2b_base64_strict s =
     (if s \<noteq> [] \<and> hd s = CHR ''='' then Inl b64_error
      else bindE (a2b_loop 0 0 0 False s) (\<lambda>r. Inr (map char_of r)))"

definition b64decode_url :: "string \<Rightarrow> bytes res" where
  "b64decode_url s =
     (if is_ascii s then a2b_base64_strict (map b64_translate s)
      else Inl (ValueError ''string argument should contain only ASCII characters''))"

subsection \<open>Timestamps\<close>

text \<open>\<^verbatim>\<open>n / 1000\<close> of an integer, which raises when the quotient is too large for a double.\<close>

definition div_1000 :: "int \<Rightarrow> pyfloat res" where
  "div_1000 n = (case seconds_of_ms n of FInf _ \<Rightarrow> Inl OverflowError | f \<Rightarrow> Inr f)"

text \<open>The nearest integer, ties to even, of a finite double.\<close>

definition round_half_even :: "nat \<Rightarrow> int \<Rightarrow> int" where
  "round_half_even m e =
     (if 0 \<le> e then int m * 2 ^ nat e
      else let d = 2 ^ nat (- e); q = int m div d; r = int m mod d in
        if d < 2 * r \<or> (2 * r = d \<and> odd q) then q + 1 else q)"

text \<open>
  The whole seconds and the microseconds of a timestamp, as the \<^verbatim>\<open>datetime\<close> module takes them from a
  double: the fraction is multiplied by a million in floating point and rounded half to even.
\<close>

definition timeval_of :: "pyfloat \<Rightarrow> (int \<times> int) res" where
  "timeval_of f = (case f of
     FFinite neg m e \<Rightarrow>
       (let sgn = (if neg then - 1 else 1 :: int);
            whole = sgn * (if 0 \<le> e then int m * 2 ^ nat e else int m div 2 ^ nat (- e));
            us = (if 0 \<le> e then 0 else
              (case round_ratio False (int m mod 2 ^ nat (- e) * 1000000) (2 ^ nat (- e)) of
                 FFinite _ m' e' \<Rightarrow> sgn * round_half_even m' e' | _ \<Rightarrow> 0));
            (whole, us) = (if 1000000 \<le> us then (whole + 1, us - 1000000) else if us < 0 then (whole - 1, us + 1000000) else (whole, us))
        in if - (2 ^ 63) \<le> whole \<and> whole < 2 ^ 63 then Inr (whole, us) else Inl OverflowError)
   | FInf _ \<Rightarrow> Inl OverflowError
   | FNan \<Rightarrow> Inl (ValueError ''Invalid value NaN (not a number)''))"

text \<open>The date of a day counted from 1970-01-01 in the proleptic Gregorian calendar.\<close>

definition civil_of_days :: "int \<Rightarrow> int \<times> int \<times> int" where
  "civil_of_days days =
     (let z = days + 719468; era = z div 146097; doe = z mod 146097;
          yoe = (doe - doe div 1460 + doe div 36524 - doe div 146096) div 365;
          doy = doe - (365 * yoe + yoe div 4 - yoe div 100);
          mp = (5 * doy + 2) div 153;
          month = (if mp < 10 then mp + 3 else mp - 9)
      in (yoe + era * 400 + (if month \<le> 2 then 1 else 0), month, doy - (153 * mp + 2) div 5 + 1))"

definition pad :: "nat \<Rightarrow> int \<Rightarrow> string" where
  "pad k n = replicate (k - length (show_int n)) CHR ''0'' @ show_int n"

text \<open>
  \<^verbatim>\<open>datetime.fromtimestamp(value / 1000, tz=UTC).strftime("%Y-%m-%dT%H:%M:%S.%fZ")\<close>. The year of \<^verbatim>\<open>gmtime\<close>
  is a C integer, and a \<^verbatim>\<open>datetime\<close> has a year between 1 and 9999; the year is printed unpadded.
\<close>

definition timestamp :: "int \<Rightarrow> string res" where
  "timestamp ms =
     bindE (div_1000 ms) (\<lambda>f.
     bindE (timeval_of f) (\<lambda>(secs, us).
     let (year, month, day) = civil_of_days (secs div 86400); t = secs mod 86400 in
     if \<not> (- (2 ^ 31) \<le> year - 1900 \<and> year - 1900 < 2 ^ 31) then Inl (OtherError ''OSError'')
     else if \<not> (1 \<le> year \<and> year \<le> 9999) then Inl (ValueError ''year is out of range'')
     else Inr (show_int year @ ''-'' @ pad 2 month @ ''-'' @ pad 2 day @ ''T'' @ pad 2 (t div 3600) @ '':'' @
       pad 2 (t div 60 mod 60) @ '':'' @ pad 2 (t mod 60) @ ''.'' @ pad 6 us @ ''Z'')))"

subsection \<open>Entries\<close>

definition validation :: "string \<Rightarrow> string \<Rightarrow> exn" where
  "validation code msg = meridian ValidationErrorC code msg []"

text \<open>The text form of a raw value.\<close>

definition b64url_text :: "bytes \<Rightarrow> string" where
  "b64url_text b = rstrip_eq (urlsafe_b64encode b)"

definition entry :: "decoded_envelope option \<Rightarrow> pyval res" where
  "entry envelope = (case envelope of
     None \<Rightarrow> Inl (validation ''INTERNAL'' ''Cache entry envelope is absent'')
   | Some d \<Rightarrow>
       (let (v, value_encoding) = (case de_value d of
              PBytes b \<Rightarrow> (PStr (b64url_text b), PStr ''base64url'')
            | _ \<Rightarrow> (de_value d, PNone)) in
        bindE (timestamp (de_created_at_ms d)) (\<lambda>created.
        bindE (timestamp (de_expires_at_ms d)) (\<lambda>expires.
        Inr (PDict [
          (PStr ''value'', v),
          (PStr ''valueEncoding'', value_encoding),
          (PStr ''serializerId'', PStr (de_serializer_id d)),
          (PStr ''schemaFingerprint'', PStr (de_schema_fingerprint d)),
          (PStr ''sourceVersion'', de_source_version d),
          (PStr ''createdAt'', PStr created),
          (PStr ''expiresAt'', PStr expires),
          (PStr ''payloadDigest'', PStr (de_payload_digest d)),
          (PStr ''version'', PStr (de_envelope_version d))])))))"

subsection \<open>Inputs\<close>

definition operation_value :: "'s valkey_cache \<Rightarrow> resource_ref \<Rightarrow> pyval \<Rightarrow> pyval res" where
  "operation_value vc ref v =
     bindE (policy_for (vc_settings vc) (rr_str ref)) (\<lambda>policy.
     if rp_serializer_id policy \<noteq> SERIALIZER_RAW_BYTES then Inr v
     else (case v of
       PStr s \<Rightarrow>
         bindE (catchE (b64decode_url (s @ replicate ((4 - code_points s mod 4) mod 4) CHR ''=''))
           is_ValueError (\<lambda>_. Inl (EnvelopeError ''raw-byte Cache value is not valid base64url''))) (\<lambda>decoded.
         if b64url_text decoded \<noteq> s then Inl (EnvelopeError ''raw-byte Cache value is not canonical unpadded base64url'')
         else Inr (PBytes decoded))
     | _ \<Rightarrow> Inl (EnvelopeError ''raw-byte Cache values must be unpadded base64url strings'')))"

definition optional_int :: "pyval \<Rightarrow> string \<Rightarrow> pyval res" where
  "optional_int v field_name = (case v of
     PNone \<Rightarrow> Inr PNone
   | PInt i \<Rightarrow> if i \<le> 0 then Inl (validation ''OPERATION_INVALID'' (field_name @ '' must be positive'')) else Inr (PInt i)
   | _ \<Rightarrow> Inl (validation ''OPERATION_INVALID'' (field_name @ '' must be positive'')))"

definition source_version :: "pyval \<Rightarrow> pyval res" where
  "source_version v = (case v of
     PNone \<Rightarrow> Inr PNone
   | PStr s \<Rightarrow> Inr (PStr s)
   | PInt i \<Rightarrow> Inr (PInt i)
   | _ \<Rightarrow> Inl (validation ''OPERATION_INVALID'' ''sourceVersion must be a string or integer''))"

definition required_version :: "pyval \<Rightarrow> pyval res" where
  "required_version v =
     bindE (source_version v) (\<lambda>result.
     if result = PNone then Inl (validation ''OPERATION_INVALID'' ''expectedVersion is required'') else Inr result)"

text \<open>\<^verbatim>\<open>m[k]\<close>\<close>

definition dict_item :: "mapping \<Rightarrow> string \<Rightarrow> pyval res" where
  "dict_item m k = (case map_of m (PStr k) of Some v \<Rightarrow> Inr v | None \<Rightarrow> Inl (KeyError k))"

definition invalidation_keys :: "pyval \<Rightarrow> int \<Rightarrow> pyval list res" where
  "invalidation_keys v maximum = (case v of
     PDict kvs \<Rightarrow>
       if set (map fst kvs) = {PStr ''key''} then bindE (dict_item kvs ''key'') (\<lambda>key. Inr [key])
       else if set (map fst kvs) = {PStr ''keys''} then
         bindE (dict_item kvs ''keys'') (\<lambda>raw.
         case seq_items raw of
           None \<Rightarrow> Inl (validation ''OPERATION_INVALID'' ''invalidate selector keys must be an array'')
         | Some items \<Rightarrow>
             if items = [] \<or> maximum < int (length items)
             then Inl (validation ''OPERATION_INVALID'' ''invalidate selector exceeds the configured exact-key bound'')
             else Inr items)
       else Inl (validation ''OPERATION_INVALID''
         ''invalidate supports exactly one key or one bounded keys array; scans are forbidden'')
   | _ \<Rightarrow> Inl (validation ''OPERATION_INVALID'' ''invalidate selector must be an object''))"


subsection \<open>Raw values travel without loss\<close>

lemma b64_table_char [simp]: "n < 64 \<Longrightarrow> b64_table (b64_translate (b64_char n)) = Some n"
proof -
  assume "n < 64"
  then consider "n < 26" | "26 \<le> n" "n < 52" | "52 \<le> n" "n < 62" | "n = 62" | "n = 63" by linarith
  then show ?thesis
    by cases (auto simp: b64_char_def b64_translate_def b64_table_def Let_def char_of_eq_iff take_bit_eq_mod)
qed

lemma b64_translate_eq [simp]: "b64_translate c = CHR ''='' \<longleftrightarrow> c = CHR ''=''"
  by (simp add: b64_translate_def)

lemma b64_translate_pad [simp]: "b64_translate CHR ''='' = CHR ''=''"
  by (simp add: b64_translate_def)

text \<open>Reading the groups of the encoder gives the bytes back.\<close>

lemma a2b_loop_groups: "\<forall>x \<in> set xs. x < 256 \<Longrightarrow> a2b_loop 0 0 0 False (map b64_translate (b64_groups xs)) = Inr xs"
proof (induction xs rule: b64_groups.induct)
  case (2 a)
  then show ?case by simp
next
  case (3 a b)
  then have "a < 256" "b < 256" by auto
  then show ?case by (simp del: div_mult_self3 mod_mult_self3)
next
  case (4 a b c r)
  then have "a < 256" "b < 256" "c < 256" by auto
  with 4 show ?case by (simp del: div_mult_self3 mod_mult_self3)
qed simp

lemma b64_groups_padded:
  "b64_groups xs = b64_unpadded xs @ replicate ((4 - length (b64_unpadded xs) mod 4) mod 4) CHR ''=''"
proof (induction xs rule: b64_groups.induct)
  case (4 a b c r)
  then show ?case by simp
qed (simp_all add: numeral_2_eq_2)

lemma b64_groups_start: "\<forall>x \<in> set xs. x < 256 \<Longrightarrow> b64_groups xs \<noteq> [] \<Longrightarrow> hd (b64_groups xs) \<noteq> CHR ''=''"
  by (cases xs rule: b64_groups.cases) auto

lemma is_ascii_b64url: "list_all is_b64url s \<Longrightarrow> is_ascii s"
  by (auto simp: is_ascii_def list_all_iff is_b64url_def Let_def)

lemma code_points_ascii: "is_ascii s \<Longrightarrow> code_points s = length s"
  by (induction s) (auto simp: code_points_def is_ascii_def utf8_cont_def)

lemma b64url_text_unpadded: "b64url_text b = b64_unpadded (map of_char b)"
  by (simp add: b64url_text_def rstrip_urlsafe_b64encode)

lemma b64url_text_ascii: "is_ascii (b64url_text b)"
  unfolding b64url_text_unpadded by (intro is_ascii_b64url b64_unpadded_url) simp

lemma b64url_text_inj: "b64url_text a = b64url_text b \<longleftrightarrow> a = b"
  using b64_unpadded_inj by (auto simp: b64url_text_unpadded)

lemma b64decode_url_text:
  "b64decode_url (b64url_text b @ replicate ((4 - code_points (b64url_text b) mod 4) mod 4) CHR ''='') = Inr b"
proof -
  have bytes: "\<forall>x \<in> set (map of_char b). x < (256 :: nat)" by simp
  have padded: "b64url_text b @ replicate ((4 - code_points (b64url_text b) mod 4) mod 4) CHR ''='' = b64_groups (map of_char b)"
    by (simp only: b64_groups_padded [of "map of_char b"] code_points_ascii [OF b64url_text_ascii]) (simp only: b64url_text_unpadded)
  have "is_ascii (b64_groups (map of_char b))"
    using b64url_text_ascii [of b] by (simp add: padded [symmetric]) (simp add: is_ascii_def list_all_iff)
  moreover have "\<not> (map b64_translate (b64_groups (map of_char b)) \<noteq> [] \<and> hd (map b64_translate (b64_groups (map of_char b))) = CHR ''='')"
    using b64_groups_start [OF bytes] by (cases "b64_groups (map of_char b) :: string") auto
  ultimately show ?thesis
    unfolding padded by (simp add: b64decode_url_def a2b_base64_strict_def a2b_loop_groups [OF bytes] comp_def)
qed

lemma b64decode_url_only: "onlyE is_ValueError (b64decode_url s)"
proof -
  have "onlyE is_ValueError (a2b_loop q l p st cs)" for q l p st cs
    by (induction q l p st cs rule: a2b_loop.induct) (auto simp: b64_error_def intro!: only_intros split: option.splits)
  then show ?thesis
    by (auto simp: b64decode_url_def a2b_base64_strict_def b64_error_def intro!: only_intros)
qed

text \<open>
  C37: raw values and their text are in bijection. For a resource of raw bytes an operation accepts as
  its value exactly the unpadded URL-safe base64 texts the adapter writes into entries, one text
  for every byte string, and takes the bytes the text stands for; everything else, padded text,
  the other alphabet, loose trailing bits or a value that is no string, is refused with an envelope
  error.
\<close>

theorem raw_value_round_trip:
  assumes "policy_for (vc_settings vc) (rr_str ref) = Inr policy" "rp_serializer_id policy = SERIALIZER_RAW_BYTES"
  shows "(operation_value vc ref v = Inr x \<longleftrightarrow> (\<exists>b. v = PStr (b64url_text b) \<and> x = PBytes b)) \<and>
    (operation_value vc ref v = Inl e \<longrightarrow> is_EnvelopeError e)"
proof (cases v)
  case (PStr s)
  have iff: "operation_value vc ref v = Inr x \<longleftrightarrow> (\<exists>b. s = b64url_text b \<and> x = PBytes b)"
    using assms b64decode_url_text by (auto simp: operation_value_def PStr res_simps)
  have "is_EnvelopeError e" if "operation_value vc ref v = Inl e"
    using that assms onlyE_D [OF b64decode_url_only]
    by (auto simp: operation_value_def PStr res_simps catchE_def split: if_splits sum.splits)
  with iff PStr show ?thesis by simp
qed (use assms in \<open>simp_all add: operation_value_def, auto?\<close>)

subsection \<open>Timestamps are exact\<close>

lemma round_half_even_error: "\<bar>real_of_int (round_half_even m e) - real m * 2 powi e\<bar> \<le> 1 / 2"
proof (cases "0 \<le> e")
  case True
  then show ?thesis by (simp add: round_half_even_def power_int_def)
next
  case False
  have "real m / real_of_int (2 ^ nat (- e)) = real m * 2 powi e" using False by (simp add: power_int_def field_simps)
  with nearest_error [of "2 ^ nat (- e)" "int m"] False show ?thesis
    by (simp add: round_half_even_def Let_def)
qed

lemma seconds_and_micros:
  assumes "whole * 1000000 + us = ms * 1000" "0 \<le> us" "us \<le> (1000000 :: int)"
  shows "(if 1000000 \<le> us then (whole + 1, us - 1000000) else (whole, us)) = (ms div 1000, ms mod 1000 * 1000)"
proof (cases "1000000 \<le> us")
  case True
  with assms have "ms = (whole + 1) * 1000" "us = 1000000" by simp_all
  then show ?thesis by simp
next
  case False
  with assms have "ms div 1000 = whole" by linarith
  moreover from this have "ms mod 1000 = ms - whole * 1000" by (simp add: minus_div_mult_eq_mod [symmetric])
  ultimately show ?thesis using assms False by simp
qed

lemma timeval_exact:
  assumes "0 \<le> ms" "ms < 2 ^ 33 * 1000"
  shows "\<exists>f. div_1000 ms = Inr f \<and> timeval_of f = Inr (ms div 1000, ms mod 1000 * 1000)"
proof (cases "ms = 0")
  case True
  then show ?thesis by (simp add: div_1000_def seconds_of_ms_def round_ratio_def timeval_of_def)
next
  case False
  have lt: "real_of_int ms / real_of_int 1000 < 2 powi 33" using assms by (simp add: power_int_def)
  obtain m x where f: "round_ratio False ms 1000 = FFinite False m x" and x: "m \<noteq> 0 \<Longrightarrow> x \<le> - 19"
    and err: "\<bar>real m * 2 powi x - real_of_int ms / 1000\<bar> \<le> 2 powi (- 21)"
    by (rule round_ratio_error [of ms 1000 33 False]) (use lt assms False in auto)
  have "1 / 1000 \<le> real_of_int ms / 1000" using assms False by simp
  moreover have "2 powi (- 21) < (1 / 1000 :: real)" by (simp add: power_int_def power_one_over)
  ultimately have "0 < real m * 2 powi x" using err by linarith
  then have m: "m \<noteq> 0" by (intro notI) simp
  define D where "D = (2 :: int) ^ nat (- x)"
  have D: "0 < D" "real m * 2 powi x = real_of_int (int m) / real_of_int D"
    using x [OF m] by (simp_all add: D_def power_int_def field_simps)
  let ?whole = "int m div D" and ?fr = "int m mod D"
  let ?p = "real_of_int (?fr * 1000000) / real_of_int D"
  have "real_of_int (int m) = real_of_int ?whole * real_of_int D + real_of_int ?fr"
    by (metis div_mult_mod_eq of_int_add of_int_mult)
  then have split: "real_of_int (int m) / real_of_int D = real_of_int ?whole + real_of_int ?fr / real_of_int D"
    using D(1) by (simp add: field_simps)
  have fr: "0 \<le> ?fr" "?fr < D" using D(1) by simp_all
  then have p: "0 \<le> ?p" "?p < 1000000" using D(1) by (simp_all add: field_simps)
  obtain m' x' where p': "round_ratio False (?fr * 1000000) D = FFinite False m' x'"
    "\<bar>real m' * 2 powi x' - ?p\<bar> \<le> 2 powi (- 34)"
  proof (cases "?fr = 0")
    case True
    then show ?thesis by (intro that [of 0 0]) (simp_all add: round_ratio_def)
  next
    case False
    with fr have "0 < ?fr * 1000000" by simp
    moreover have "?p < 2 powi 20" using p by (simp add: power_int_def)
    ultimately show ?thesis
      by (rule round_ratio_error [of "?fr * 1000000" D 20 False, OF _ D(1)]) (use that in auto)
  qed
  let ?us = "round_half_even m' x'"
  have us: "\<bar>real_of_int ?us - real m' * 2 powi x'\<bar> \<le> 1 / 2" by (rule round_half_even_error)
  have whole: "\<bar>real_of_int ?whole * 1000000 + ?p - real_of_int ms * 1000\<bar> \<le> 1000000 * 2 powi (- 21)"
  proof -
    have "real_of_int ?whole * 1000000 + ?p - real_of_int ms * 1000 = 1000000 * (real m * 2 powi x - real_of_int ms / 1000)"
      unfolding D(2) split by (simp add: algebra_simps)
    with mult_left_mono [OF err, of 1000000] show ?thesis by (simp only: abs_mult) simp
  qed
  have tiny: "1 / 2 + 2 powi (- 34) + 1000000 * 2 powi (- 21) < (1 :: real)" by (simp add: power_int_def power_one_over)
  have "\<bar>real_of_int ?whole * 1000000 + real_of_int ?us - real_of_int ms * 1000\<bar> < 1"
    using us p'(2) whole tiny by linarith
  then have total: "?whole * 1000000 + ?us = ms * 1000" by linarith
  have small: "0 \<le> 1000000 * (2 powi (- 21) :: real)" by simp
  have "- 1 < real_of_int ?us" "real_of_int ?us < 1000001"
    using us p'(2) p tiny small by linarith+
  then have range: "0 \<le> ?us" "?us \<le> 1000000" by linarith+
  have "int m div D < 2 ^ 63" "- (2 ^ 63) \<le> int m div D" "int m div D + 1 < 2 ^ 63"
    using total range assms by simp_all
  then have "timeval_of (FFinite False m x) = Inr (if 1000000 \<le> ?us then (?whole + 1, ?us - 1000000) else (?whole, ?us))"
    using x [OF m] p'(1) range(1) by (simp add: timeval_of_def D_def [symmetric] Let_def)
  also have "(if 1000000 \<le> ?us then (?whole + 1, ?us - 1000000) else (?whole, ?us)) = (ms div 1000, ms mod 1000 * 1000)"
    using total range by (rule seconds_and_micros)
  finally show ?thesis using assms by (simp add: div_1000_def seconds_of_ms_def f)
qed


lemma civil_year: "0 \<le> days \<Longrightarrow> days \<le> 2000000 \<Longrightarrow> civil_of_days days = (year, month, day) \<Longrightarrow> 1600 \<le> year \<and> year \<le> 9999"
proof -
  assume days: "0 \<le> days" "days \<le> 2000000" and c: "civil_of_days days = (year, month, day)"
  define z where "z = days + 719468"
  define doe where "doe = z mod 146097"
  define yoe where "yoe = (doe - doe div 1460 + doe div 36524 - doe div 146096) div 365"
  have doe: "0 \<le> doe" "doe \<le> 146096" by (simp_all add: doe_def pos_mod_bound [of 146097 z, simplified])
  define a b c' where "a = doe div 1460" and "b = doe div 36524" and "c' = doe div 146096"
  have "a * 1460 \<le> doe" "0 \<le> a" "0 \<le> b" "b \<le> 4" "0 \<le> c'" "c' * 146096 \<le> doe"
    using doe by (simp_all add: a_def b_def c'_def pos_imp_zdiv_nonneg_iff) (linarith+)?
  then have "0 \<le> doe - a + b - c'" "doe - a + b - c' \<le> 146100" using doe by linarith+
  then have "0 \<le> yoe" "yoe \<le> 401" unfolding yoe_def a_def [symmetric] b_def [symmetric] c'_def [symmetric] by simp_all
  moreover have "4 \<le> z div 146097" "z div 146097 \<le> 18" using days by (simp_all add: z_def)
  moreover have "\<exists>m. fst (civil_of_days days) = yoe + z div 146097 * 400 + (if m \<le> (2 :: int) then 1 else 0)"
    unfolding civil_of_days_def Let_def fst_conv z_def [symmetric] doe_def [symmetric] yoe_def [symmetric] by (rule exI, rule refl)
  then have "yoe + z div 146097 * 400 \<le> year" "year \<le> yoe + z div 146097 * 400 + 1" by (auto simp only: c fst_conv split: if_splits)
  ultimately show ?thesis by linarith
qed

text \<open>The calendar time of a number of milliseconds, in integers only.\<close>

definition iso_of_ms :: "int \<Rightarrow> string" where
  "iso_of_ms ms =
     (let (year, month, day) = civil_of_days (ms div 86400000); t = ms div 1000 mod 86400 in
      show_int year @ ''-'' @ pad 2 month @ ''-'' @ pad 2 day @ ''T'' @ pad 2 (t div 3600) @ '':'' @ pad 2 (t div 60 mod 60) @ '':'' @
        pad 2 (t mod 60) @ ''.'' @ pad 6 (ms mod 1000 * 1000) @ ''Z'')"

lemma timestamp_to_2242:
  assumes "0 \<le> ms" "ms < 2 ^ 33 * 1000"
  shows "timestamp ms = Inr (iso_of_ms ms)"
proof -
  obtain f where f: "div_1000 ms = Inr f" "timeval_of f = Inr (ms div 1000, ms mod 1000 * 1000)"
    using timeval_exact [OF assms] by blast
  have days: "ms div 1000 div 86400 = ms div 86400000" by (simp add: zdiv_zmult2_eq [symmetric])
  obtain year month day where c: "civil_of_days (ms div 86400000) = (year, month, day)" by (cases "civil_of_days (ms div 86400000)") auto
  have "1600 \<le> year \<and> year \<le> 9999" by (rule civil_year [OF _ _ c]) (use assms in simp_all)
  then show ?thesis by (simp add: timestamp_def f days c iso_of_ms_def Let_def)
qed

text \<open>
  C39: the timestamps of an entry are exact as long as double precision allows. From 1970 until the year
  2242, the text that the adapter prints for a number of milliseconds, through a division in
  floating point and the rounding of its fraction to microseconds, is the calendar time of exactly
  that many milliseconds, and printing it never raises.
\<close>

theorem timestamp_exact:
  assumes "0 \<le> ms" "ms < 2 ^ 33 * 1000"
  shows "timestamp ms = Inr (iso_of_ms ms)"
  using assms by (rule timestamp_to_2242)

lemma digit_chars: "map digit_char [0, 1, 2, 3, 4, 5, 6, 7, 8, 9] = ''0123456789''"
  by code_simp

lemmas show_numeral = show_nat.simps [of "numeral k" for k] show_nat.simps [of 0] show_nat.simps [of "Suc 0"]


theorem timestamp_exact_witness: "timestamp 1700000000123 = Inr ''2023-11-14T22:13:20.123000Z''"
proof -
  have day: "civil_of_days 19675 = (2023, 11, 14)" by code_simp
  have "iso_of_ms 1700000000123 = ''2023-11-14T22:13:20.123000Z''"
    using digit_chars by (simp add: iso_of_ms_def day pad_def show_int_def show_numeral)
  with timestamp_exact [of 1700000000123] show ?thesis by simp
qed

subsection \<open>Examples\<close>

definition raw_settings :: valkey_settings where
  "raw_settings = sample_settings\<lparr>resources := [(''cache/users'', sample_policy\<lparr>rp_serializer_id := SERIALIZER_RAW_BYTES\<rparr>)]\<rparr>"

theorem raw_value_round_trip_witness:
  "operation_value (fake_cache (sample_encoder 1) sample_codec raw_settings 10) sample_ref (PStr ''-_8'') = Inr (PBytes [CHR 0xFB, CHR 0xFF])"
proof -
  let ?vc = "fake_cache (sample_encoder 1) sample_codec raw_settings 10"
  have p: "policy_for (vc_settings ?vc) (rr_str sample_ref) = Inr (sample_policy\<lparr>rp_serializer_id := SERIALIZER_RAW_BYTES\<rparr>)"
    by (simp add: policy_for_def raw_settings_def sample_ref_def)
  have "b64url_text [CHR 0xFB, CHR 0xFF] = ''-_8''"
    by code_simp
  with raw_value_round_trip [OF p, of "PStr ''-_8''" "PBytes [CHR 0xFB, CHR 0xFF]"] show ?thesis by auto
qed

end
