(* ===== verification/Vk_Session.thy ===== *)
theory Vk_Session
  imports Vk_Operations Vk_Cache_Safety
begin

section \<open>Sessions\<close>

text \<open>
  \<^verbatim>\<open>ValkeyAdapterSession\<close> of \<^verbatim>\<open>runtime.py\<close>: the dispatch of an operation to the cache, the shape of its
  result, the translation of what the cache raises, and the bound on the result. Requests,
  operations and results are records of the attributes of the core classes the session reads or
  writes.
\<close>

subsection \<open>Requests and results\<close>

record operation =
  op_catalog :: string
  op_operation_contract :: string
  op_operation_version :: string
  op_resources :: "resource_ref list"
  op_input :: mapping

record execution_request =
  er_binding_id :: string
  er_operation :: operation
  er_context :: op_context
  er_request_id :: "string option"
  er_execution_id :: "string option"

record execution_result =
  xr_data :: pyval
  xr_result_bytes :: nat
  xr_provenance :: "(string \<times> string) list"

record 's session =
  vs_cache :: "'s valkey_cache"
  vs_binding_id :: string
  vs_max_result_bytes :: int
  vs_closed :: bool

definition ValkeyAdapterSession :: "'s valkey_cache \<Rightarrow> string \<Rightarrow> int \<Rightarrow> 's session" where
  "ValkeyAdapterSession vc binding_id max_result_bytes =
     \<lparr>vs_cache = vc, vs_binding_id = binding_id, vs_max_result_bytes = max_result_bytes, vs_closed = False\<rparr>"

subsection \<open>Transactions\<close>

definition session_begin :: "('s, unit) py" where
  "session_begin = raiseM (validation ''CAPABILITY_UNSUPPORTED'' ''Valkey Cache sessions are non-transactional'')"

definition session_commit :: "('s, unit) py" where
  "session_commit = raiseM (validation ''CAPABILITY_UNSUPPORTED'' ''Valkey Cache sessions cannot commit'')"

definition session_rollback :: "('s, unit) py" where
  "session_rollback = raiseM (validation ''CAPABILITY_UNSUPPORTED'' ''Valkey Cache sessions cannot roll back'')"

definition session_close :: "'s session \<Rightarrow> 's session" where
  "session_close ses = ses\<lparr>vs_closed := True\<rparr>"

subsection \<open>Operations\<close>

definition validate_operation :: "operation \<Rightarrow> unit res" where
  "validate_operation operation =
     (if op_catalog operation \<noteq> ''cache'' \<or> op_operation_version operation \<noteq> OPERATION_VERSION \<or>
         length (op_resources operation) \<noteq> 1 \<or>
         op_operation_contract operation \<notin> set [GET_CONTRACT, PUT_CONTRACT, PUT_IF_ABSENT_CONTRACT, COMPARE_AND_SET_CONTRACT,
           DELETE_CONTRACT, INVALIDATE_CONTRACT]
      then Inl (meridian ValidationErrorC ''CAPABILITY_UNSUPPORTED''
        ''Valkey accepts only one-Resource Cache data-plane Operations at V1''
        [(''operation_contract'', PStr (op_operation_contract operation))])
      else Inr ())"

text \<open>The branches of \<^verbatim>\<open>execute\<close>: each gives the data and the outcome of the provenance.\<close>

definition execute_get ::
    "lib \<Rightarrow> 's valkey_cache \<Rightarrow> op_context \<Rightarrow> resource_ref \<Rightarrow> mapping \<Rightarrow> ('s world, pyval \<times> string) py" where
  "execute_get L vc context ref input =
     catchM
       (bindM (liftM (dict_item input ''key'')) (\<lambda>key.
        bindM (lookup L vc context ref key) (\<lambda>found.
        bindM (if cl_hit found
            then bindM (liftM (entry (cl_envelope found))) (\<lambda>e. returnM (PDict [(PStr ''hit'', PBool True), (PStr ''entry'', e)]))
            else returnM (PDict [(PStr ''hit'', PBool False)])) (\<lambda>data.
        returnM (data, if cl_hit found then ''hit'' else ''miss'')))))
       is_ValkeyError
       (\<lambda>_. returnM (PDict [(PStr ''hit'', PBool False), (PStr ''degraded'', PBool True)], ''unavailable-miss''))"

definition execute_put ::
    "lib \<Rightarrow> 's valkey_cache \<Rightarrow> op_context \<Rightarrow> resource_ref \<Rightarrow> mapping \<Rightarrow> ('s world, pyval \<times> string) py" where
  "execute_put L vc context ref input =
     bindM (liftM (dict_item input ''key'')) (\<lambda>key.
     bindM (liftM (dict_item input ''value'')) (\<lambda>v.
     bindM (liftM (operation_value vc ref v)) (\<lambda>v.
     bindM (liftM (optional_int (dict_get input ''ttlMs'' PNone) ''ttlMs'')) (\<lambda>requested.
     bindM (liftM (source_version (dict_get input ''sourceVersion'' PNone))) (\<lambda>source.
     bindM (put L vc context ref key v requested source) (\<lambda>envelope.
     bindM (liftM (entry (Some envelope))) (\<lambda>e.
     returnM (PDict [(PStr ''stored'', PBool True), (PStr ''entry'', e)], ''stored''))))))))"

definition execute_put_if_absent ::
    "lib \<Rightarrow> 's valkey_cache \<Rightarrow> op_context \<Rightarrow> resource_ref \<Rightarrow> mapping \<Rightarrow> ('s world, pyval \<times> string) py" where
  "execute_put_if_absent L vc context ref input =
     bindM (liftM (dict_item input ''key'')) (\<lambda>key.
     bindM (liftM (dict_item input ''value'')) (\<lambda>v.
     bindM (liftM (operation_value vc ref v)) (\<lambda>v.
     bindM (liftM (optional_int (dict_get input ''ttlMs'' PNone) ''ttlMs'')) (\<lambda>requested.
     bindM (liftM (source_version (dict_get input ''sourceVersion'' PNone))) (\<lambda>source.
     bindM (put_if_absent L vc context ref key v requested source) (\<lambda>(stored, envelope).
     bindM (if stored then liftM (entry (Some envelope)) else returnM PNone) (\<lambda>e.
     returnM (PDict [(PStr ''stored'', PBool stored), (PStr ''entry'', e)], if stored then ''stored'' else ''conflict''))))))))"

definition execute_compare_and_set ::
    "lib \<Rightarrow> 's valkey_cache \<Rightarrow> op_context \<Rightarrow> resource_ref \<Rightarrow> mapping \<Rightarrow> ('s world, pyval \<times> string) py" where
  "execute_compare_and_set L vc context ref input =
     bindM (liftM (required_version (dict_get input ''expectedVersion'' PNone))) (\<lambda>expected.
     bindM (liftM (dict_item input ''key'')) (\<lambda>key.
     bindM (liftM (dict_item input ''value'')) (\<lambda>v.
     bindM (liftM (operation_value vc ref v)) (\<lambda>v.
     bindM (liftM (optional_int (dict_get input ''ttlMs'' PNone) ''ttlMs'')) (\<lambda>requested.
     bindM (compare_and_set L vc context ref key expected v requested) (\<lambda>(result, envelope).
     bindM (case envelope of None \<Rightarrow> returnM PNone | Some d \<Rightarrow> liftM (entry (Some d))) (\<lambda>e.
     returnM (PDict [(PStr ''swapped'', PBool (swapped result)), (PStr ''missing'', PBool (missing result)),
         (PStr ''corrupt'', PBool (corrupted result)), (PStr ''entry'', e)],
       if swapped result then ''swapped'' else ''conflict''))))))))"

definition execute_delete ::
    "lib \<Rightarrow> 's valkey_cache \<Rightarrow> op_context \<Rightarrow> resource_ref \<Rightarrow> mapping \<Rightarrow> ('s world, pyval \<times> string) py" where
  "execute_delete L vc context ref input =
     bindM (liftM (dict_item input ''key'')) (\<lambda>key.
     bindM (delete L vc context ref key) (\<lambda>deleted.
     returnM (PDict [(PStr ''deleted'', PBool deleted)], if deleted then ''deleted'' else ''miss'')))"

definition execute_invalidate ::
    "lib \<Rightarrow> 's valkey_cache \<Rightarrow> op_context \<Rightarrow> resource_ref \<Rightarrow> mapping \<Rightarrow> ('s world, pyval \<times> string) py" where
  "execute_invalidate L vc context ref input =
     bindM (liftM (dict_item input ''selector'')) (\<lambda>selector.
     bindM (liftM (invalidation_keys selector (max_batch_size (limits (vc_settings vc))))) (\<lambda>keys.
     bindM (mapM (delete L vc context ref) keys) (\<lambda>deleted.
     returnM (PDict [(PStr ''invalidated'', PInt (\<Sum>d\<leftarrow>deleted. of_bool d)), (PStr ''requested'', PInt (int (length keys)))],
       ''invalidated''))))"

definition dispatch ::
    "lib \<Rightarrow> 's valkey_cache \<Rightarrow> op_context \<Rightarrow> operation \<Rightarrow> resource_ref \<Rightarrow> ('s world, pyval \<times> string) py" where
  "dispatch L vc context operation ref =
     (let contract = op_operation_contract operation; input = op_input operation in
      if contract = GET_CONTRACT then execute_get L vc context ref input
      else if contract = PUT_CONTRACT then execute_put L vc context ref input
      else if contract = PUT_IF_ABSENT_CONTRACT then execute_put_if_absent L vc context ref input
      else if contract = COMPARE_AND_SET_CONTRACT then execute_compare_and_set L vc context ref input
      else if contract = DELETE_CONTRACT then execute_delete L vc context ref input
      else if contract = INVALIDATE_CONTRACT then execute_invalidate L vc context ref input
      else raiseM (meridian ValidationErrorC ''CAPABILITY_UNSUPPORTED'' ''Valkey does not advertise this Cache Operation''
        [(''operation_contract'', PStr contract)]))"

definition invalid_value :: "execution_request \<Rightarrow> string \<Rightarrow> exn" where
  "invalid_value request logical =
     meridian ValidationErrorC ''OPERATION_INVALID'' ''Cache value does not match the Binding serializer or size policy''
       [(''operation_contract'', PStr (op_operation_contract (er_operation request))),
        (''resource_ref'', PStr logical),
        (''request_id'', opt_str (er_request_id request)),
        (''execution_id'', opt_str (er_execution_id request))]"

text \<open>The \<^verbatim>\<open>except\<close> clauses around the dispatch.\<close>

definition guarded ::
    "execution_request \<Rightarrow> string \<Rightarrow> ('s, 'a) py \<Rightarrow> ('s, 'a) py" where
  "guarded request logical m =
     catchM m (\<lambda>e. is_ValkeyError e \<or> is_EnvelopeError e) (\<lambda>e. raiseM
       (if is_ValkeyError e
        then translate_engine_error e (Some (op_operation_contract (er_operation request))) (Some logical)
          (er_request_id request) (er_execution_id request)
        else invalid_value request logical))"

definition bounded_result ::
    "lib \<Rightarrow> core \<Rightarrow> 's session \<Rightarrow> pyval \<times> string \<Rightarrow> execution_result res" where
  "bounded_result L K ses = (\<lambda>(data, outcome).
     bindE (canonical_json_bytes L data) (\<lambda>b.
     if vs_max_result_bytes ses < int (length b)
     then Inl (validation ''OPERATION_RESULT_LIMIT'' ''normalized Cache result exceeds the Binding result limit'') else
     bindE (py_str K (PInt (namespace_generation (vc_settings (vs_cache ses))))) (\<lambda>generation.
     let provenance = [(''adapter'', ADAPTER_ID), (''consistency'', ''disposable-cache''),
       (''namespaceGeneration'', generation), (''cacheOutcome'', outcome)] in
     bindE (result_check K data (length b) provenance) (\<lambda>_.
     Inr \<lparr>xr_data = data, xr_result_bytes = length b, xr_provenance = provenance\<rparr>))))"

definition execute :: "lib \<Rightarrow> core \<Rightarrow> 's session \<Rightarrow> execution_request \<Rightarrow> ('s world, execution_result) py" where
  "execute L K ses request =
     (if vs_closed ses then raiseM (meridian LifecycleErrorC ''RUNTIME_CLOSED'' ''Valkey session is closed'' [])
      else if er_binding_id request \<noteq> vs_binding_id ses
      then raiseM (validation ''OPERATION_SCOPE'' ''request Binding does not match session'') else
      bindM (liftM (validate_operation (er_operation request))) (\<lambda>_.
      let ref = hd (op_resources (er_operation request)) in
      bindM (guarded request (rr_str ref) (dispatch L (vs_cache ses) (er_context request) (er_operation request) ref)) (\<lambda>r.
      liftM (bounded_result L K ses r))))"

subsection \<open>Accepted requests\<close>

text \<open>A well-formed request of a contract to a session.\<close>

definition cache_request ::
    "'s session \<Rightarrow> string \<Rightarrow> op_context \<Rightarrow> resource_ref \<Rightarrow> mapping \<Rightarrow> execution_request" where
  "cache_request ses contract context ref input = \<lparr>er_binding_id = vs_binding_id ses,
     er_operation = \<lparr>op_catalog = ''cache'', op_operation_contract = contract, op_operation_version = OPERATION_VERSION,
       op_resources = [ref], op_input = input\<rparr>,
     er_context = context, er_request_id = None, er_execution_id = None\<rparr>"

definition accepts :: "'s session \<Rightarrow> execution_request \<Rightarrow> bool" where
  "accepts ses request = (\<not> vs_closed ses \<and> er_binding_id request = vs_binding_id ses \<and> validate_operation (er_operation request) = Inr ())"

lemma cache_request_simps [simp]:
  "er_operation (cache_request ses contract context ref input) = \<lparr>op_catalog = ''cache'', op_operation_contract = contract,
     op_operation_version = OPERATION_VERSION, op_resources = [ref], op_input = input\<rparr>"
  "er_context (cache_request ses contract context ref input) = context"
  by (simp_all add: cache_request_def)

lemma accepts_cache_request:
  "accepts ses (cache_request ses contract context ref input) \<longleftrightarrow> \<not> vs_closed ses \<and> contract \<in> set DATA_PLANE_CONTRACTS"
  by (auto simp: accepts_def validate_operation_def cache_request_def DATA_PLANE_CONTRACTS_def)

lemma execute_accepted:
  "accepts ses request \<Longrightarrow> execute L K ses request =
     (let ref = hd (op_resources (er_operation request)) in
      bindM (guarded request (rr_str ref) (dispatch L (vs_cache ses) (er_context request) (er_operation request) ref)) (\<lambda>r.
      liftM (bounded_result L K ses r)))"
  by (simp add: execute_def accepts_def)

lemma execute_refused: "\<not> accepts ses request \<Longrightarrow> \<exists>m. \<forall>w. execute L K ses request w = (Inl (MeridianError m), w)"
  by (auto simp: execute_def accepts_def validate_operation_def validation_def meridian_def split: if_splits)

lemma guarded_eq_Inr [simp]: "guarded request logical m w = (Inr x, w') \<longleftrightarrow> m w = (Inr x, w')"
  by (auto simp: guarded_def catchM_def split: prod.splits sum.splits)

lemma guarded_Inr: "m w = (Inr x, w') \<Longrightarrow> guarded request logical m w = (Inr x, w')"
  by simp

lemma contracts_distinct [simp]:
  "PUT_CONTRACT \<noteq> GET_CONTRACT" "PUT_IF_ABSENT_CONTRACT \<noteq> GET_CONTRACT" "COMPARE_AND_SET_CONTRACT \<noteq> GET_CONTRACT"
  "DELETE_CONTRACT \<noteq> GET_CONTRACT" "INVALIDATE_CONTRACT \<noteq> GET_CONTRACT" "PUT_IF_ABSENT_CONTRACT \<noteq> PUT_CONTRACT"
  "COMPARE_AND_SET_CONTRACT \<noteq> PUT_CONTRACT" "DELETE_CONTRACT \<noteq> PUT_CONTRACT" "INVALIDATE_CONTRACT \<noteq> PUT_CONTRACT"
  "COMPARE_AND_SET_CONTRACT \<noteq> PUT_IF_ABSENT_CONTRACT" "DELETE_CONTRACT \<noteq> PUT_IF_ABSENT_CONTRACT"
  "INVALIDATE_CONTRACT \<noteq> PUT_IF_ABSENT_CONTRACT" "DELETE_CONTRACT \<noteq> COMPARE_AND_SET_CONTRACT"
  "INVALIDATE_CONTRACT \<noteq> COMPARE_AND_SET_CONTRACT" "INVALIDATE_CONTRACT \<noteq> DELETE_CONTRACT"
  by (simp_all add: contract_defs)

lemma contract_advertised [simp]:
  "GET_CONTRACT \<in> set DATA_PLANE_CONTRACTS" "PUT_CONTRACT \<in> set DATA_PLANE_CONTRACTS" "INVALIDATE_CONTRACT \<in> set DATA_PLANE_CONTRACTS"
  by (simp_all add: DATA_PLANE_CONTRACTS_def)

text \<open>
  C34: what is advertised is what is executed. An open session accepts a request for its binding exactly
  when it is a cache operation of the advertised version on one resource whose contract the manifest
  of any engine version and settings lists, and then the dispatch finds a branch for it; any other
  request raises a Meridian failure and leaves the state alone.
\<close>

theorem advertised_is_accepted:
  assumes "\<not> vs_closed ses" "er_binding_id request = vs_binding_id ses"
  shows "let operation = er_operation request; ref = hd (op_resources operation); vc = vs_cache ses in
    if op_catalog operation = ''cache'' \<and> op_operation_version operation = ''1.0.0'' \<and> length (op_resources operation) = 1 \<and>
       op_operation_contract operation \<in> set (mf_available_operation_contracts (manifest_of v s))
    then \<exists>f \<in> {execute_get, execute_put, execute_put_if_absent, execute_compare_and_set, execute_delete, execute_invalidate}.
      execute L K ses request = bindM (guarded request (rr_str ref) (f L vc (er_context request) ref (op_input operation)))
        (\<lambda>r. liftM (bounded_result L K ses r))
    else \<exists>m. \<forall>w. execute L K ses request w = (Inl (MeridianError m), w)"
proof (cases "accepts ses request")
  case True
  let ?op = "er_operation request"
  have ok: "op_catalog ?op = ''cache''" "op_operation_version ?op = ''1.0.0''" "length (op_resources ?op) = 1"
    "op_operation_contract ?op \<in> set DATA_PLANE_CONTRACTS"
    using True by (auto simp: accepts_def validate_operation_def OPERATION_VERSION_def DATA_PLANE_CONTRACTS_def split: if_splits)
  have "\<exists>f \<in> {execute_get, execute_put, execute_put_if_absent, execute_compare_and_set, execute_delete, execute_invalidate}.
      dispatch L (vs_cache ses) (er_context request) ?op ref = f L (vs_cache ses) (er_context request) ref (op_input ?op)" for ref
    using ok(4) by (auto simp: dispatch_def DATA_PLANE_CONTRACTS_def)
  then obtain f where f: "f \<in> {execute_get, execute_put, execute_put_if_absent, execute_compare_and_set, execute_delete, execute_invalidate}"
    "dispatch L (vs_cache ses) (er_context request) ?op (hd (op_resources ?op)) =
       f L (vs_cache ses) (er_context request) (hd (op_resources ?op)) (op_input ?op)" by blast
  show ?thesis
    unfolding Let_def using ok by (simp only: manifest_of_def manifest.simps simp_thms if_True)
      (intro bexI [OF _ f(1)], simp add: execute_accepted [OF True] Let_def f(2))
next
  case False
  with assms execute_refused [OF False] show ?thesis
    by (auto simp: accepts_def validate_operation_def OPERATION_VERSION_def DATA_PLANE_CONTRACTS_def manifest_of_def Let_def)
qed

subsection \<open>What a session raises\<close>

definition foreign :: "exn \<Rightarrow> bool" where
  "foreign e = (is_ValkeyError e \<or> is_EnvelopeError e)"

lemma foreign_simps [simp]:
  "\<not> foreign (meridian c code msg ds)" "\<not> foreign (validation code msg)" "\<not> foreign digits_error" "\<not> foreign (MeridianError m)"
  by (simp_all add: foreign_def meridian_def validation_def digits_error_def)

lemma translated_meridian: "\<exists>m. translate_engine_error e oc rr rq ex = MeridianError m"
  by (simp add: translate_engine_error_def meridian_def retryable_def Let_def)

lemma translated_not_foreign [simp]: "\<not> foreign (translate_engine_error e oc rr rq ex)" "\<not> foreign (invalid_value request logical)"
  using translated_meridian [of e oc rr rq ex] by (auto simp: invalid_value_def)

lemma guarded_raises:
  "m w = (Inl e, w') \<Longrightarrow> guarded request logical m w = (Inl
     (if is_ValkeyError e then translate_engine_error e (Some (op_operation_contract (er_operation request))) (Some logical)
        (er_request_id request) (er_execution_id request)
      else if is_EnvelopeError e then invalid_value request logical else e), w')"
  by (simp add: guarded_def catchM_def)

lemma guarded_not_foreign:
  assumes "guarded request logical m w = (Inl e, w')"
  shows "\<not> foreign e"
proof (cases "m w")
  case (Pair r w1)
  show ?thesis
  proof (cases r)
    case (Inl e1)
    with assms guarded_raises [of m w e1 w1 request logical] Pair have "e = (if is_ValkeyError e1
        then translate_engine_error e1 (Some (op_operation_contract (er_operation request))) (Some logical)
          (er_request_id request) (er_execution_id request)
        else if is_EnvelopeError e1 then invalid_value request logical else e1)" by simp
    then show ?thesis by (cases "foreign e1") (simp_all add: foreign_def [of e1])
  next
    case (Inr x)
    with Pair guarded_Inr [of m w x w1 request logical] assms show ?thesis by simp
  qed
qed

lemma bounded_result_not_foreign:
  assumes "\<And>d. onlyE (\<lambda>e. \<not> foreign e) (canonical_json_bytes L d)" "\<And>d n p. onlyE (\<lambda>e. \<not> foreign e) (result_check K d n p)"
  shows "onlyE (\<lambda>e. \<not> foreign e) (bounded_result L K ses r)"
  using assms by (cases r) (auto simp: bounded_result_def py_str_def Let_def intro!: only_intros)

text \<open>
  C17: nothing of the engine or the codec escapes a session. Whatever the client and the host do, an
  execution that raises does not raise an exception of the client library or of the envelope codec,
  provided the core's JSON writer and result class raise none. An engine failure of the dispatched
  operation is reported as its translation, with the contract, resource and identifiers of the
  request, an envelope error as an invalid operation; and an engine failure of the lookup behind a
  GET is no failure at all: the data say degraded miss.
\<close>

theorem execute_failures:
  assumes "\<And>d. onlyE (\<lambda>e. \<not> foreign e) (canonical_json_bytes L d)" "\<And>d n p. onlyE (\<lambda>e. \<not> foreign e) (result_check K d n p)"
    "accepts ses request" "op_resources (er_operation request) = [ref]"
    "dispatch L (vs_cache ses) (er_context request) (er_operation request) ref w = (r, w')"
  shows "(case r of
      Inr x \<Rightarrow> execute L K ses request w = (bounded_result L K ses x, w')
    | Inl e \<Rightarrow> execute L K ses request w = (Inl (if is_ValkeyError e then translate_engine_error e
          (Some (op_operation_contract (er_operation request))) (Some (rr_str ref)) (er_request_id request) (er_execution_id request)
        else if is_EnvelopeError e then invalid_value request (rr_str ref) else e), w')) \<and>
    (\<forall>e. fst (execute L K ses request w) = Inl e \<longrightarrow> \<not> is_ValkeyError e \<and> \<not> is_EnvelopeError e) \<and>
    (op_operation_contract (er_operation request) = GET_CONTRACT \<longrightarrow> (\<forall>k e. dict_item (op_input (er_operation request)) ''key'' = Inr k \<and>
      lookup L (vs_cache ses) (er_context request) ref k w = (Inl e, w') \<and> is_ValkeyError e \<longrightarrow>
      r = Inr (PDict [(PStr ''hit'', PBool False), (PStr ''degraded'', PBool True)], ''unavailable-miss'')))"
proof (intro conjI)
  note run = execute_accepted [OF assms(3), of L K, unfolded Let_def assms(4) list.sel]
  show outcome: "case r of
      Inr x \<Rightarrow> execute L K ses request w = (bounded_result L K ses x, w')
    | Inl e \<Rightarrow> execute L K ses request w = (Inl (if is_ValkeyError e then translate_engine_error e
          (Some (op_operation_contract (er_operation request))) (Some (rr_str ref)) (er_request_id request) (er_execution_id request)
        else if is_EnvelopeError e then invalid_value request (rr_str ref) else e), w')"
    using assms(5)
    by (cases r) (simp_all add: run bindM_def guarded_raises guarded_Inr)
  show "\<forall>e. fst (execute L K ses request w) = Inl e \<longrightarrow> \<not> is_ValkeyError e \<and> \<not> is_EnvelopeError e"
    using guarded_not_foreign bounded_result_not_foreign [OF assms(1,2)]
    by (fastforce simp: run bindM_def foreign_def onlyE_def split: prod.splits sum.splits)
  show "op_operation_contract (er_operation request) = GET_CONTRACT \<longrightarrow> (\<forall>k e. dict_item (op_input (er_operation request)) ''key'' = Inr k \<and>
      lookup L (vs_cache ses) (er_context request) ref k w = (Inl e, w') \<and> is_ValkeyError e \<longrightarrow>
      r = Inr (PDict [(PStr ''hit'', PBool False), (PStr ''degraded'', PBool True)], ''unavailable-miss''))"
    using assms(5) by (auto simp: dispatch_def execute_get_def bindM_def catchM_def)
qed

subsection \<open>Writing and reading through a session\<close>

text \<open>The data of an operation that returned, and what a GET answers.\<close>

lemma execute_put_run:
  assumes "\<not> vs_closed ses" "execute L K ses (cache_request ses PUT_CONTRACT context ref input) w = (Inr r, w1)"
  obtains k v x requested source d e where "dict_item input ''key'' = Inr k" "dict_item input ''value'' = Inr v"
    "operation_value (vs_cache ses) ref v = Inr x" "optional_int (dict_get input ''ttlMs'' PNone) ''ttlMs'' = Inr requested"
    "source_version (dict_get input ''sourceVersion'' PNone) = Inr source"
    "put L (vs_cache ses) context ref k x requested source w = (Inr d, w1)" "entry (Some d) = Inr e"
    "xr_data r = PDict [(PStr ''stored'', PBool True), (PStr ''entry'', e)]"
proof -
  have "accepts ses (cache_request ses PUT_CONTRACT context ref input)" using assms(1) by (simp add: accepts_cache_request)
  note run = execute_accepted [OF this, of L K, unfolded Let_def cache_request_simps operation.simps list.sel]
  from assms(2) obtain y where y: "execute_put L (vs_cache ses) context ref input w = (Inr y, w1)" "bounded_result L K ses y = Inr r"
    by (auto simp: run run_simps dispatch_def)
  obtain data outcome where p: "y = (data, outcome)" by (cases y)
  have "xr_data r = data" using y(2) by (auto simp: p bounded_result_def res_simps Let_def split: if_splits)
  with y(1) show ?thesis
    by (auto simp: p execute_put_def run_simps intro: that)
qed

lemma execute_get_run:
  assumes "\<not> vs_closed ses" "dict_item input ''key'' = Inr k" "lookup L (vs_cache ses) context ref k w = (Inr found, w')"
    "found = HIT d \<and> entry (Some d) = Inr e \<and> data = PDict [(PStr ''hit'', PBool True), (PStr ''entry'', e)] \<and> outcome = ''hit'' \<or>
     found = MISS \<and> data = PDict [(PStr ''hit'', PBool False)] \<and> outcome = ''miss''"
  shows "execute L K ses (cache_request ses GET_CONTRACT context ref input) w = (bounded_result L K ses (data, outcome), w')"
proof -
  have "accepts ses (cache_request ses GET_CONTRACT context ref input)" using assms(1) by (simp add: accepts_cache_request)
  note run = execute_accepted [OF this, of L K, unfolded Let_def cache_request_simps operation.simps list.sel]
  have "execute_get L (vs_cache ses) context ref input w = (Inr (data, outcome), w')"
    using assms(2-4) by (auto simp: execute_get_def bindM_def catchM_def)
  then show ?thesis by (simp add: run bindM_def guarded_Inr dispatch_def)
qed

lemma session_put_then_get:
  assumes "engine_contract (vc_client vc) (vc_host vc) good store loaded" "lawful_json L" "wf_settings (vc_settings vc)"
    "utf8_ok (rr_canonical ref)" "vs_cache ses = vc" "\<not> vs_closed ses"
    "dict_item input ''key'' = Inr k" "dict_item input' ''key'' = Inr k" "physical_key L vc context ref k PNone = Inr (key, policy)"
    "good (w_ext w)" "execute L K ses (cache_request ses PUT_CONTRACT context ref input) w = (Inr r, w1)"
    "good (w_ext w2)" "store (w_ext w2) = v_at t (store (w_ext w1))"
  shows "\<exists>v x requested ttl_ms d e w3. dict_item input ''value'' = Inr v \<and> operation_value vc ref v = Inr x \<and>
    optional_int (dict_get input ''ttlMs'' PNone) ''ttlMs'' = Inr requested \<and>
    effective_ttl_ms (vc_settings vc) policy requested (x = PNone \<and> rp_negative_caching policy) = Inr ttl_ms \<and>
    same_value L (rp_serializer_id policy) x (de_value d) \<and> entry (Some d) = Inr e \<and>
    xr_data r = PDict [(PStr ''stored'', PBool True), (PStr ''entry'', e)] \<and>
    execute L K ses (cache_request ses GET_CONTRACT context ref input') w2 =
      (bounded_result L K ses (if t < v_now (store (w_ext w)) + ttl_ms
         then (PDict [(PStr ''hit'', PBool True), (PStr ''entry'', e)], ''hit'') else (PDict [(PStr ''hit'', PBool False)], ''miss'')), w3)"
proof -
  obtain v x requested source d e where put: "dict_item input ''value'' = Inr v" "operation_value vc ref v = Inr x"
    "optional_int (dict_get input ''ttlMs'' PNone) ''ttlMs'' = Inr requested"
    "put L vc context ref k x requested source w = (Inr d, w1)" "entry (Some d) = Inr e"
    "xr_data r = PDict [(PStr ''stored'', PBool True), (PStr ''entry'', e)]"
    by (rule execute_put_run [OF assms(6,11)]) (use assms(5,7) in auto)
  obtain ttl_ms where ttl: "effective_ttl_ms (vc_settings vc) policy requested (x = PNone \<and> rp_negative_caching policy) = Inr ttl_ms"
    using put(4) by (auto simp: put_def assms(9) run_simps)
  let ?hit = "t < v_now (store (w_ext w)) + ttl_ms"
  from put_then_hit [OF assms(1-4,9) ttl assms(10) put(4) assms(12,13)] obtain w3 where
    look: "lookup L vc context ref k w2 = (Inr (if ?hit then HIT d else MISS), w3)"
    and same: "same_value L (rp_serializer_id policy) x (de_value d)" by blast
  have "execute L K ses (cache_request ses GET_CONTRACT context ref input') w2 =
      (bounded_result L K ses (if ?hit then (PDict [(PStr ''hit'', PBool True), (PStr ''entry'', e)], ''hit'')
         else (PDict [(PStr ''hit'', PBool False)], ''miss'')), w3)"
    using execute_get_run [OF assms(6,8), of L "context" ref w2 _ w3 d e] look put(5) assms(5) by (cases ?hit) simp_all
  with put ttl same show ?thesis by blast
qed

text \<open>
  C9: through a session, what a PUT stored a GET returns. On an engine that meets the contract, after a
  PUT operation that returned, a GET of the same key, resource and context at any later time
  answers with the very entry of the PUT's result until the TTL of the stored value ends and with a
  miss from then on, both subject only to the bound on results; the entry's envelope holds the
  value of the PUT's input.
\<close>

theorem put_then_get:
  assumes "engine_contract (vc_client vc) (vc_host vc) good store loaded" "lawful_json L" "wf_settings (vc_settings vc)"
    "utf8_ok (rr_canonical ref)" "vs_cache ses = vc" "\<not> vs_closed ses"
    "dict_item input ''key'' = Inr k" "dict_item input' ''key'' = Inr k" "physical_key L vc context ref k PNone = Inr (key, policy)"
    "good (w_ext w)" "execute L K ses (cache_request ses PUT_CONTRACT context ref input) w = (Inr r, w1)"
    "good (w_ext w2)" "store (w_ext w2) = v_at t (store (w_ext w1))"
  shows "\<exists>v x requested ttl_ms d e w3. dict_item input ''value'' = Inr v \<and> operation_value vc ref v = Inr x \<and>
    optional_int (dict_get input ''ttlMs'' PNone) ''ttlMs'' = Inr requested \<and>
    effective_ttl_ms (vc_settings vc) policy requested (x = PNone \<and> rp_negative_caching policy) = Inr ttl_ms \<and>
    same_value L (rp_serializer_id policy) x (de_value d) \<and> entry (Some d) = Inr e \<and>
    xr_data r = PDict [(PStr ''stored'', PBool True), (PStr ''entry'', e)] \<and>
    execute L K ses (cache_request ses GET_CONTRACT context ref input') w2 =
      (bounded_result L K ses (if t < v_now (store (w_ext w)) + ttl_ms
         then (PDict [(PStr ''hit'', PBool True), (PStr ''entry'', e)], ''hit'') else (PDict [(PStr ''hit'', PBool False)], ''miss'')), w3)"
  using session_put_then_get [OF assms] .

subsection \<open>Invalidation\<close>

lemma v_entries_deletes: "v_entries (fold v_del keys v) = (\<lambda>key. if key \<in> set keys then None else v_entries v key)"
  by (induction keys arbitrary: v) (auto simp: v_del_def fun_eq_iff)

lemma v_now_deletes: "v_now (fold v_del keys v) = v_now v"
  by (induction keys arbitrary: v) auto

context cache_contract
begin

lemma delete_rule:
  assumes "good (w_ext w)" "utf8_ok (rr_canonical ref)" "physical_key L vc context ref k PNone = Inr (key, policy)"
  obtains b w' where "delete L vc context ref k w = (Inr b, w')" "good (w_ext w')" "store (w_ext w') = v_del key (store (w_ext w))"
    "v_get (store (w_ext w)) key \<noteq> None \<longrightarrow> b"
proof -
  have "wpM (delete L vc context ref k) (\<lambda>b w'. good (w_ext w') \<and> store (w_ext w') = v_del key (store (w_ext w)) \<and>
      (v_get (store (w_ext w)) key \<noteq> None \<longrightarrow> b)) (\<lambda>_ _. False) w"
    unfolding delete_def assms(3) using assms(1,2) by (auto simp: wp_simps intro!: wp_cache)
  with that show ?thesis by (auto simp: wpM_def split: prod.splits sum.splits)
qed

lemma deletes_rule:
  assumes "list_all2 (\<lambda>k key. \<exists>policy. physical_key L vc context ref k PNone = Inr (key, policy)) ks keys"
    "good (w_ext w)" "utf8_ok (rr_canonical ref)" "distinct keys"
  shows "\<exists>bs w'. mapM (delete L vc context ref) ks w = (Inr bs, w') \<and> good (w_ext w') \<and>
    store (w_ext w') = fold v_del keys (store (w_ext w)) \<and> list_all2 (\<lambda>key b. v_get (store (w_ext w)) key \<noteq> None \<longrightarrow> b) keys bs"
  using assms
proof (induction ks keys arbitrary: w rule: list_all2_induct)
  case (Cons k ks key keys)
  then obtain policy where key: "physical_key L vc context ref k PNone = Inr (key, policy)" by blast
  obtain b w1 where d: "delete L vc context ref k w = (Inr b, w1)" "good (w_ext w1)" "store (w_ext w1) = v_del key (store (w_ext w))"
    "v_get (store (w_ext w)) key \<noteq> None \<longrightarrow> b"
    by (rule delete_rule [OF Cons.prems(1,2) key])
  from Cons.IH [OF d(2)] Cons.prems obtain bs w2 where
    r: "mapM (delete L vc context ref) ks w1 = (Inr bs, w2)" "good (w_ext w2)" "store (w_ext w2) = fold v_del keys (store (w_ext w1))"
    "list_all2 (\<lambda>key b. v_get (store (w_ext w1)) key \<noteq> None \<longrightarrow> b) keys bs" by auto
  have "list_all2 (\<lambda>key b. v_get (store (w_ext w)) key \<noteq> None \<longrightarrow> b) keys bs"
    by (rule list.rel_mono_strong [OF r(4)]) (use Cons.prems(3) in \<open>auto simp: d(3) split: if_splits\<close>)
  with d r show ?case by (simp add: bindM_def)
qed simp

end

lemma live_count:
  "list_all2 (\<lambda>key b. P key \<longrightarrow> b) keys bs \<Longrightarrow> length (filter P keys) \<le> nat (\<Sum>b\<leftarrow>bs. of_bool b) \<and>
    0 \<le> (\<Sum>b\<leftarrow>bs. of_bool b :: int) \<and> (\<Sum>b\<leftarrow>bs. of_bool b) \<le> int (length keys)"
  by (induction keys bs rule: list_all2_induct) auto

lemma selector_bound:
  "(if A then bindE x (\<lambda>key. Inr [key]) else if B then bindE y (\<lambda>raw. case seq_items raw of None \<Rightarrow> Inl e
     | Some items \<Rightarrow> if items = [] \<or> m < int (length items) then Inl e' else Inr items) else Inl e'') = Inr ks \<Longrightarrow>
   1 \<le> m \<Longrightarrow> ks \<noteq> [] \<and> int (length ks) \<le> m"
  by (cases A; cases B; cases x; cases y; cases "seq_items (projr y)") (simp_all split: if_split_asm, auto)

lemma invalidation_keys_bound:
  assumes "invalidation_keys selector maximum = Inr ks" "1 \<le> maximum"
  shows "ks \<noteq> [] \<and> int (length ks) \<le> maximum"
proof (cases selector)
  case (PDict kvs)
  show ?thesis by (rule selector_bound [OF assms(1) [unfolded invalidation_keys_def PDict pyval.case] assms(2)])
qed (use assms in \<open>simp_all add: invalidation_keys_def\<close>)

text \<open>
  C35: an INVALIDATE removes exactly what it selects, and no more than a batch. On an engine that meets the
  contract, an accepted selector of distinct keys names at least one and at most the configured
  number of keys; afterwards none of them has an entry, the entries of all other keys and the time are
  as before, and the result, subject to the bound on results, reports how many keys were requested and a number
  of removed entries no smaller than the entries that were live and no larger than the request.
\<close>

theorem invalidate_removes:
  assumes "engine_contract (vc_client vc) (vc_host vc) good store loaded" "wf_settings (vc_settings vc)"
    "utf8_ok (rr_canonical ref)" "vs_cache ses = vc" "\<not> vs_closed ses" "good (w_ext w)"
    "dict_item input ''selector'' = Inr selector"
    "invalidation_keys selector (max_batch_size (limits (vc_settings vc))) = Inr ks"
    "list_all2 (\<lambda>k key. \<exists>policy. physical_key L vc context ref k PNone = Inr (key, policy)) ks keys" "distinct keys"
  shows "\<exists>n w'. execute L K ses (cache_request ses INVALIDATE_CONTRACT context ref input) w =
      (bounded_result L K ses (PDict [(PStr ''invalidated'', PInt n), (PStr ''requested'', PInt (int (length ks)))], ''invalidated''), w') \<and>
    good (w_ext w') \<and> v_now (store (w_ext w')) = v_now (store (w_ext w)) \<and>
    v_entries (store (w_ext w')) = (\<lambda>key. if key \<in> set keys then None else v_entries (store (w_ext w)) key) \<and>
    length (filter (\<lambda>key. v_get (store (w_ext w)) key \<noteq> None) keys) \<le> nat n \<and> n \<le> int (length ks) \<and>
    ks \<noteq> [] \<and> int (length ks) \<le> max_batch_size (limits (vc_settings vc))"
proof -
  obtain bs w' where bs: "mapM (delete L vc context ref) ks w = (Inr bs, w')" "good (w_ext w')"
    "store (w_ext w') = fold v_del keys (store (w_ext w))" "list_all2 (\<lambda>key b. v_get (store (w_ext w)) key \<noteq> None \<longrightarrow> b) keys bs"
    using cache_contract.deletes_rule [OF cache_contract.intro [OF assms(1)] assms(9,6,3,10)] by blast
  let ?n = "\<Sum>b\<leftarrow>bs. of_bool b :: int"
  let ?data = "(PDict [(PStr ''invalidated'', PInt ?n), (PStr ''requested'', PInt (int (length ks)))], ''invalidated'')"
  have "1 \<le> max_batch_size (limits (vc_settings vc))" using assms(2) by (simp add: wf_settings_def wf_limits_def)
  note bound = invalidation_keys_bound [OF assms(8) this]
  have "execute_invalidate L vc context ref input w = (Inr ?data, w')"
    using assms(7,8) bs(1) by (simp add: execute_invalidate_def bindM_def)
  moreover have "accepts ses (cache_request ses INVALIDATE_CONTRACT context ref input)" using assms(5) by (simp add: accepts_cache_request)
  note run = execute_accepted [OF this, of L K, unfolded Let_def cache_request_simps operation.simps list.sel]
  ultimately have "execute L K ses (cache_request ses INVALIDATE_CONTRACT context ref input) w = (bounded_result L K ses ?data, w')"
    by (simp add: run bindM_def guarded_Inr dispatch_def assms(4))
  moreover have "length ks = length keys" using assms(9) by (rule list_all2_lengthD)
  ultimately show ?thesis
    using bs(2,3) live_count [OF bs(4)] bound by (auto simp: v_entries_deletes v_now_deletes)
qed

subsection \<open>Examples\<close>

definition sample_session :: "int \<Rightarrow> fake session" where
  "sample_session n = ValkeyAdapterSession sample_cache ''binding'' n"

definition sample_input :: mapping where
  "sample_input = [(PStr ''key'', PStr ''u1''), (PStr ''value'', PStr ''hello'')]"

lemma sample_session_simps [simp]:
  "vs_cache (sample_session n) = sample_cache" "\<not> vs_closed (sample_session n)" "vs_max_result_bytes (sample_session n) = n"
  by (simp_all add: sample_session_def ValkeyAdapterSession_def)

lemma sample_stamps:
  "timestamp 1700000000000 = Inr ''2023-11-14T22:13:20.000000Z''" "timestamp 1700000060000 = Inr ''2023-11-14T22:14:20.000000Z''"
proof -
  have zeros: "replicate 5 CHR ''0'' = ''00000''" by code_simp
  have "civil_of_days 19675 = (2023, 11, 14)" by code_simp
  then show "timestamp 1700000000000 = Inr ''2023-11-14T22:13:20.000000Z''" "timestamp 1700000060000 = Inr ''2023-11-14T22:14:20.000000Z''"
    using digit_chars by (simp_all add: timestamp_to_2242 iso_of_ms_def pad_def show_int_def show_numeral zeros)
qed

lemma sample_bounded:
  assumes "printable 100 data"
  obtains n r where "bounded_result ref_lib ref_core (sample_session n) (data, outcome) = Inr r" "xr_data r = data"
proof -
  obtain b where b: "canonical_json_bytes ref_lib data = Inr b" using ref_json_ok [OF assms] by (auto simp: ref_lib_def)
  have "\<exists>r. bounded_result ref_lib ref_core (sample_session (int (length b))) (data, outcome) = Inr r \<and> xr_data r = data"
    using b show_small_ok [of 1] by (simp add: bounded_result_def py_str_def Let_def sample_settings_def)
  with that show ?thesis by blast
qed

lemma fingerprint_utf8: "is_fingerprint s \<Longrightarrow> utf8_ok s"
  by (rule utf8_ok_ascii) (rule is_fingerprint_facts(2))

lemma sample_entry:
  assumes "spec_put ref_lib sample_cache sample_policy key (PStr ''hello'') 60000 PNone (fake_view FakeValkey) = (Inr d, v')"
  obtains e where "entry (Some d) = Inr e" "printable 99 e"
proof -
  have now: "v_now (fake_view FakeValkey) = 1700000000000" by simp
  obtain raw where raw: "encode_at ref_lib sample_codec (PStr ''hello'') SERIALIZER_CANONICAL_JSON (PStr sample_schema) (PInt 60000) PNone (PInt 1700000000000) = Inr raw"
    "decode_at ref_lib sample_codec raw (PStr sample_schema) None 1700000000000 = Inr d"
    by (rule spec_put_Inr [OF assms]) (simp add: now)
  from decode_at_encoded [OF lawful_ref_lib raw(1) sample_schema_ok, of None 1700000000000] raw(2) obtain w version payload where
    d: "d = \<lparr>de_value = w, de_serializer_id = SERIALIZER_CANONICAL_JSON, de_schema_fingerprint = sample_schema, de_source_version = PNone,
        de_created_at_ms = 1700000000000, de_expires_at_ms = 1700000060000, de_payload_digest = sha256_hex payload, de_envelope_version = version\<rparr>"
    and w: "same_value ref_lib SERIALIZER_CANONICAL_JSON (PStr ''hello'') w" by auto
  have "norm_json w = PStr ''hello''" using w by (simp add: same_value_def)
  then have w: "w = PStr ''hello''" using norm_scalar [of w] by simp
  have v: "is_fingerprint version" using decode_at_facts [OF raw(2)] unfolding d decoded_envelope.simps by (elim conjE)
  show ?thesis
    by (rule that) (use v in \<open>auto simp: entry_def d w sample_stamps Let_def fingerprint_utf8 SERIALIZER_CANONICAL_JSON_def\<close>)
qed

lemma sample_executed:
  obtains key d n r w1 where "physical_key ref_lib sample_cache sample_context sample_ref (PStr ''u1'') PNone = Inr (key, sample_policy)"
    "execute ref_lib ref_core (sample_session n) (cache_request (sample_session n) PUT_CONTRACT sample_context sample_ref sample_input) sample_world = (Inr r, w1)"
    "fake_good (w_ext w1)" "f_now_ms (w_ext w1) = 1700000000000"
proof -
  obtain key lkey d w1 where k: "physical_key ref_lib sample_cache sample_context sample_ref (PStr ''u1'') PNone = Inr (key, sample_policy)"
    and put: "put ref_lib sample_cache sample_context sample_ref (PStr ''u1'') (PStr ''hello'') PNone PNone sample_world = (Inr d, w1)"
      "fake_good (w_ext w1)"
    and sp: "spec_put ref_lib sample_cache sample_policy key (PStr ''hello'') 60000 PNone (fake_view FakeValkey) = (Inr d, fake_view (w_ext w1))"
    by (rule sample_put)
  have now: "f_now_ms (w_ext w1) = 1700000000000"
    using sp by (rule spec_put_Inr) (metis v_now_fake_view v_get_simps(3) sample_world_simps(3))
  obtain e where e: "entry (Some d) = Inr e" "printable 99 e" by (rule sample_entry [OF sp])
  let ?data = "PDict [(PStr ''stored'', PBool True), (PStr ''entry'', e)]"
  have "printable 100 ?data" using e(2) by simp
  then obtain n r where r: "bounded_result ref_lib ref_core (sample_session n) (?data, ''stored'') = Inr r" by (rule sample_bounded)
  have "operation_value sample_cache sample_ref (PStr ''hello'') = Inr (PStr ''hello'')"
    by (simp add: operation_value_def policy_for_def sample_settings_def sample_ref_def sample_policy_def SERIALIZER_RAW_BYTES_def)
  then have "execute_put ref_lib sample_cache sample_context sample_ref sample_input sample_world = (Inr (?data, ''stored''), w1)"
    using put(1) e(1) by (simp add: execute_put_def sample_input_def dict_item_def dict_get_def optional_int_def source_version_def bindM_def)
  moreover have "accepts (sample_session n) (cache_request (sample_session n) PUT_CONTRACT sample_context sample_ref sample_input)"
    by (simp add: accepts_cache_request)
  note run = execute_accepted [OF this, of ref_lib ref_core, unfolded Let_def cache_request_simps operation.simps list.sel]
  ultimately have "execute ref_lib ref_core (sample_session n) (cache_request (sample_session n) PUT_CONTRACT sample_context sample_ref sample_input) sample_world = (Inr r, w1)"
    using r by (simp add: run bindM_def guarded_Inr dispatch_def)
  with that k put(2) now show ?thesis by blast
qed

theorem put_then_get_witness:
  "\<exists>n r w1 e w3. execute ref_lib ref_core (sample_session n) (cache_request (sample_session n) PUT_CONTRACT sample_context sample_ref sample_input)
      sample_world = (Inr r, w1) \<and> xr_data r = PDict [(PStr ''stored'', PBool True), (PStr ''entry'', e)] \<and>
    execute ref_lib ref_core (sample_session n) (cache_request (sample_session n) GET_CONTRACT sample_context sample_ref sample_input)
      (w1\<lparr>w_ext := (w_ext w1)\<lparr>f_now_ms := 1700000059999\<rparr>\<rparr>) =
    (bounded_result ref_lib ref_core (sample_session n) (PDict [(PStr ''hit'', PBool True), (PStr ''entry'', e)], ''hit''), w3)"
proof -
  obtain key n r w1 where k: "physical_key ref_lib sample_cache sample_context sample_ref (PStr ''u1'') PNone = Inr (key, sample_policy)"
    and run: "execute ref_lib ref_core (sample_session n) (cache_request (sample_session n) PUT_CONTRACT sample_context sample_ref sample_input) sample_world = (Inr r, w1)"
    and good: "fake_good (w_ext w1)" and "f_now_ms (w_ext w1) = 1700000000000" by (rule sample_executed)
  then have t: "f_now_ms (w_ext w1) \<le> 1700000059999" by simp
  let ?w2 = "w1\<lparr>w_ext := (w_ext w1)\<lparr>f_now_ms := 1700000059999\<rparr>\<rparr>"
  have w2: "fake_good (w_ext ?w2)" "fake_view (w_ext ?w2) = v_at 1700000059999 (fake_view (w_ext w1))"
    using fake_advance [OF good t] by simp_all
  have input: "dict_item sample_input ''key'' = Inr (PStr ''u1'')" "dict_item sample_input ''value'' = Inr (PStr ''hello'')"
    "optional_int (dict_get sample_input ''ttlMs'' PNone) ''ttlMs'' = Inr PNone"
    "operation_value sample_cache sample_ref (PStr ''hello'') = Inr (PStr ''hello'')"
    by (simp_all add: sample_input_def dict_item_def dict_get_def optional_int_def operation_value_def policy_for_def sample_settings_def
        sample_ref_def sample_policy_def SERIALIZER_RAW_BYTES_def)
  have "wf_settings (vc_settings sample_cache)" "fake_good (w_ext sample_world)" by (simp_all add: wf_sample_settings)
  from put_then_get [OF sample_contract lawful_ref_lib this(1) sample_utf8 _ _ input(1) input(1) k this(2) run w2]
  show ?thesis using run by (simp add: input sample_ttl) blast
qed

theorem invalidate_removes_witness:
  "\<exists>n w' key. physical_key ref_lib sample_cache sample_context sample_ref (PStr ''u1'') PNone = Inr (key, sample_policy) \<and>
    execute ref_lib ref_core (sample_session 1000) (cache_request (sample_session 1000) INVALIDATE_CONTRACT sample_context sample_ref
      [(PStr ''selector'', PDict [(PStr ''keys'', PList [PStr ''u1''])])]) sample_world =
    (bounded_result ref_lib ref_core (sample_session 1000) (PDict [(PStr ''invalidated'', PInt n), (PStr ''requested'', PInt 1)], ''invalidated''), w') \<and>
    v_entries (fake_view (w_ext w')) key = None"
proof -
  obtain key lkey where k: "physical_key ref_lib sample_cache sample_context sample_ref (PStr ''u1'') PNone = Inr (key, sample_policy)"
    by (rule sample_physical_key [of "''u1''"]) simp
  have keys: "invalidation_keys (PDict [(PStr ''keys'', PList [PStr ''u1''])]) (max_batch_size (limits (vc_settings sample_cache))) = Inr [PStr ''u1'']"
    by (simp add: invalidation_keys_def dict_item_def sample_settings_def)
  have input: "dict_item [(PStr ''selector'', PDict [(PStr ''keys'', PList [PStr ''u1''])])] ''selector'' =
      Inr (PDict [(PStr ''keys'', PList [PStr ''u1''])])" by (simp add: dict_item_def)
  have "wf_settings (vc_settings sample_cache)" "fake_good (w_ext sample_world)" by (simp_all add: wf_sample_settings)
  from invalidate_removes [OF sample_contract this(1) sample_utf8 _ _ this(2) input keys, of "sample_session 1000" ref_lib sample_context "[key]" ref_core] k
  show ?thesis by fastforce
qed

theorem advertised_is_accepted_witness:
  "\<exists>m. execute ref_lib ref_core (sample_session 1000) (cache_request (sample_session 1000) ''meridian.cache.increment'' sample_context sample_ref [])
    sample_world = (Inl (MeridianError m), sample_world)"
  using advertised_is_accepted [of "sample_session 1000" "cache_request (sample_session 1000) ''meridian.cache.increment'' sample_context sample_ref []"
    "''8.1.9''" sample_settings ref_lib ref_core]
  by (auto simp: cache_request_def manifest_of_def DATA_PLANE_CONTRACTS_def contract_defs Let_def OPERATION_VERSION_def)

lemma ref_json_not_foreign: "onlyE (\<lambda>e. \<not> foreign e) (canonical_json_bytes ref_lib v)"
proof -
  have body: "onlyE (\<lambda>e. \<not> foreign e) (print_body inner v)" if "\<And>f v. inner = Some f \<Longrightarrow> onlyE (\<lambda>e. \<not> foreign e) (f v)" for inner v
    using that by (cases v) (auto simp: print_body_def foreign_def intro!: only_intros split: option.splits)
  have "onlyE (\<lambda>e. \<not> foreign e) (print_json n v)" for n v
  proof (induction n arbitrary: v)
    case (Suc n)
    show ?case unfolding print_json.simps by (rule body) (use Suc in auto)
  qed (simp, rule body, simp)
  then show ?thesis by (simp add: ref_lib_def ref_json_def)
qed

theorem execute_failures_witness:
  "execute ref_lib ref_core (sample_session 1000) (cache_request (sample_session 1000) GET_CONTRACT sample_context sample_ref []) sample_world =
     (Inl (KeyError ''key''), sample_world)"
  using execute_failures [OF ref_json_not_foreign, of ref_core "sample_session 1000"
      "cache_request (sample_session 1000) GET_CONTRACT sample_context sample_ref []" sample_ref sample_world "Inl (KeyError ''key'')" sample_world]
  by (simp add: accepts_cache_request onlyE_def dispatch_def execute_get_def dict_item_def catchM_def)

end
