(* ===== verification/Vk_Urlsplit.thy ===== *)
theory Vk_Urlsplit
  imports Vk_Operations
begin

section \<open>Splitting URLs\<close>

text \<open>
  What the adapter uses of the standard library to read an endpoint: \<^verbatim>\<open>urllib.parse.urlsplit\<close> with the
  \<^verbatim>\<open>username\<close>, \<^verbatim>\<open>password\<close>, \<^verbatim>\<open>hostname\<close> and \<^verbatim>\<open>port\<close> of its result, and the syntax of IPv6 addresses from
  \<^verbatim>\<open>ipaddress\<close> that a bracketed host must have. The Unicode tables (NFKC normalisation, lower case of
  other than ASCII letters) are parameters.
\<close>

record unicode =
  nfkc :: "string \<Rightarrow> string"
  lower_other :: "string \<Rightarrow> string"

subsection \<open>Text\<close>

text \<open>\<^verbatim>\<open>s.partition(c)\<close> and \<^verbatim>\<open>s.rpartition(c)\<close>, with whether the separator occurs.\<close>

definition partition_at :: "char \<Rightarrow> string \<Rightarrow> string \<times> bool \<times> string" where
  "partition_at c s = (takeWhile (\<lambda>x. x \<noteq> c) s, c \<in> set s, tl (dropWhile (\<lambda>x. x \<noteq> c) s))"

definition rpartition_at :: "char \<Rightarrow> string \<Rightarrow> string \<times> bool \<times> string" where
  "rpartition_at c s = (rev (tl (dropWhile (\<lambda>x. x \<noteq> c) (rev s))), c \<in> set s, rev (takeWhile (\<lambda>x. x \<noteq> c) (rev s)))"

fun split_on :: "char \<Rightarrow> string \<Rightarrow> string list" where
  "split_on c [] = [[]]"
| "split_on c (x # xs) = (if x = c then [] # split_on c xs
     else (case split_on c xs of [] \<Rightarrow> [[x]] | w # ws \<Rightarrow> (x # w) # ws))"

text \<open>\<^verbatim>\<open>s.lower()\<close>\<close>

definition lower :: "unicode \<Rightarrow> string \<Rightarrow> string" where
  "lower U s = (if is_ascii s then map lower_char s else lower_other U s)"

definition is_alpha :: "char \<Rightarrow> bool" where
  "is_alpha c = (let n = of_char c :: nat in (65 \<le> n \<and> n \<le> 90) \<or> (97 \<le> n \<and> n \<le> 122))"

definition is_scheme_char :: "char \<Rightarrow> bool" where
  "is_scheme_char c = (is_alpha c \<or> is_dec_digit c \<or> c \<in> set ''+-.'')"

subsection \<open>Addresses in brackets\<close>

definition ipv4_octet :: "string \<Rightarrow> bool" where
  "ipv4_octet s = (s \<noteq> [] \<and> list_all is_dec_digit s \<and> length s \<le> 3 \<and> (s = ''0'' \<or> hd s \<noteq> CHR ''0'') \<and> digits_val s \<le> 255)"

definition ipv4_ok :: "string \<Rightarrow> bool" where
  "ipv4_ok s = (let octets = split_on CHR ''.'' s in length octets = 4 \<and> list_all ipv4_octet octets)"

definition is_hex :: "char \<Rightarrow> bool" where
  "is_hex c = (hex_val c \<noteq> None)"

definition hextet_ok :: "string \<Rightarrow> bool" where
  "hextet_ok s = (list_all is_hex s \<and> s \<noteq> [] \<and> length s \<le> 4)"

text \<open>The parts between the colons of an IPv6 address; the number \<open>hi\<close> before and \<open>lo\<close> after a \<^verbatim>\<open>::\<close>.\<close>

definition ipv6_parts :: "string list \<Rightarrow> bool" where
  "ipv6_parts parts =
     (let n = length parts; gaps = filter (\<lambda>i. parts ! i = []) [1..<n - 1] in
      n \<le> 9 \<and>
      (case gaps of
         [i] \<Rightarrow>
           (let hi = (if hd parts = [] then i - 1 else i); lo = (if last parts = [] then n - i - 2 else n - i - 1) in
            (hd parts = [] \<longrightarrow> hi = 0) \<and> (last parts = [] \<longrightarrow> lo = 0) \<and> hi + lo < 8 \<and>
            list_all hextet_ok (take hi parts) \<and> list_all hextet_ok (drop (n - lo) parts))
       | [] \<Rightarrow> n = 8 \<and> list_all hextet_ok parts
       | _ \<Rightarrow> False))"

definition ipv6_ok :: "string \<Rightarrow> bool" where
  "ipv6_ok s =
     (case partition_at CHR ''%'' s of (addr, sep, scope) \<Rightarrow>
       CHR ''/'' \<notin> set s \<and> (sep \<longrightarrow> scope \<noteq> [] \<and> CHR ''%'' \<notin> set scope) \<and> addr \<noteq> [] \<and>
       (let parts = split_on CHR '':'' addr in
        3 \<le> length parts \<and>
        (if CHR ''.'' \<in> set (last parts) then ipv4_ok (last parts) \<and> ipv6_parts (butlast parts @ [''0'', ''0'']) else ipv6_parts parts)))"

text \<open>\<^verbatim>\<open>\Av[a-fA-F0-9]+\..+\Z\<close>, where a dot of the pattern matches all but a line feed.\<close>

definition ipvfuture_ok :: "string \<Rightarrow> bool" where
  "ipvfuture_ok s = (case s of
     c # cs \<Rightarrow> c = CHR ''v'' \<and> takeWhile is_hex cs \<noteq> [] \<and>
       (case dropWhile is_hex cs of d # rest \<Rightarrow> d = CHR ''.'' \<and> rest \<noteq> [] \<and> CHR 0x0A \<notin> set rest | [] \<Rightarrow> False)
   | [] \<Rightarrow> False)"

definition bracketed_host_ok :: "string \<Rightarrow> bool" where
  "bracketed_host_ok h = (if take 1 h = ''v'' then ipvfuture_ok h else ipv6_ok h)"

text \<open>\<^verbatim>\<open>_check_bracketed_netloc\<close>\<close>

definition bracketed_netloc_ok :: "string \<Rightarrow> bool" where
  "bracketed_netloc_ok netloc =
     (case rpartition_at CHR ''@'' netloc of (_, _, hostinfo) \<Rightarrow>
      case partition_at CHR ''['' hostinfo of (before, have_open, bracketed) \<Rightarrow>
        if have_open then
          (case partition_at CHR '']'' bracketed of (host, _, port) \<Rightarrow>
            before = [] \<and> (port = [] \<or> hd port = CHR '':'') \<and> bracketed_host_ok host)
        else (case partition_at CHR '':'' hostinfo of (host, _, _) \<Rightarrow> bracketed_host_ok host))"

text \<open>\<^verbatim>\<open>_checknetloc\<close>\<close>

definition netloc_ok :: "unicode \<Rightarrow> string \<Rightarrow> bool" where
  "netloc_ok U netloc =
     (is_ascii netloc \<or>
      (let n = filter (\<lambda>c. c \<notin> set ''@:#?'') netloc; m = nfkc U n in n = m \<or> list_all (\<lambda>c. c \<notin> set ''/?#@:'') m))"

subsection \<open>urlsplit\<close>

record split_result =
  sr_scheme :: string
  sr_netloc :: string
  sr_path :: string
  sr_query :: string
  sr_fragment :: string

definition url_clean :: "string \<Rightarrow> string" where
  "url_clean url = filter (\<lambda>c. c \<notin> {CHR 0x09, CHR 0x0D, CHR 0x0A}) (dropWhile (\<lambda>c. (of_char c :: nat) \<le> 32) url)"

definition split_scheme :: "string \<Rightarrow> string \<times> string" where
  "split_scheme url = (case partition_at CHR '':'' url of (s, colon, rest) \<Rightarrow>
     if colon \<and> s \<noteq> [] \<and> is_alpha (hd s) \<and> list_all is_scheme_char s then (map lower_char s, rest) else ([], url))"

definition urlsplit :: "unicode \<Rightarrow> string \<Rightarrow> split_result res" where
  "urlsplit U value =
     (let (scheme, url) = split_scheme (url_clean value);
          slashes = (take 2 url = ''//'');
          netloc = (if slashes then takeWhile (\<lambda>c. c \<notin> set ''/?#'') (drop 2 url) else []);
          url = (if slashes then dropWhile (\<lambda>c. c \<notin> set ''/?#'') (drop 2 url) else url) in
      if (CHR ''['' \<in> set netloc) \<noteq> (CHR '']'' \<in> set netloc) then Inl (ValueError ''Invalid IPv6 URL'')
      else if CHR ''['' \<in> set netloc \<and> \<not> bracketed_netloc_ok netloc then Inl (ValueError ''Invalid IPv6 URL'')
      else
        (let (url, _, fragment) = partition_at CHR ''#'' url; (url, _, query) = partition_at CHR ''?'' url in
         if \<not> netloc_ok U netloc then Inl (ValueError ''netloc contains invalid characters under NFKC normalization'')
         else Inr \<lparr>sr_scheme = scheme, sr_netloc = netloc, sr_path = url, sr_query = query, sr_fragment = fragment\<rparr>))"

text \<open>The attributes of the result.\<close>

definition has_userinfo :: "split_result \<Rightarrow> bool" where
  "has_userinfo r = (CHR ''@'' \<in> set (sr_netloc r))"

definition hostinfo :: "split_result \<Rightarrow> string \<times> string option" where
  "hostinfo r =
     (case rpartition_at CHR ''@'' (sr_netloc r) of (_, _, info) \<Rightarrow>
      case partition_at CHR ''['' info of (_, have_open, bracketed) \<Rightarrow>
      let (host, port) = (if have_open
          then (case partition_at CHR '']'' bracketed of (host, _, port) \<Rightarrow> (host, snd (snd (partition_at CHR '':'' port))))
          else (case partition_at CHR '':'' info of (host, _, port) \<Rightarrow> (host, port)))
      in (host, if port = [] then None else Some port))"

definition hostname :: "unicode \<Rightarrow> split_result \<Rightarrow> string option" where
  "hostname U r = (let host = fst (hostinfo r) in
     if host = [] then None
     else (case partition_at CHR ''%'' host of (h, sep, zone) \<Rightarrow> Some (lower U h @ (if sep then CHR ''%'' # zone else []))))"

definition port_of :: "split_result \<Rightarrow> int option res" where
  "port_of r = (case snd (hostinfo r) of
     None \<Rightarrow> Inr None
   | Some port \<Rightarrow>
       if \<not> list_all is_dec_digit port then Inl (ValueError ''Port could not be cast to integer value'')
       else bindE (py_int10 port) (\<lambda>n. if 0 \<le> n \<and> n \<le> 65535 then Inr (Some n) else Inl (ValueError ''Port out of range 0-65535'')))"

end
