(* ===== verification/Vk_Client.thy ===== *)
theory Vk_Client
  imports Vk_Urlsplit
begin

section \<open>Building the client\<close>

text \<open>
  The module \<^verbatim>\<open>client\<close>: endpoints, the handle that owns a client, and the construction of a client from
  a binding. \<^verbatim>\<open>Valkey\<close> and \<^verbatim>\<open>Sentinel\<close> of the client library, the service resolver, the address mapper
  and a client builder of the composition root are parameters.
\<close>

subsection \<open>The context of a creation\<close>

text \<open>
  What the adapter reads of \<^verbatim>\<open>AdapterCreateContext\<close> and its binding. A secret is represented by the bytes
  that \<^verbatim>\<open>reveal()\<close> returns.
\<close>

record binding =
  bd_id :: string
  bd_adapter_id :: string
  bd_engine_profile :: string
  bd_engine_version :: string
  bd_required_capability_fingerprint :: string
  bd_physical_namespace :: string
  bd_settings :: pyval
  bd_endpoint :: "string option"
  bd_service_ref :: "string option"
  bd_tls_mode :: string
  bd_tls_server_name :: "string option"
  bd_acquire_timeout_ms :: int
  bd_operation_timeout_ms :: int
  bd_idle_timeout_ms :: int
  bd_max_size :: int
  bd_max_result_bytes :: int

record create_context =
  cc_binding :: binding
  cc_identity :: bytes
  cc_credential :: bytes
  cc_tls_ca :: "bytes option"

type_synonym address = "string \<times> int"
type_synonym 's address_mapper = "address \<Rightarrow> ('s, address) py"
type_synonym 's service_resolver = "string \<Rightarrow> ('s, string list) py"

definition config_invalid :: "string \<Rightarrow> exn" where
  "config_invalid msg = meridian ConfigurationErrorC ''CONFIG_INVALID'' msg []"

subsection \<open>Endpoints\<close>

record endpoint =
  ep_host :: string
  ep_port :: int
  ep_tls :: bool

text \<open>The body of the \<^verbatim>\<open>try\<close> of \<^verbatim>\<open>parse_endpoint\<close>.\<close>

definition read_endpoint :: "unicode \<Rightarrow> string \<Rightarrow> endpoint res" where
  "read_endpoint U value =
     bindE (urlsplit U value) (\<lambda>parsed.
     if sr_scheme parsed \<notin> {''valkey'', ''valkeys''} then Inl (ValueError ''endpoint scheme must be valkey or valkeys'')
     else if has_userinfo parsed \<or> sr_query parsed \<noteq> [] \<or> sr_fragment parsed \<noteq> [] \<or> sr_path parsed \<notin> {'''', ''/''}
     then Inl (ValueError ''endpoint must not contain credentials, query, fragment, or path'')
     else (case hostname U parsed of
       None \<Rightarrow> Inl (ValueError ''endpoint requires a host'')
     | Some host \<Rightarrow>
         bindE (port_of parsed) (\<lambda>p.
         let port = (case p of Some n \<Rightarrow> if n = 0 then 6379 else n | None \<Rightarrow> 6379) in
         if \<not> (1 \<le> port \<and> port \<le> 65535) then Inl (ValueError ''endpoint port is invalid'')
         else Inr \<lparr>ep_host = host, ep_port = port, ep_tls = (sr_scheme parsed = ''valkeys'')\<rparr>)))"

definition parse_endpoint :: "unicode \<Rightarrow> string \<Rightarrow> endpoint res" where
  "parse_endpoint U value =
     catchE (read_endpoint U value) (\<lambda>e. is_TypeError e \<or> is_ValueError e)
       (\<lambda>_. Inl (config_invalid ''Valkey Binding endpoint is invalid''))"

definition resolved_endpoints ::
    "unicode \<Rightarrow> create_context \<Rightarrow> valkey_settings \<Rightarrow> 's service_resolver option \<Rightarrow> ('s, endpoint list) py" where
  "resolved_endpoints U context settings service_resolver =
     (let b = cc_binding context in
      bindM (case bd_endpoint b of
          Some e \<Rightarrow> returnM (e # seed_endpoints settings)
        | None \<Rightarrow>
            (case (bd_service_ref b, service_resolver) of
               (Some ref, Some resolve) \<Rightarrow> bindM (resolve ref) (\<lambda>vs. returnM (vs @ seed_endpoints settings))
             | _ \<Rightarrow> raiseM (config_invalid ''Valkey serviceRef requires a composition-root service resolver''))) (\<lambda>values.
      bindM (liftM (mapE (parse_endpoint U) values)) (\<lambda>endpoints.
      if endpoints = [] then raiseM (config_invalid ''Valkey requires at least one endpoint'')
      else if \<not> distinct endpoints then raiseM (config_invalid ''Valkey endpoints must be unique'')
      else returnM endpoints)))"

subsection \<open>The handle\<close>

record 's client_handle =
  ch_client :: "'s client"
  ch_closers :: "('s, unit) py list"

text \<open>Each attempt is made whatever the ones before it did; the failures are collected in order.\<close>

fun attempt_all :: "('s, unit) py list \<Rightarrow> ('s, exn list) py" where
  "attempt_all [] = returnM []"
| "attempt_all (m # ms) =
     bindM (catchM (bindM m (\<lambda>_. returnM [])) (\<lambda>_. True) (\<lambda>e. returnM [e])) (\<lambda>failed.
     bindM (attempt_all ms) (\<lambda>failures. returnM (failed @ failures)))"

definition handle_close :: "'s client_handle \<Rightarrow> ('s, unit) py" where
  "handle_close h =
     bindM (attempt_all (c_close (ch_client h) # ch_closers h)) (\<lambda>failures.
     case failures of [] \<Rightarrow> returnM () | e # _ \<Rightarrow> raiseM e)"

subsection \<open>Sentinel\<close>

text \<open>
  An object of the library's \<^verbatim>\<open>Sentinel\<close> class: its discovery, the client it makes for a master, and the
  closing of its own connections. \<^verbatim>\<open>master_for\<close> discovers through the methods of the object, which a
  subclass overrides, so it takes them as arguments.
\<close>

record 's sentinel =
  sn_discover_master :: "string \<Rightarrow> ('s, address) py"
  sn_discover_slaves :: "string \<Rightarrow> ('s, address list) py"
  sn_master_for :: "(string \<Rightarrow> ('s, address) py) \<Rightarrow> (string \<Rightarrow> ('s, address list) py) \<Rightarrow> string \<Rightarrow> int \<Rightarrow> ('s, 's client) py"
  sn_closers :: "('s, unit) py list"

definition remapped_master :: "'s sentinel \<Rightarrow> 's address_mapper option \<Rightarrow> string \<Rightarrow> ('s, address) py" where
  "remapped_master sn mapper service_name =
     bindM (sn_discover_master sn service_name) (\<lambda>address.
     case mapper of Some f \<Rightarrow> f address | None \<Rightarrow> returnM address)"

definition remapped_slaves :: "'s sentinel \<Rightarrow> 's address_mapper option \<Rightarrow> string \<Rightarrow> ('s, address list) py" where
  "remapped_slaves sn mapper service_name =
     bindM (sn_discover_slaves sn service_name) (\<lambda>addresses.
     case mapper of None \<Rightarrow> returnM addresses | Some f \<Rightarrow> mapM f addresses)"

type_synonym kwargs = "(string \<times> pyval) list"

text \<open>The constructors of the client library: \<^verbatim>\<open>Valkey(**kwargs)\<close> and \<^verbatim>\<open>Sentinel(addresses, ...)\<close>.\<close>

record 's driver =
  new_valkey :: "kwargs \<Rightarrow> ('s, 's client) py"
  new_sentinel :: "address list \<Rightarrow> int \<Rightarrow> kwargs \<Rightarrow> kwargs \<Rightarrow> ('s, 's sentinel) py"

subsection \<open>Construction\<close>

definition VERSION :: string where
  "VERSION = ''1.1.0''"

definition common_arguments :: "create_context \<Rightarrow> string \<Rightarrow> kwargs res" where
  "common_arguments context username =
     (let b = cc_binding context in
      bindE (div_1000 (bd_acquire_timeout_ms b)) (\<lambda>connect_timeout.
      bindE (div_1000 (bd_operation_timeout_ms b)) (\<lambda>socket_timeout.
      Inr [(''username'', PStr username),
        (''password'', PBytes (cc_credential context)),
        (''socket_connect_timeout'', PFloat connect_timeout),
        (''socket_timeout'', PFloat socket_timeout),
        (''health_check_interval'', PInt (max 1 (bd_idle_timeout_ms b div 1000))),
        (''max_connections'', PInt (bd_max_size b)),
        (''decode_responses'', PBool False),
        (''protocol'', PInt 2),
        (''client_name'', PStr (''meridian-storage-valkey/'' @ VERSION))])))"

definition tls_arguments :: "create_context \<Rightarrow> kwargs res" where
  "tls_arguments context =
     (case (cc_tls_ca context, bd_tls_server_name (cc_binding context)) of
        (Some ca, Some _) \<Rightarrow>
          bindE (catchE (utf8_decode ca) (\<lambda>e. e = UnicodeDecodeError)
            (\<lambda>_. Inl (config_invalid ''Valkey TLS CA material must be PEM UTF-8''))) (\<lambda>ca_data.
          Inr [(''ssl'', PBool True),
            (''ssl_ca_data'', PStr ca_data),
            (''ssl_cert_reqs'', PStr ''required''),
            (''ssl_check_hostname'', PBool True)])
      | _ \<Rightarrow> Inl (config_invalid ''server TLS requires resolved CA bytes and server name''))"

text \<open>The checks between the endpoints and the construction, and the keyword arguments they lead to.\<close>

definition connection_arguments :: "create_context \<Rightarrow> valkey_settings \<Rightarrow> endpoint list \<Rightarrow> kwargs res" where
  "connection_arguments context settings endpoints =
     (let mode = bd_tls_mode (cc_binding context); tls_required = (mode \<noteq> ''disabled'') in
      if list_ex (\<lambda>e. ep_tls e \<noteq> tls_required) endpoints
      then Inl (config_invalid ''Valkey endpoint scheme must match the Binding TLS policy'')
      else if \<not> tls_required \<and> \<not> allow_insecure_test_profile settings
      then Inl (config_invalid ''plaintext Valkey is restricted to the explicit isolated test profile'')
      else if mode = ''mutual''
      then Inl (config_invalid ''Valkey V1 supports authenticated server TLS, not mutual TLS materialization'')
      else
        bindE (catchE (utf8_decode (cc_identity context)) (\<lambda>e. e = UnicodeDecodeError)
          (\<lambda>_. Inl (config_invalid ''Valkey identity must be a UTF-8 ACL username''))) (\<lambda>username.
        bindE (common_arguments context username) (\<lambda>common.
        if tls_required then bindE (tls_arguments context) (\<lambda>tls. Inr (common @ tls)) else Inr common)))"

definition connect_sentinel ::
    "'s driver \<Rightarrow> valkey_settings \<Rightarrow> 's address_mapper option \<Rightarrow> endpoint list \<Rightarrow> kwargs \<Rightarrow> ('s, 's client_handle) py" where
  "connect_sentinel D settings mapper endpoints common =
     (case sentinel_master (topology settings) of
        None \<Rightarrow> raiseM (config_invalid ''Sentinel topology requires its deployment-owned master name'')
      | Some master_name \<Rightarrow>
          (let addresses = map (\<lambda>e. (ep_host e, ep_port e)) endpoints in
           bindM (new_sentinel D addresses (max 0 (int (length addresses) - 1)) common common) (\<lambda>sn.
           bindM (sn_master_for sn (remapped_master sn mapper) (remapped_slaves sn mapper) master_name (database settings)) (\<lambda>c.
           returnM \<lparr>ch_client = c, ch_closers = sn_closers sn\<rparr>))))"

definition connect_standalone ::
    "'s driver \<Rightarrow> valkey_settings \<Rightarrow> endpoint list \<Rightarrow> kwargs \<Rightarrow> ('s, 's client_handle) py" where
  "connect_standalone D settings endpoints common =
     (case endpoints of
        [e] \<Rightarrow>
          bindM (new_valkey D ([(''host'', PStr (ep_host e)), (''port'', PInt (ep_port e)), (''db'', PInt (database settings))] @ common)) (\<lambda>c.
          returnM \<lparr>ch_client = c, ch_closers = []\<rparr>)
      | _ \<Rightarrow> raiseM (config_invalid ''standalone Valkey accepts exactly one endpoint''))"

type_synonym 's client_builder = "create_context \<Rightarrow> valkey_settings \<Rightarrow> endpoint list \<Rightarrow> ('s, 's client) py"

definition create_client_handle ::
    "unicode \<Rightarrow> 's driver \<Rightarrow> create_context \<Rightarrow> valkey_settings \<Rightarrow> 's service_resolver option \<Rightarrow> 's client_builder option
      \<Rightarrow> 's address_mapper option \<Rightarrow> ('s, 's client_handle) py" where
  "create_client_handle U D context settings service_resolver client_builder mapper =
     bindM (resolved_endpoints U context settings service_resolver) (\<lambda>endpoints.
     case client_builder of
       Some build \<Rightarrow> bindM (build context settings endpoints) (\<lambda>c. returnM \<lparr>ch_client = c, ch_closers = []\<rparr>)
     | None \<Rightarrow>
         bindM (liftM (connection_arguments context settings endpoints)) (\<lambda>common.
         if topo_mode (topology settings) = TOPOLOGY_SENTINEL then connect_sentinel D settings mapper endpoints common
         else connect_standalone D settings endpoints common))"

subsection \<open>Closing\<close>

text \<open>The first failure of a sequence of actions that is run to its end.\<close>

fun first_failure :: "('s, unit) py list \<Rightarrow> 's \<Rightarrow> exn option" where
  "first_failure [] s = None"
| "first_failure (m # ms) s = (case m s of (Inl e, s') \<Rightarrow> Some e | (Inr _, s') \<Rightarrow> first_failure ms s')"

lemma attempt_all_run:
  "\<exists>failures. attempt_all ms s = (Inr failures, foldl (\<lambda>s m. snd (m s)) s ms) \<and>
    first_failure ms s = (case failures of [] \<Rightarrow> None | e # _ \<Rightarrow> Some e)"
proof (induction ms arbitrary: s)
  case (Cons m ms)
  obtain r s1 where m: "m s = (r, s1)" by (cases "m s")
  from Cons.IH [of s1] obtain failures where "attempt_all ms s1 = (Inr failures, foldl (\<lambda>s m. snd (m s)) s1 ms)"
    "first_failure ms s1 = (case failures of [] \<Rightarrow> None | e # _ \<Rightarrow> Some e)" by blast
  with m show ?case by (cases r) (auto simp: bindM_def catchM_def)
qed simp

text \<open>
  Closing a handle closes everything it owns. Whatever the client and the owned connections do, each
  of them is closed once, in order, also after a failure of an earlier one; the close returns if
  all of them returned, and raises the first failure otherwise.
\<close>

theorem handle_close_attempts_all:
  "handle_close h s =
     (case first_failure (c_close (ch_client h) # ch_closers h) s of None \<Rightarrow> Inr () | Some e \<Rightarrow> Inl e,
      foldl (\<lambda>s m. snd (m s)) s (c_close (ch_client h) # ch_closers h))"
proof -
  let ?all = "c_close (ch_client h) # ch_closers h"
  from attempt_all_run [of ?all s] obtain failures where f: "attempt_all ?all s = (Inr failures, foldl (\<lambda>s m. snd (m s)) s ?all)"
    "first_failure ?all s = (case failures of [] \<Rightarrow> None | e # _ \<Rightarrow> Some e)" by (elim exE conjE)
  have "handle_close h s = (case failures of [] \<Rightarrow> returnM () | e # _ \<Rightarrow> raiseM e) (foldl (\<lambda>s m. snd (m s)) s ?all)"
    unfolding handle_close_def bindM_def f(1) by simp
  then show ?thesis unfolding f(2) by (cases failures) simp_all
qed

subsection \<open>Reading endpoints\<close>

lemma partition_at_set: "partition_at c s = (a, b, d) \<Longrightarrow> set s \<subseteq> insert c (set a \<union> set d)"
  by (induction s arbitrary: a b d) (fastforce simp: partition_at_def split: if_splits)+

lemma partition_at_absent [simp]: "c \<notin> set s \<Longrightarrow> partition_at c s = (s, False, [])"
  by (induction s) (auto simp: partition_at_def)

lemma partition_at_Nil [simp]: "partition_at c [] = ([], False, [])"
  by simp

lemma partition_at_first [simp]: "c \<notin> set a \<Longrightarrow> partition_at c (a @ c # d) = (a, True, d)"
  by (induction a) (auto simp: partition_at_def)

lemma rpartition_at_absent [simp]: "c \<notin> set s \<Longrightarrow> rpartition_at c s = ([], False, s)"
proof -
  assume "c \<notin> set s"
  then have "takeWhile (\<lambda>x. x \<noteq> c) (rev s) = rev s" "dropWhile (\<lambda>x. x \<noteq> c) (rev s) = []"
    by (auto simp: takeWhile_eq_all_conv dropWhile_eq_Nil_conv)
  note eqs = this
  show ?thesis unfolding rpartition_at_def eqs using \<open>c \<notin> set s\<close> by simp
qed

text \<open>An endpoint written out, for hosts in the plain syntax of names and IPv4 addresses.\<close>

definition is_host_char :: "char \<Rightarrow> bool" where
  "is_host_char c = (let n = of_char c :: nat in (97 \<le> n \<and> n \<le> 122) \<or> (48 \<le> n \<and> n \<le> 57) \<or> n = 45 \<or> n = 46 \<or> n = 95)"

definition plain_host :: "string \<Rightarrow> bool" where
  "plain_host h = (h \<noteq> [] \<and> list_all is_host_char h)"

definition render_endpoint :: "endpoint \<Rightarrow> string" where
  "render_endpoint e = (if ep_tls e then ''valkeys://'' else ''valkey://'') @ ep_host e @ '':'' @ show_int (ep_port e)"

lemma host_char_facts:
  "is_host_char c \<Longrightarrow> c \<notin> set '':/?#@[]%'' \<and> of_char c < (128 :: nat) \<and> lower_char c = c \<and> 32 < (of_char c :: nat)"
  by (auto simp: is_host_char_def lower_char_def Let_def)

lemma not_host_char:
  "\<not> is_host_char CHR ''@''" "\<not> is_host_char CHR ''[''" "\<not> is_host_char CHR '':''" "\<not> is_host_char CHR ''%''"
  by (simp_all add: is_host_char_def)

lemma dec_host_char: "is_dec_digit c \<Longrightarrow> is_host_char c"
  by (simp add: is_dec_digit_def is_host_char_def Let_def)


lemma render_char: "plain_host h \<Longrightarrow> 0 \<le> n \<Longrightarrow> x \<in> set (h @ CHR '':'' # show_int n) \<Longrightarrow> x = CHR '':'' \<or> is_host_char x"
  using show_nat_digits [of "nat n"] by (auto simp: plain_host_def list_all_iff show_int_def dec_host_char)

lemma urlsplit_plain:
  assumes "split_scheme (url_clean value) = (s, ''//'' @ net)" "\<And>x. x \<in> set net \<Longrightarrow> x \<notin> set ''/?#@[]'' \<and> of_char x < (128 :: nat)"
  shows "urlsplit U value = Inr \<lparr>sr_scheme = s, sr_netloc = net, sr_path = [], sr_query = [], sr_fragment = []\<rparr>"
proof -
  have net: "takeWhile (\<lambda>c. c \<notin> set ''/?#'') net = net" "dropWhile (\<lambda>c. c \<notin> set ''/?#'') net = []"
    using assms(2) by (fastforce simp: takeWhile_eq_all_conv dropWhile_eq_Nil_conv)+
  have "CHR ''['' \<notin> set net" "CHR '']'' \<notin> set net" using assms(2) by fastforce+
  moreover have "netloc_ok U net" using assms(2) by (simp add: netloc_ok_def is_ascii_def list_all_iff)
  ultimately show ?thesis
    unfolding urlsplit_def assms(1) Let_def prod.case by (simp add: net del: list.set)
qed

lemma split_scheme_render:
  assumes "plain_host (ep_host e)" "0 \<le> ep_port e"
  shows "split_scheme (url_clean (render_endpoint e)) =
    ((if ep_tls e then ''valkeys'' else ''valkey''), ''//'' @ ep_host e @ CHR '':'' # show_int (ep_port e))"
proof -
  let ?net = "ep_host e @ CHR '':'' # show_int (ep_port e)"
  have "x \<notin> {CHR 0x09, CHR 0x0D, CHR 0x0A}" if "x \<in> set ?net" for x
    using render_char [OF assms that] by (auto dest: host_char_facts)
  then have net: "filter (\<lambda>c. c \<notin> {CHR 0x09, CHR 0x0D, CHR 0x0A}) ?net = ?net" by (intro filter_True) blast
  have "url_clean (''valkeys://'' @ ?net) = ''valkeys://'' @ ?net" "url_clean (''valkey://'' @ ?net) = ''valkey://'' @ ?net"
    unfolding url_clean_def using net by simp_all
  moreover have "split_scheme (''valkeys://'' @ ?net) = (''valkeys'', ''//'' @ ?net)"
    "split_scheme (''valkey://'' @ ?net) = (''valkey'', ''//'' @ ?net)"
    by (simp_all add: split_scheme_def partition_at_def is_scheme_char_def is_alpha_def lower_char_def)
  ultimately show ?thesis unfolding render_endpoint_def by (cases "ep_tls e") simp_all
qed


lemma read_render:
  assumes "plain_host (ep_host e)" "1 \<le> ep_port e" "ep_port e \<le> 65535"
  shows "read_endpoint U (render_endpoint e) = Inr e"
proof -
  let ?net = "ep_host e @ CHR '':'' # show_int (ep_port e)"
  let ?r = "\<lparr>sr_scheme = (if ep_tls e then ''valkeys'' else ''valkey''), sr_netloc = ?net, sr_path = [], sr_query = [], sr_fragment = []\<rparr>"
  have n: "0 \<le> ep_port e" using assms(2) by simp
  have char: "x = CHR '':'' \<or> is_host_char x" if "x \<in> set ?net" for x by (rule render_char [OF assms(1) n that])
  have split: "urlsplit U (render_endpoint e) = Inr ?r"
  proof (rule urlsplit_plain [OF split_scheme_render [OF assms(1) n]])
    fix x assume "x \<in> set ?net"
    from char [OF this] show "x \<notin> set ''/?#@[]'' \<and> of_char x < (128 :: nat)" by (elim disjE) (simp, use host_char_facts in auto)
  qed
  have host: "c \<in> set (ep_host e) \<Longrightarrow> is_host_char c" for c using assms(1) by (simp add: plain_host_def list_all_iff)
  have fresh: "CHR ''@'' \<notin> set ?net" "CHR ''['' \<notin> set ?net" "CHR '':'' \<notin> set (ep_host e)" "CHR ''%'' \<notin> set (ep_host e)"
    using char [of "CHR ''@''"] char [of "CHR ''[''"] host [of "CHR '':''"] host [of "CHR ''%''"] not_host_char by auto
  have digits: "show_int (ep_port e) = show_nat (nat (ep_port e))" using assms(2) by (simp add: show_int_def)
  have info: "hostinfo ?r = (ep_host e, Some (show_int (ep_port e)))"
    unfolding hostinfo_def split_result.simps rpartition_at_absent [OF fresh(1)] partition_at_absent [OF fresh(2)] prod.case
      partition_at_first [OF fresh(3)] by (simp add: digits)
  have "map lower_char (ep_host e) = ep_host e" "is_ascii (ep_host e)"
    using host host_char_facts by (auto simp: is_ascii_def list_all_iff intro!: map_idI)
  then have "lower U (ep_host e) = ep_host e" by (simp add: lower_def)
  then have name: "hostname U ?r = Some (ep_host e)"
    using assms(1) fresh(4) by (simp add: hostname_def info plain_host_def)
  have "length (show_nat (nat (ep_port e))) \<le> max_str_digits" using show_small_ok [of "ep_port e"] assms(2,3) by simp
  then have "port_of ?r = Inr (Some (ep_port e))"
    unfolding port_of_def info using assms(2,3) py_int10_show [of "ep_port e"] show_nat_digits by (simp add: digits)
  with split name fresh(1) assms(2,3) show ?thesis
    by (simp add: read_endpoint_def has_userinfo_def)
qed

lemma branch_eq_Inr:
  "(if b then Inl e else m) = Inr y \<longleftrightarrow> \<not> b \<and> m = Inr y"
  "(case x of None \<Rightarrow> Inl e | Some z \<Rightarrow> f z) = Inr y \<longleftrightarrow> (\<exists>z. x = Some z \<and> f z = Inr y)"
  by (simp_all split: option.split)

lemma read_endpoint_Inr:
  assumes "read_endpoint U v = Inr e"
  obtains r where "urlsplit U v = Inr r" "sr_scheme r = (if ep_tls e then ''valkeys'' else ''valkey'')" "CHR ''@'' \<notin> set (sr_netloc r)"
    "sr_query r = []" "sr_fragment r = []" "sr_path r = [] \<or> sr_path r = ''/''" "hostname U r = Some (ep_host e)" "1 \<le> ep_port e" "ep_port e \<le> 65535"
proof -
  from assms obtain r host port where r: "urlsplit U v = Inr r" "\<not> sr_scheme r \<notin> {''valkey'', ''valkeys''}"
    "\<not> (has_userinfo r \<or> sr_query r \<noteq> [] \<or> sr_fragment r \<noteq> [] \<or> sr_path r \<notin> {'''', ''/''})"
    "hostname U r = Some host" "1 \<le> port \<and> port \<le> 65535"
    "e = \<lparr>ep_host = host, ep_port = port, ep_tls = (sr_scheme r = ''valkeys'')\<rparr>"
    unfolding read_endpoint_def bindE_eq_Inr Let_def branch_eq_Inr not_not sum.inject by blast
  show ?thesis by (rule that [OF r(1)]) (use r in \<open>simp_all add: has_userinfo_def\<close>, auto)
qed

text \<open>Every character of a URL is in one of its parts, a separator, or removed on reading.\<close>

lemma split_scheme_set: "split_scheme url = (s, rest) \<Longrightarrow> c \<in> set url \<Longrightarrow> c \<in> set rest \<or> c = CHR '':'' \<or> is_scheme_char c"
proof -
  assume s: "split_scheme url = (s, rest)" and c: "c \<in> set url"
  obtain a b d where p: "partition_at CHR '':'' url = (a, b, d)" by (cases "partition_at CHR '':'' url") auto
  show ?thesis
    using s c partition_at_set [OF p] by (auto simp: split_scheme_def p list_all_iff split: if_split_asm)
qed

lemma urlsplit_set:
  assumes "urlsplit U v = Inr r" "c \<in> set v" "\<not> is_scheme_char c" "c \<notin> set '':/?#''" "32 < (of_char c :: nat)"
  shows "c \<in> set (sr_netloc r) \<union> set (sr_path r) \<union> set (sr_query r) \<union> set (sr_fragment r)"
proof -
  obtain s url where s: "split_scheme (url_clean v) = (s, url)" by (cases "split_scheme (url_clean v)")
  have "c \<in> set (dropWhile (\<lambda>c. (of_char c :: nat) \<le> 32) v)"
    using assms(2,5) by (induction v) auto
  moreover have "c \<notin> {CHR 0x09, CHR 0x0D, CHR 0x0A}" using assms(5) by auto
  ultimately have "c \<in> set (url_clean v)" by (simp add: url_clean_def)
  with split_scheme_set [OF s] assms(3,4) have url: "c \<in> set url" by auto
  define net rest where "net = (if take 2 url = ''//'' then takeWhile (\<lambda>c. c \<notin> set ''/?#'') (drop 2 url) else [])"
    and "rest = (if take 2 url = ''//'' then dropWhile (\<lambda>c. c \<notin> set ''/?#'') (drop 2 url) else url)"
  have "c \<in> set net \<union> set rest"
  proof (cases "take 2 url = ''//''")
    case True
    then have "set url = set ''//'' \<union> set (drop 2 url)" by (metis append_take_drop_id set_append)
    moreover have "drop 2 url = net @ rest" unfolding net_def rest_def if_P [OF True] by (rule takeWhile_dropWhile_id [symmetric])
    then have "set (drop 2 url) = set net \<union> set rest" by (simp only: set_append)
    ultimately show ?thesis using url assms(4) by auto
  qed (use url in \<open>simp add: rest_def\<close>)
  moreover obtain p b f where f: "partition_at CHR ''#'' rest = (p, b, f)" by (cases "partition_at CHR ''#'' rest") auto
  moreover obtain p' b' q where q: "partition_at CHR ''?'' p = (p', b', q)" by (cases "partition_at CHR ''?'' p") auto
  moreover have "r = \<lparr>sr_scheme = s, sr_netloc = net, sr_path = p', sr_query = q, sr_fragment = f\<rparr>"
    using assms(1) unfolding urlsplit_def s Let_def prod.case net_def [symmetric] rest_def [symmetric] f q branch_eq_Inr by simp
  ultimately show ?thesis using partition_at_set [OF f] partition_at_set [OF q] assms(4) by auto
qed

lemma onlyE_case_pair [only_intros]: "(\<And>a b. p = (a, b) \<Longrightarrow> onlyE P (f a b)) \<Longrightarrow> onlyE P (case p of (a, b) \<Rightarrow> f a b)"
  by (cases p) auto

lemma onlyE_case_option [only_intros]:
  "(x = None \<Longrightarrow> onlyE P m) \<Longrightarrow> (\<And>y. x = Some y \<Longrightarrow> onlyE P (f y)) \<Longrightarrow> onlyE P (case x of None \<Rightarrow> m | Some y \<Rightarrow> f y)"
  by (cases x) auto

lemma urlsplit_only: "onlyE is_ValueError (urlsplit U v)"
  unfolding urlsplit_def Let_def by (intro only_intros) simp_all

lemma port_of_only: "onlyE is_ValueError (port_of r)"
  unfolding port_of_def py_int10_def digits_error_def Let_def by (intro only_intros) simp_all

lemma read_endpoint_only: "onlyE is_ValueError (read_endpoint U v)"
  unfolding read_endpoint_def Let_def by (intro only_intros urlsplit_only port_of_only) simp_all

text \<open>
  C38: endpoints are read faithfully and never carry credentials. Every endpoint with a plain host and a
  valid port is read back from its text unchanged. Whatever the text, an endpoint that is accepted
  has a port between 1 and 65535, and its text contains no at-sign, so no user name or
  password; a text that is refused raises the one configuration error that reveals nothing of it.
\<close>

theorem parse_endpoint_round_trip:
  "(plain_host (ep_host e) \<and> 1 \<le> ep_port e \<and> ep_port e \<le> 65535 \<longrightarrow> parse_endpoint U (render_endpoint e) = Inr e) \<and>
   (case parse_endpoint U v of
      Inr e' \<Rightarrow> 1 \<le> ep_port e' \<and> ep_port e' \<le> 65535 \<and> CHR ''@'' \<notin> set v
    | Inl x \<Rightarrow> x = config_invalid ''Valkey Binding endpoint is invalid'')"
proof (intro conjI impI)
  assume "plain_host (ep_host e) \<and> 1 \<le> ep_port e \<and> ep_port e \<le> 65535"
  then show "parse_endpoint U (render_endpoint e) = Inr e" by (simp add: parse_endpoint_def read_render)
next
  show "case parse_endpoint U v of
      Inr e' \<Rightarrow> 1 \<le> ep_port e' \<and> ep_port e' \<le> 65535 \<and> CHR ''@'' \<notin> set v
    | Inl x \<Rightarrow> x = config_invalid ''Valkey Binding endpoint is invalid''"
  proof (cases "read_endpoint U v")
    case (Inl x)
    with onlyE_D [OF read_endpoint_only Inl] show ?thesis by (auto simp: parse_endpoint_def)
  next
    case (Inr e')
    obtain r where r: "urlsplit U v = Inr r" "CHR ''@'' \<notin> set (sr_netloc r)" "sr_query r = []" "sr_fragment r = []"
      "sr_path r = [] \<or> sr_path r = ''/''" "1 \<le> ep_port e'" "ep_port e' \<le> 65535" by (rule read_endpoint_Inr [OF Inr])
    have "CHR ''@'' \<notin> set v"
      using urlsplit_set [OF r(1), of "CHR ''@''"] r(2-5) by (auto simp: is_scheme_char_def is_alpha_def is_dec_digit_def)
    with r Inr show ?thesis by (simp add: parse_endpoint_def)
  qed
qed

subsection \<open>Protected connections\<close>

lemma resolved_endpoints_Inr:
  assumes "resolved_endpoints U context settings resolver s = (Inr endpoints, s')"
  shows "endpoints \<noteq> [] \<and> distinct endpoints"
  using assms unfolding resolved_endpoints_def Let_def by (auto simp: run_simps)

lemma common_arguments_Inr:
  assumes "common_arguments context username = Inr common"
  shows "map_of common ''username'' = Some (PStr username) \<and> map_of common ''password'' = Some (PBytes (cc_credential context)) \<and>
    map_of common ''ssl'' = None \<and> map_of common ''ssl_ca_data'' = None \<and> map_of common ''ssl_cert_reqs'' = None \<and>
    map_of common ''ssl_check_hostname'' = None"
  using assms by (auto simp: common_arguments_def res_simps Let_def)

lemma tls_arguments_Inr:
  assumes "tls_arguments context = Inr tls"
  shows "bd_tls_server_name (cc_binding context) \<noteq> None \<and> (\<exists>ca. cc_tls_ca context = Some ca \<and> tls = [(''ssl'', PBool True),
    (''ssl_ca_data'', PStr ca), (''ssl_cert_reqs'', PStr ''required''), (''ssl_check_hostname'', PBool True)])"
  using assms by (auto simp: tls_arguments_def utf8_decode_def split: option.splits if_splits)

text \<open>What the keyword arguments say about the protection of a connection.\<close>

definition protected_by :: "create_context \<Rightarrow> valkey_settings \<Rightarrow> endpoint list \<Rightarrow> kwargs \<Rightarrow> bool" where
  "protected_by context settings endpoints args =
     (let mode = bd_tls_mode (cc_binding context); tls = (mode \<noteq> ''disabled'') in
      mode \<noteq> ''mutual'' \<and> (\<forall>e \<in> set endpoints. ep_tls e = tls) \<and>
      map_of args ''username'' = Some (PStr (cc_identity context)) \<and> map_of args ''password'' = Some (PBytes (cc_credential context)) \<and>
      (if tls then map_of args ''ssl'' = Some (PBool True) \<and> map_of args ''ssl_cert_reqs'' = Some (PStr ''required'') \<and>
         map_of args ''ssl_check_hostname'' = Some (PBool True) \<and>
         (\<exists>ca. cc_tls_ca context = Some ca \<and> map_of args ''ssl_ca_data'' = Some (PStr ca))
       else allow_insecure_test_profile settings \<and> map_of args ''ssl'' = None))"

lemma connection_arguments_protect:
  assumes "connection_arguments context settings endpoints = Inr args"
  shows "protected_by context settings endpoints args"
proof -
  let ?mode = "bd_tls_mode (cc_binding context)"
  from assms obtain username common where a: "\<not> list_ex (\<lambda>e. ep_tls e \<noteq> (?mode \<noteq> ''disabled'')) endpoints"
    "\<not> (\<not> ?mode \<noteq> ''disabled'' \<and> \<not> allow_insecure_test_profile settings)" "?mode \<noteq> ''mutual''"
    "catchE (utf8_decode (cc_identity context)) (\<lambda>e. e = UnicodeDecodeError)
      (\<lambda>_. Inl (config_invalid ''Valkey identity must be a UTF-8 ACL username'')) = Inr username"
    "common_arguments context username = Inr common"
    "(if ?mode \<noteq> ''disabled'' then bindE (tls_arguments context) (\<lambda>tls. Inr (common @ tls)) else Inr common) = Inr args"
    unfolding connection_arguments_def Let_def branch_eq_Inr bindE_eq_Inr [of "catchE _ _ _"] bindE_eq_Inr [of "common_arguments _ _"] by blast
  have user: "username = cc_identity context" using a(4) by (auto simp: utf8_decode_def split: if_splits)
  have tls: "\<forall>e \<in> set endpoints. ep_tls e = (?mode \<noteq> ''disabled'')" using a(1) by (auto simp: list_ex_iff)
  show ?thesis
  proof (cases "?mode = ''disabled''")
    case True
    with a common_arguments_Inr [OF a(5)] tls user show ?thesis by (simp add: protected_by_def)
  next
    case False
    then obtain extra where "tls_arguments context = Inr extra" "args = common @ extra" using a(6) by (auto simp: res_simps)
    with False a(3) common_arguments_Inr [OF a(5)] tls_arguments_Inr [of "context"] tls user show ?thesis
      by (auto simp: protected_by_def map_add_def)
  qed
qed

text \<open>
  C18: every connection the adapter opens itself is protected as the binding says. When a client was created
  without a builder of the composition root, the client library was called with the identity and the
  credential of the context, on endpoints whose scheme all agree with the binding's TLS policy, and
  with certificate verification, host name check and the resolved CA whenever TLS is not disabled;
  plaintext only under the explicit test profile and never for mutual TLS. A Sentinel topology
  hands the same arguments to the sentinels and to the master's client, whose addresses all go
  through the address mapper; a standalone one has exactly one endpoint.
\<close>

theorem connection_is_protected:
  assumes "create_client_handle U D context settings resolver None mapper s = (Inr h, s')"
  shows "\<exists>endpoints args s1. resolved_endpoints U context settings resolver s = (Inr endpoints, s1) \<and> endpoints \<noteq> [] \<and> distinct endpoints \<and>
    protected_by context settings endpoints args \<and>
    (if topo_mode (topology settings) = ''sentinel''
     then \<exists>sn s2 master. sentinel_master (topology settings) = Some master \<and>
       new_sentinel D (map (\<lambda>e. (ep_host e, ep_port e)) endpoints) (int (length endpoints) - 1) args args s1 = (Inr sn, s2) \<and>
       sn_master_for sn (remapped_master sn mapper) (remapped_slaves sn mapper) master (database settings) s2 = (Inr (ch_client h), s') \<and>
       ch_closers h = sn_closers sn
     else \<exists>e. endpoints = [e] \<and> ch_closers h = [] \<and>
       new_valkey D ([(''host'', PStr (ep_host e)), (''port'', PInt (ep_port e)), (''db'', PInt (database settings))] @ args) s1 =
         (Inr (ch_client h), s'))"
proof -
  from assms obtain endpoints args s1 where r: "resolved_endpoints U context settings resolver s = (Inr endpoints, s1)"
    "connection_arguments context settings endpoints = Inr args"
    "(if topo_mode (topology settings) = TOPOLOGY_SENTINEL then connect_sentinel D settings mapper endpoints args
      else connect_standalone D settings endpoints args) s1 = (Inr h, s')"
    by (auto simp: create_client_handle_def run_simps)
  note ends = resolved_endpoints_Inr [OF r(1)]
  then have n: "max 0 (int (length endpoints) - 1) = int (length endpoints) - 1" by (cases endpoints) auto
  show ?thesis
  proof (cases "topo_mode (topology settings) = ''sentinel''")
    case True
    then have "connect_sentinel D settings mapper endpoints args s1 = (Inr h, s')" using r(3) by (simp add: TOPOLOGY_SENTINEL_def)
    with r ends connection_arguments_protect [OF r(2)] True show ?thesis
      by (auto simp: connect_sentinel_def Let_def run_simps n split: option.splits)
  next
    case False
    then have "connect_standalone D settings endpoints args s1 = (Inr h, s')" using r(3) by (simp add: TOPOLOGY_SENTINEL_def)
    with r ends connection_arguments_protect [OF r(2)] False show ?thesis
      by (auto simp: connect_standalone_def run_simps split: list.splits)
  qed
qed

subsection \<open>Examples\<close>

definition no_tables :: unicode where
  "no_tables = \<lparr>nfkc = (\<lambda>s. s), lower_other = (\<lambda>s. s)\<rparr>"

definition sample_endpoint :: endpoint where
  "sample_endpoint = \<lparr>ep_host = ''cache.internal'', ep_port = 6390, ep_tls = True\<rparr>"

lemma sample_endpoint_simps [simp]:
  "ep_host sample_endpoint = ''cache.internal''" "ep_port sample_endpoint = 6390" "ep_tls sample_endpoint"
  by (simp_all add: sample_endpoint_def)

lemma sample_host: "plain_host ''cache.internal''"
  by (simp add: plain_host_def is_host_char_def)

theorem parse_endpoint_round_trip_witness:
  "parse_endpoint no_tables (render_endpoint sample_endpoint) = Inr sample_endpoint"
  using parse_endpoint_round_trip [of sample_endpoint no_tables "[]"] by (simp add: sample_host)

definition sample_binding :: "int \<Rightarrow> binding" where
  "sample_binding n = \<lparr>bd_id = ''binding'', bd_adapter_id = ADAPTER_ID, bd_engine_profile = ENGINE_PROFILE_STANDALONE,
     bd_engine_version = ''8.1.9'', bd_required_capability_fingerprint = ''8.1.9'', bd_physical_namespace = ''app'',
     bd_settings = sample_mapping, bd_endpoint = Some (render_endpoint sample_endpoint), bd_service_ref = None,
     bd_tls_mode = ''server'', bd_tls_server_name = Some ''cache.internal'', bd_acquire_timeout_ms = 0, bd_operation_timeout_ms = 0,
     bd_idle_timeout_ms = 30000, bd_max_size = 8, bd_max_result_bytes = n\<rparr>"

definition sample_create :: "int \<Rightarrow> create_context" where
  "sample_create n = \<lparr>cc_binding = sample_binding n, cc_identity = ''cache'', cc_credential = ''secret'', cc_tls_ca = Some ''PEM''\<rparr>"

definition sample_driver :: "fake driver" where
  "sample_driver = \<lparr>new_valkey = (\<lambda>_. returnM fake_client), new_sentinel = (\<lambda>_ _ _ _. raiseM (OtherError ''NotImplementedError''))\<rparr>"

lemma sample_handle:
  "create_client_handle no_tables sample_driver (sample_create n) sample_settings None None None s = (Inr \<lparr>ch_client = fake_client, ch_closers = []\<rparr>, s)"
proof -
  have "parse_endpoint no_tables (render_endpoint sample_endpoint) = Inr sample_endpoint"
    by (simp add: parse_endpoint_def read_render sample_host)
  then have ends: "resolved_endpoints no_tables (sample_create n) sample_settings None s = (Inr [sample_endpoint], s)"
    by (simp add: resolved_endpoints_def sample_create_def sample_binding_def sample_settings_def bindM_def)
  have "\<exists>args. connection_arguments (sample_create n) sample_settings [sample_endpoint] = Inr args"
    by (simp add: connection_arguments_def sample_create_def sample_binding_def utf8_decode_def utf8_ok_ascii is_ascii_def
        common_arguments_def div_1000_def seconds_of_ms_def round_ratio_def tls_arguments_def)
  with ends show ?thesis
    by (auto simp: create_client_handle_def bindM_def connect_standalone_def sample_driver_def sample_settings_def TOPOLOGY_SENTINEL_def)
qed

theorem connection_is_protected_witness:
  "\<exists>h endpoints args. create_client_handle no_tables sample_driver (sample_create 1048576) sample_settings None None None FakeValkey = (Inr h, FakeValkey) \<and>
    protected_by (sample_create 1048576) sample_settings endpoints args \<and> endpoints \<noteq> []"
  using sample_handle [of _ FakeValkey] connection_is_protected [OF sample_handle [of _ FakeValkey]] by blast

end
