(* ===== verification/Vk_Runtime.thy ===== *)
theory Vk_Runtime
  imports Vk_Session Vk_Client
begin

section \<open>The runtime and its factory\<close>

text \<open>
  \<^verbatim>\<open>ValkeyAdapterRuntime\<close> and \<^verbatim>\<open>ValkeyAdapterFactory\<close> of \<^verbatim>\<open>runtime.py\<close>: what a created runtime holds, its states
  (created, open, closed) and the calls that move between them. The fields that never change are the
  record \<open>runtime\<close>; the mutable ones, with the counters and the world outside, are \<open>runtime_state\<close>.
\<close>

subsection \<open>State\<close>

record 's runtime =
  rt_context :: create_context
  rt_handle :: "'s client_handle"
  rt_settings :: valkey_settings
  rt_cache :: "'s valkey_cache"

record 's runtime_state =
  rs_world :: "'s world"
  rs_opened :: bool
  rs_closed :: bool
  rs_manifest :: "adapter_probe option"

definition ValkeyAdapterRuntime ::
    "'s host \<Rightarrow> create_context \<Rightarrow> 's client_handle \<Rightarrow> valkey_settings \<Rightarrow> 's runtime res" where
  "ValkeyAdapterRuntime H context handle settings =
     bindE (KeyEncoder (bd_physical_namespace (cc_binding context)) (PInt (namespace_generation settings))
       (max_key_bytes (limits settings))) (\<lambda>encoder.
     bindE (EnvelopeCodec (max_value_bytes (limits settings))) (\<lambda>codec.
     Inr \<lparr>rt_context = context, rt_handle = handle, rt_settings = settings,
       rt_cache = \<lparr>vc_client = ch_client handle, vc_key_encoder = encoder, vc_codec = codec, vc_settings = settings, vc_host = H\<rparr>\<rparr>))"

definition created :: "'s \<Rightarrow> 's runtime_state" where
  "created s = \<lparr>rs_world = \<lparr>w_ext = s, w_metrics = []\<rparr>, rs_opened = False, rs_closed = False, rs_manifest = None\<rparr>"

definition on_world :: "('s world, 'a) py \<Rightarrow> ('s runtime_state, 'a) py" where
  "on_world m = (\<lambda>a. case m (rs_world a) of (r, w) \<Rightarrow> (r, a\<lparr>rs_world := w\<rparr>))"

subsection \<open>Calls\<close>

definition runtime_closed :: exn where
  "runtime_closed = meridian LifecycleErrorC ''RUNTIME_CLOSED'' ''Valkey runtime is closed'' []"

definition runtime_not_open :: exn where
  "runtime_not_open = meridian LifecycleErrorC ''RUNTIME_STATE'' ''Valkey runtime is not open'' []"

definition ensure_not_closed :: "('s runtime_state, unit) py" where
  "ensure_not_closed = (\<lambda>a. if rs_closed a then (Inl runtime_closed, a) else (Inr (), a))"

definition ensure_open :: "('s runtime_state, unit) py" where
  "ensure_open = thenM ensure_not_closed (\<lambda>a. if \<not> rs_opened a then (Inl runtime_not_open, a) else (Inr (), a))"

text \<open>The probe with its engine failures translated.\<close>

definition translated_probe :: "core \<Rightarrow> 's runtime \<Rightarrow> ('s runtime_state, adapter_probe) py" where
  "translated_probe K rt =
     (let b = cc_binding (rt_context rt) in
      catchM (on_world (ext (probe K (ch_client (rt_handle rt)) (rt_settings rt) (bd_tls_mode b) (Some (bd_engine_version b)))))
        is_ValkeyError (\<lambda>e. raiseM (translate_engine_error e None None None None)))"

definition runtime_open :: "core \<Rightarrow> 's runtime \<Rightarrow> ('s runtime_state, unit) py" where
  "runtime_open K rt =
     thenM ensure_not_closed (\<lambda>a.
       if rs_opened a then (Inr (), a) else
       bindM (translated_probe K rt) (\<lambda>p.
       if mf_engine_version (ap_manifest p) \<noteq> bd_engine_version (cc_binding (rt_context rt))
       then raiseM (meridian CompatibilityErrorC ''CAPABILITY_UNSUPPORTED'' ''probed Valkey version differs from the Binding pin'' [])
       else if manifest_fingerprint K (ap_manifest p) \<noteq> bd_required_capability_fingerprint (cc_binding (rt_context rt))
       then raiseM (meridian CompatibilityErrorC ''CAPABILITY_FINGERPRINT'' ''Valkey capability fingerprint differs from the Binding pin'' [])
       else (\<lambda>a. (Inr (), a\<lparr>rs_manifest := Some p, rs_opened := True\<rparr>))) a)"

definition runtime_probe :: "core \<Rightarrow> 's runtime \<Rightarrow> ('s runtime_state, adapter_probe) py" where
  "runtime_probe K rt =
     thenM ensure_open
     (bindM (translated_probe K rt) (\<lambda>p a.
       case rs_manifest a of
         None \<Rightarrow> (Inl (meridian LifecycleErrorC ''RUNTIME_STATE'' ''Valkey startup probe is absent'' []), a)
       | Some startup \<Rightarrow>
           if manifest_fingerprint K (ap_manifest p) \<noteq> manifest_fingerprint K (ap_manifest startup)
           then (Inl (meridian CompatibilityErrorC ''CAPABILITY_FINGERPRINT'' ''Valkey capability changed after startup'' []), a)
           else (Inr p, a)))"

definition runtime_verify_physical ::
    "core \<Rightarrow> 's runtime \<Rightarrow> physical_resource list \<Rightarrow> ('s runtime_state, physical_verification) py" where
  "runtime_verify_physical K rt rs = thenM ensure_open (liftM (verify_physical K (rt_settings rt) rs))"

definition runtime_open_session :: "'s runtime \<Rightarrow> bool \<Rightarrow> ('s runtime_state, 's session) py" where
  "runtime_open_session rt transactional =
     thenM ensure_open
     (if transactional
      then raiseM (validation ''CAPABILITY_UNSUPPORTED'' ''disposable Valkey Cache does not provide authoritative transactions'')
      else returnM (ValkeyAdapterSession (rt_cache rt) (bd_id (cc_binding (rt_context rt)))
        (bd_max_result_bytes (cc_binding (rt_context rt)))))"

definition runtime_cache :: "'s runtime \<Rightarrow> ('s runtime_state, 's valkey_cache) py" where
  "runtime_cache rt = thenM ensure_open (returnM (rt_cache rt))"

definition runtime_metrics :: "('s runtime_state, (string \<times> nat) list) py" where
  "runtime_metrics = on_world snapshot"

definition runtime_close :: "'s runtime \<Rightarrow> ('s runtime_state, unit) py" where
  "runtime_close rt = (\<lambda>a.
     if rs_closed a then (Inr (), a)
     else on_world (ext (handle_close (rt_handle rt))) (a\<lparr>rs_closed := True, rs_opened := False\<rparr>))"

subsection \<open>The factory\<close>

definition factory_create ::
    "unicode \<Rightarrow> 's driver \<Rightarrow> 's host \<Rightarrow> 's service_resolver option \<Rightarrow> 's client_builder option \<Rightarrow> 's address_mapper option
      \<Rightarrow> create_context \<Rightarrow> ('s, 's runtime) py" where
  "factory_create U D H service_resolver client_builder mapper context =
     (let b = cc_binding context in
      if bd_adapter_id b \<noteq> ADAPTER_ID then raiseM (config_invalid ''Binding Adapter identity does not select Valkey'') else
      bindM (liftM (ValkeySettings_from_mapping (bd_settings b))) (\<lambda>settings.
      let expected_profile =
        (if topo_mode (topology settings) = TOPOLOGY_SENTINEL then ENGINE_PROFILE_SENTINEL else ENGINE_PROFILE_STANDALONE) in
      if bd_engine_profile b \<noteq> expected_profile
      then raiseM (config_invalid ''Valkey Binding Engine profile differs from its topology settings'') else
      bindM (create_client_handle U D context settings service_resolver client_builder mapper) (\<lambda>handle.
      liftM (ValkeyAdapterRuntime H context handle settings))))"

subsection \<open>The life of a runtime\<close>

text \<open>
  The calls a client of the runtime makes, in any order, with anything happening in between: other
  clients of the engine, operations of the sessions, the clock.
\<close>

datatype runtime_call =
  Open | Probe | VerifyPhysical "physical_resource list" | OpenSession bool | GetCache | Metrics | Close | Elsewhere

inductive runtime_step :: "core \<Rightarrow> 's runtime \<Rightarrow> 's runtime_state \<Rightarrow> runtime_call \<Rightarrow> 's runtime_state \<Rightarrow> bool"
  for K :: core and rt :: "'s runtime" where
  step_open: "runtime_open K rt a = (r, a') \<Longrightarrow> runtime_step K rt a Open a'"
| step_probe: "runtime_probe K rt a = (r, a') \<Longrightarrow> runtime_step K rt a Probe a'"
| step_verify: "runtime_verify_physical K rt rs a = (r, a') \<Longrightarrow> runtime_step K rt a (VerifyPhysical rs) a'"
| step_session: "runtime_open_session rt transactional a = (r, a') \<Longrightarrow> runtime_step K rt a (OpenSession transactional) a'"
| step_cache: "runtime_cache rt a = (r, a') \<Longrightarrow> runtime_step K rt a GetCache a'"
| step_metrics: "runtime_metrics a = (r, a') \<Longrightarrow> runtime_step K rt a Metrics a'"
| step_close: "runtime_close rt a = (r, a') \<Longrightarrow> runtime_step K rt a Close a'"
| step_elsewhere: "runtime_step K rt a Elsewhere (a\<lparr>rs_world := w\<rparr>)"

inductive_cases runtime_stepE: "runtime_step K rt a call a'"

inductive reachable :: "core \<Rightarrow> 's runtime \<Rightarrow> 's runtime_state \<Rightarrow> bool"
  for K :: core and rt :: "'s runtime" where
  reachable_created: "reachable K rt (created s)"
| reachable_step: "reachable K rt a \<Longrightarrow> runtime_step K rt a call a' \<Longrightarrow> reachable K rt a'"

subsection \<open>What an open runtime has seen\<close>

text \<open>A probe of the runtime's engine that succeeded and agrees with the pins of the binding.\<close>

definition pinned :: "core \<Rightarrow> 's runtime \<Rightarrow> adapter_probe \<Rightarrow> bool" where
  "pinned K rt p =
     (let b = cc_binding (rt_context rt) in
      (\<exists>s s'. probe K (ch_client (rt_handle rt)) (rt_settings rt) (bd_tls_mode b) (Some (bd_engine_version b)) s = (Inr p, s')) \<and>
      mf_engine_version (ap_manifest p) = bd_engine_version b \<and>
      manifest_fingerprint K (ap_manifest p) = bd_required_capability_fingerprint b)"

definition runtime_inv :: "core \<Rightarrow> 's runtime \<Rightarrow> 's runtime_state \<Rightarrow> bool" where
  "runtime_inv K rt a = (rs_opened a \<longrightarrow> \<not> rs_closed a \<and> (\<exists>p. rs_manifest a = Some p \<and> pinned K rt p))"

lemma on_world_run: "on_world m a = (r, a') \<longleftrightarrow> (\<exists>w. m (rs_world a) = (r, w) \<and> a' = a\<lparr>rs_world := w\<rparr>)"
  by (auto simp: on_world_def split: prod.splits)

lemma translated_probe_Inr:
  assumes "translated_probe K rt a = (Inr p, a')"
  obtains s s' where "probe K (ch_client (rt_handle rt)) (rt_settings rt) (bd_tls_mode (cc_binding (rt_context rt)))
      (Some (bd_engine_version (cc_binding (rt_context rt)))) s = (Inr p, s')" "\<exists>w. a' = a\<lparr>rs_world := w\<rparr>"
  using assms by (auto simp: translated_probe_def catchM_def on_world_def ext_def Let_def split: prod.splits sum.splits if_splits)

lemma translated_probe_state: "translated_probe K rt a = (r, a') \<Longrightarrow> \<exists>w. a' = a\<lparr>rs_world := w\<rparr>"
  by (auto simp: translated_probe_def catchM_def on_world_def Let_def split: prod.splits sum.splits if_splits)

lemma runtime_inv_world [simp]: "runtime_inv K rt (a\<lparr>rs_world := w\<rparr>) = runtime_inv K rt a"
  by (simp add: runtime_inv_def)

lemma open_keeps:
  assumes "runtime_open K rt a = (r, a')" "runtime_inv K rt a"
  shows "runtime_inv K rt a' \<and> (r = Inr () \<longrightarrow> rs_opened a')"
proof (cases "rs_closed a \<or> rs_opened a")
  case True
  with assms show ?thesis by (auto simp: runtime_open_def ensure_not_closed_def thenM_def bindM_def split: if_splits)
next
  case False
  let ?b = "cc_binding (rt_context rt)"
  obtain q a1 where q: "translated_probe K rt a = (q, a1)" by (cases "translated_probe K rt a")
  then obtain w where a1: "a1 = a\<lparr>rs_world := w\<rparr>" using translated_probe_state by blast
  show ?thesis
  proof (cases q)
    case (Inl e)
    with False assms q a1 show ?thesis by (auto simp: runtime_open_def ensure_not_closed_def thenM_def bindM_def)
  next
    case (Inr p)
    with q obtain s s' where run: "probe K (ch_client (rt_handle rt)) (rt_settings rt) (bd_tls_mode ?b) (Some (bd_engine_version ?b)) s = (Inr p, s')"
      by (auto elim: translated_probe_Inr)
    have "pinned K rt p" if "mf_engine_version (ap_manifest p) = bd_engine_version ?b"
      "manifest_fingerprint K (ap_manifest p) = bd_required_capability_fingerprint ?b"
      using run that unfolding pinned_def Let_def by blast
    with False assms q a1 Inr show ?thesis
      by (auto simp: runtime_open_def ensure_not_closed_def thenM_def bindM_def runtime_inv_def split: if_splits)
  qed
qed

text \<open>The other calls change nothing but the world, a close apart.\<close>

lemma only_world:
  "runtime_probe K rt a = (r, a') \<Longrightarrow> \<exists>w. a' = a\<lparr>rs_world := w\<rparr>"
  "runtime_verify_physical K rt rs a = (r1, a') \<Longrightarrow> \<exists>w. a' = a\<lparr>rs_world := w\<rparr>"
  "runtime_open_session rt transactional a = (r2, a') \<Longrightarrow> \<exists>w. a' = a\<lparr>rs_world := w\<rparr>"
  "runtime_cache rt a = (r3, a') \<Longrightarrow> \<exists>w. a' = a\<lparr>rs_world := w\<rparr>"
  "runtime_metrics a = (r4, a') \<Longrightarrow> \<exists>w. a' = a\<lparr>rs_world := w\<rparr>"
proof -
  have same: "\<exists>w. a = a\<lparr>rs_world := w\<rparr>" by (rule exI [of _ "rs_world a"]) simp
  have ensure: "ensure_open a = (if rs_closed a then Inl runtime_closed else if rs_opened a then Inr () else Inl runtime_not_open, a)"
    by (simp add: ensure_open_def ensure_not_closed_def thenM_def bindM_def)
  show "\<exists>w. a' = a\<lparr>rs_world := w\<rparr>" if "runtime_probe K rt a = (r, a')"
    using that same translated_probe_state [of K rt a]
    by (auto simp: runtime_probe_def thenM_def bindM_def ensure split: prod.splits sum.splits if_splits option.splits)
  show "\<exists>w. a' = a\<lparr>rs_world := w\<rparr>" if "runtime_verify_physical K rt rs a = (r1, a')"
    using that same by (auto simp: runtime_verify_physical_def thenM_def bindM_def ensure split: if_splits)
  show "\<exists>w. a' = a\<lparr>rs_world := w\<rparr>" if "runtime_open_session rt transactional a = (r2, a')"
    using that same by (auto simp: runtime_open_session_def thenM_def bindM_def ensure split: if_splits)
  show "\<exists>w. a' = a\<lparr>rs_world := w\<rparr>" if "runtime_cache rt a = (r3, a')"
    using that same by (auto simp: runtime_cache_def thenM_def bindM_def ensure split: if_splits)
  show "\<exists>w. a' = a\<lparr>rs_world := w\<rparr>" if "runtime_metrics a = (r4, a')"
    using that by (auto simp: runtime_metrics_def on_world_run)
qed

lemma close_run:
  "runtime_close rt a = (r, a') \<Longrightarrow> a' = a \<and> rs_closed a \<and> r = Inr () \<or> \<not> rs_closed a \<and> rs_closed a' \<and> \<not> rs_opened a' \<and> rs_manifest a' = rs_manifest a"
  by (auto simp: runtime_close_def on_world_run split: if_splits)

lemma step_keeps: "runtime_step K rt a call a' \<Longrightarrow> runtime_inv K rt a \<Longrightarrow> runtime_inv K rt a'"
  by (erule runtime_stepE) (auto dest!: only_world close_run open_keeps simp: runtime_inv_def)

lemma reachable_inv: "reachable K rt a \<Longrightarrow> runtime_inv K rt a"
proof (induction rule: reachable.induct)
  case (reachable_created s)
  show ?case by (simp add: created_def runtime_inv_def)
qed (rule step_keeps)

lemma pinned_manifest:
  assumes "pinned K rt p"
  shows "capability_manifest K (bd_engine_version (cc_binding (rt_context rt))) (rt_settings rt) = Inr (ap_manifest p)"
proof -
  let ?b = "cc_binding (rt_context rt)"
  from assms obtain s s' where
    run: "probe K (ch_client (rt_handle rt)) (rt_settings rt) (bd_tls_mode ?b) (Some (bd_engine_version ?b)) s = (Inr p, s')"
    and v: "mf_engine_version (ap_manifest p) = bd_engine_version ?b" unfolding pinned_def Let_def by blast
  obtain version where m: "capability_manifest K version (rt_settings rt) = Inr (ap_manifest p)" by (rule probe_run [OF run])
  then have "version = bd_engine_version ?b" using v capability_manifest_Inr [OF m] by (simp add: manifest_of_def)
  with m show ?thesis by simp
qed

lemma ensure_open_run:
  "ensure_open a = (if rs_closed a then Inl runtime_closed else if rs_opened a then Inr () else Inl runtime_not_open, a)"
  by (simp add: ensure_open_def ensure_not_closed_def thenM_def bindM_def)

text \<open>
  C19: an open runtime stands on a verified engine. In every state a runtime can reach by any sequence of calls,
  whatever the engine and others do in between, being open means not being closed and holding a startup
  probe that succeeded against its client, whose manifest is the one of the pinned engine version and of
  the runtime's settings: the binding's fingerprint is the expected capability fingerprint. A later
  probe that returns has this fingerprint too, and never reports an absent startup probe.
\<close>

theorem open_runtime_is_verified:
  assumes "reachable K rt a" "rs_opened a"
  shows "let b = cc_binding (rt_context rt) in
    \<not> rs_closed a \<and>
    (\<exists>p s s'. rs_manifest a = Some p \<and> ap_manifest p = manifest_of (bd_engine_version b) (rt_settings rt) \<and>
      probe K (ch_client (rt_handle rt)) (rt_settings rt) (bd_tls_mode b) (Some (bd_engine_version b)) s = (Inr p, s')) \<and>
    expected_capability_fingerprint K (bd_engine_version b) (rt_settings rt) = Inr (bd_required_capability_fingerprint b) \<and>
    (case fst (runtime_probe K rt a) of
       Inr p \<Rightarrow> manifest_fingerprint K (ap_manifest p) = bd_required_capability_fingerprint b
     | Inl e \<Rightarrow> e = meridian CompatibilityErrorC ''CAPABILITY_FINGERPRINT'' ''Valkey capability changed after startup'' [] \<or>
         fst (translated_probe K rt a) = Inl e)"
proof -
  let ?b = "cc_binding (rt_context rt)"
  from reachable_inv [OF assms(1)] assms(2) obtain p where p: "\<not> rs_closed a" "rs_manifest a = Some p" "pinned K rt p"
    by (auto simp: runtime_inv_def)
  note m = pinned_manifest [OF p(3)]
  have fp: "manifest_fingerprint K (ap_manifest p) = bd_required_capability_fingerprint ?b" using p(3) by (simp add: pinned_def Let_def)
  then have "expected_capability_fingerprint K (bd_engine_version ?b) (rt_settings rt) = Inr (bd_required_capability_fingerprint ?b)"
    by (simp add: expected_capability_fingerprint_def m)
  moreover have "case fst (runtime_probe K rt a) of
       Inr p \<Rightarrow> manifest_fingerprint K (ap_manifest p) = bd_required_capability_fingerprint ?b
     | Inl e \<Rightarrow> e = meridian CompatibilityErrorC ''CAPABILITY_FINGERPRINT'' ''Valkey capability changed after startup'' [] \<or>
         fst (translated_probe K rt a) = Inl e"
  proof (cases "translated_probe K rt a")
    case (Pair q a1)
    then obtain w where "a1 = a\<lparr>rs_world := w\<rparr>" using translated_probe_state by blast
    with p assms(2) fp Pair show ?thesis by (cases q) (simp_all add: runtime_probe_def thenM_def bindM_def ensure_open_run)
  qed
  moreover have "\<exists>s s'. probe K (ch_client (rt_handle rt)) (rt_settings rt) (bd_tls_mode ?b) (Some (bd_engine_version ?b)) s = (Inr p, s')"
    using p(3) by (simp add: pinned_def Let_def)
  ultimately show ?thesis using p capability_manifest_Inr [OF m] unfolding Let_def by blast
qed

text \<open>
  C20: closing is final and happens once. A close marks a runtime closed and not open and closes its handle,
  whether or not that raises; in a closed runtime every call but a further close and the counters
  raises the lifecycle error and changes nothing, a further close returns without touching the handle,
  and no step leads out of the closed state. In a runtime that is neither open nor closed, only open,
  close and the counters do anything.
\<close>

theorem close_is_final:
  "(if rs_closed a then
      runtime_close rt a = (Inr (), a) \<and> runtime_open K rt a = (Inl runtime_closed, a) \<and> runtime_probe K rt a = (Inl runtime_closed, a) \<and>
      runtime_verify_physical K rt rs a = (Inl runtime_closed, a) \<and> runtime_open_session rt transactional a = (Inl runtime_closed, a) \<and>
      runtime_cache rt a = (Inl runtime_closed, a) \<and> (\<forall>call a'. runtime_step K rt a call a' \<longrightarrow> rs_closed a' \<and> rs_opened a' = rs_opened a)
    else
      runtime_close rt a = (case handle_close (rt_handle rt) (w_ext (rs_world a)) of (r, s) \<Rightarrow>
        (r, a\<lparr>rs_world := (rs_world a)\<lparr>w_ext := s\<rparr>, rs_opened := False, rs_closed := True\<rparr>)) \<and>
      (rs_opened a \<or> runtime_probe K rt a = (Inl runtime_not_open, a) \<and> runtime_verify_physical K rt rs a = (Inl runtime_not_open, a) \<and>
        runtime_open_session rt transactional a = (Inl runtime_not_open, a) \<and> runtime_cache rt a = (Inl runtime_not_open, a)))"
proof (cases "rs_closed a")
  case True
  have calls: "runtime_close rt a = (Inr (), a)" "runtime_open K rt a = (Inl runtime_closed, a)"
    using True by (simp_all add: runtime_close_def runtime_open_def ensure_not_closed_def thenM_def bindM_def)
  have "rs_closed a' \<and> rs_opened a' = rs_opened a" if "runtime_step K rt a call a'" for call a'
    using that by (rule runtime_stepE) (use True calls in \<open>auto dest!: only_world\<close>)
  with True calls show ?thesis
    by (simp add: runtime_probe_def runtime_verify_physical_def runtime_open_session_def runtime_cache_def thenM_def bindM_def ensure_open_run)
next
  case False
  then show ?thesis
    by (auto simp: runtime_close_def on_world_def ext_def runtime_probe_def runtime_verify_physical_def runtime_open_session_def runtime_cache_def
        thenM_def bindM_def ensure_open_run split: prod.splits)
qed

subsection \<open>What the factory creates\<close>

lemma factory_created:
  assumes "factory_create U D H resolver builder mapper context s = (Inr rt, s')"
  shows "let b = cc_binding context; settings = rt_settings rt; vc = rt_cache rt in
    bd_adapter_id b = ''org.meridian.storage.valkey'' \<and> ValkeySettings_from_mapping (bd_settings b) = Inr settings \<and> wf_settings settings \<and>
    bd_engine_profile b = mf_engine_profile (manifest_of v settings) \<and> rt_context rt = context \<and>
    create_client_handle U D context settings resolver builder mapper s = (Inr (rt_handle rt), s') \<and>
    vc_client vc = ch_client (rt_handle rt) \<and> vc_settings vc = settings \<and> vc_host vc = H \<and>
    wf_encoder (vc_key_encoder vc) \<and> ke_namespace_generation (vc_key_encoder vc) = namespace_generation settings \<and>
    ke_maximum_key_bytes (vc_key_encoder vc) = max_key_bytes (limits settings) \<and>
    maximum_value_bytes (vc_codec vc) = max_value_bytes (limits settings)"
proof -
  let ?b = "cc_binding context"
  from assms obtain settings handle where r: "bd_adapter_id ?b = ADAPTER_ID" "ValkeySettings_from_mapping (bd_settings ?b) = Inr settings"
    "bd_engine_profile ?b = engine_profile settings"
    "create_client_handle U D context settings resolver builder mapper s = (Inr handle, s')"
    "ValkeyAdapterRuntime H context handle settings = Inr rt"
    unfolding factory_create_def Let_def by (auto simp: run_simps engine_profile_def split: if_split_asm)
  from r(5) obtain encoder codec where rt: "KeyEncoder (bd_physical_namespace ?b) (PInt (namespace_generation settings)) (max_key_bytes (limits settings)) = Inr encoder"
    "EnvelopeCodec (max_value_bytes (limits settings)) = Inr codec"
    "rt = \<lparr>rt_context = context, rt_handle = handle, rt_settings = settings,
       rt_cache = \<lparr>vc_client = ch_client handle, vc_key_encoder = encoder, vc_codec = codec, vc_settings = settings, vc_host = H\<rparr>\<rparr>"
    by (auto simp: ValkeyAdapterRuntime_def res_simps)
  note enc = wf_KeyEncoder [OF rt(1)]
  have "maximum_value_bytes codec = max_value_bytes (limits settings)" using rt(2) by (auto simp: EnvelopeCodec_def res_simps)
  with r enc wf_settings_parse [OF r(2)] show ?thesis by (simp add: rt(3) Let_def manifest_of_def ADAPTER_ID_def)
qed

text \<open>
  C36: a created runtime is consistent. A creation that returns selected this adapter, read the binding's settings,
  which satisfy every rule of the configuration, and found the engine profile that the runtime's manifest
  declares; the runtime's cache uses the client of the handle, the settings, an encoder of the
  settings' generation whose keys respect the key limit, and a codec with the value limit.
\<close>

theorem factory_creates_consistent:
  assumes "factory_create U D H resolver builder mapper context s = (Inr rt, s')"
  shows "let b = cc_binding context; settings = rt_settings rt; vc = rt_cache rt in
    bd_adapter_id b = ''org.meridian.storage.valkey'' \<and> ValkeySettings_from_mapping (bd_settings b) = Inr settings \<and> wf_settings settings \<and>
    bd_engine_profile b = mf_engine_profile (manifest_of v settings) \<and> rt_context rt = context \<and>
    create_client_handle U D context settings resolver builder mapper s = (Inr (rt_handle rt), s') \<and>
    vc_client vc = ch_client (rt_handle rt) \<and> vc_settings vc = settings \<and> vc_host vc = H \<and>
    wf_encoder (vc_key_encoder vc) \<and> ke_namespace_generation (vc_key_encoder vc) = namespace_generation settings \<and>
    ke_maximum_key_bytes (vc_key_encoder vc) = max_key_bytes (limits settings) \<and>
    maximum_value_bytes (vc_codec vc) = max_value_bytes (limits settings)"
  using factory_created [OF assms] .

subsection \<open>Examples\<close>

definition sample_runtime :: "int \<Rightarrow> fake runtime" where
  "sample_runtime n = \<lparr>rt_context = sample_create n, rt_handle = \<lparr>ch_client = fake_client, ch_closers = []\<rparr>,
     rt_settings = sample_settings, rt_cache = sample_cache\<rparr>"

lemma sample_created:
  "factory_create no_tables sample_driver (fake_host 10) None None None (sample_create n) FakeValkey = (Inr (sample_runtime n), FakeValkey)"
proof -
  have "bd_settings (cc_binding (sample_create n)) = sample_mapping" "bd_adapter_id (cc_binding (sample_create n)) = ADAPTER_ID"
    "bd_engine_profile (cc_binding (sample_create n)) = ENGINE_PROFILE_STANDALONE" "bd_physical_namespace (cc_binding (sample_create n)) = ''app''"
    by (simp_all add: sample_create_def sample_binding_def)
  moreover have "ValkeyAdapterRuntime (fake_host 10) (sample_create n) \<lparr>ch_client = fake_client, ch_closers = []\<rparr> sample_settings = Inr (sample_runtime n)"
    using sample_encoder_ok [of 1] calculation(4)
    by (simp add: ValkeyAdapterRuntime_def EnvelopeCodec_def sample_runtime_def sample_cache_def fake_cache_def sample_codec_def)
      (simp add: sample_settings_def)
  ultimately show ?thesis
    using sample_handle [of _ FakeValkey]
    by (simp add: factory_create_def sample_settings_parse bindM_def) (simp add: sample_settings_def TOPOLOGY_SENTINEL_def)
qed

theorem factory_creates_consistent_witness:
  "factory_create no_tables sample_driver (fake_host 10) None None None (sample_create 1048576) FakeValkey = (Inr (sample_runtime 1048576), FakeValkey) \<and>
   wf_settings (rt_settings (sample_runtime 1048576)) \<and> wf_encoder (vc_key_encoder (rt_cache (sample_runtime 1048576)))"
  using factory_creates_consistent [OF sample_created, of 1048576 "''8.1.9''"] sample_created [of 1048576] by (simp add: Let_def)

lemma sample_opened:
  obtains a where "reachable ref_core (sample_runtime n) a" "rs_opened a"
proof -
  let ?b = "cc_binding (rt_context (sample_runtime n))"
  obtain p s' where p: "probe ref_core fake_client sample_settings (bd_tls_mode ?b) (Some (bd_engine_version ?b)) FakeValkey = (Inr p, s')"
    "ap_manifest p = manifest_of ''8.1.9'' sample_settings" by (rule sample_probe_run)
  have b: "bd_engine_version ?b = ''8.1.9''" "bd_required_capability_fingerprint ?b = ''8.1.9''" "rt_settings (sample_runtime n) = sample_settings"
    "ch_client (rt_handle (sample_runtime n)) = fake_client"
    by (simp_all add: sample_runtime_def sample_create_def sample_binding_def)
  obtain a where a: "translated_probe ref_core (sample_runtime n) (created FakeValkey) = (Inr p, a)"
    using p(1) by (simp add: translated_probe_def b Let_def catchM_def on_world_def ext_def created_def)
  have "runtime_open ref_core (sample_runtime n) (created FakeValkey) = (Inr (), a\<lparr>rs_manifest := Some p, rs_opened := True\<rparr>)"
    using a p(2) b by (simp add: runtime_open_def ensure_not_closed_def thenM_def bindM_def manifest_of_def) (simp add: created_def)
  from reachable_step [OF reachable_created step_open [OF this]] show ?thesis by (rule that) simp
qed

theorem open_runtime_is_verified_witness:
  "\<exists>a. reachable ref_core (sample_runtime 1048576) a \<and> rs_opened a \<and> \<not> rs_closed a \<and>
    expected_capability_fingerprint ref_core ''8.1.9'' sample_settings = Inr ''8.1.9''"
proof -
  obtain a where a: "reachable ref_core (sample_runtime 1048576) a" "rs_opened a" by (rule sample_opened)
  with open_runtime_is_verified [OF a] show ?thesis
    by (auto simp: Let_def sample_runtime_def sample_create_def sample_binding_def)
qed

theorem close_is_final_witness:
  "\<exists>a. reachable ref_core (sample_runtime 1048576) a \<and> rs_closed a \<and> runtime_open ref_core (sample_runtime 1048576) a = (Inl runtime_closed, a)"
proof -
  let ?a = "created FakeValkey :: fake runtime_state"
  obtain r a where run: "runtime_close (sample_runtime 1048576) ?a = (r, a)" by (cases "runtime_close (sample_runtime 1048576) ?a")
  have "rs_closed a" using close_run [OF run] by (auto simp: created_def)
  with close_is_final [of a "sample_runtime 1048576" ref_core "[]" False] reachable_step [OF reachable_created step_close [OF run]]
  show ?thesis by auto
qed

end
