(* ===== verification/Vk_Release.thy ===== *)
theory Vk_Release
  imports Vk_Operations "HOL-Library.Sublist"
begin

section \<open>The release scripts\<close>

text \<open>
  \<^verbatim>\<open>scripts/check-spdx.py\<close> and \<^verbatim>\<open>scripts/generate-release-evidence.py\<close> on a repository given as a
  parameter: what git answers and what the files hold. A path is the text after the root. What is
  printed is a result; of the evidence file the value is modelled, not its layout.
\<close>

subsection \<open>Files and paths\<close>

record tree =
  tr_which_git :: "string option"
  tr_run :: "string list \<Rightarrow> string res"
  tr_is_file :: "string \<Rightarrow> bool"
  tr_read_bytes :: "string \<Rightarrow> bytes res"
  tr_iterdir :: "string \<Rightarrow> string list res"
  tr_python_version :: string
  tr_package_version :: "string \<Rightarrow> string res"
  tr_json_limit :: nat

text \<open>\<^verbatim>\<open>PurePosixPath.name\<close> and \<^verbatim>\<open>.suffix\<close>.\<close>

fun split_on :: "char \<Rightarrow> string \<Rightarrow> string list" where
  "split_on d [] = [[]]"
| "split_on d (c # cs) = (if c = d then [] # split_on d cs
     else (case split_on d cs of w # ws \<Rightarrow> (c # w) # ws | [] \<Rightarrow> [[c]]))"

definition path_name :: "string \<Rightarrow> string" where
  "path_name p = (case rev (filter (\<lambda>w. w \<noteq> [] \<and> w \<noteq> ''.'') (split_on CHR ''/'' p)) of w # _ \<Rightarrow> w | [] \<Rightarrow> [])"

definition path_suffix :: "string \<Rightarrow> string" where
  "path_suffix p =
     (let n = path_name p; tail = takeWhile (\<lambda>c. c \<noteq> CHR ''.'') (rev n) in
      if tail \<noteq> [] \<and> length tail + 1 < length n then CHR ''.'' # rev tail else [])"

text \<open>\<^verbatim>\<open>str.splitlines\<close>: all the line boundaries of Python, in UTF-8.\<close>

fun line_end :: "string \<Rightarrow> nat" where
  "line_end (a # b # c # _) =
     (if a = CHR 0x0D \<and> b = CHR 0x0A then 2
      else if a \<in> {CHR 0x0A, CHR 0x0B, CHR 0x0C, CHR 0x0D, CHR 0x1C, CHR 0x1D, CHR 0x1E} then 1
      else if a = CHR 0xC2 \<and> b = CHR 0x85 then 2
      else if a = CHR 0xE2 \<and> b = CHR 0x80 \<and> (c = CHR 0xA8 \<or> c = CHR 0xA9) then 3 else 0)"
| "line_end [a, b] =
     (if a = CHR 0x0D \<and> b = CHR 0x0A then 2
      else if a \<in> {CHR 0x0A, CHR 0x0B, CHR 0x0C, CHR 0x0D, CHR 0x1C, CHR 0x1D, CHR 0x1E} then 1
      else if a = CHR 0xC2 \<and> b = CHR 0x85 then 2 else 0)"
| "line_end [a] = (if a \<in> {CHR 0x0A, CHR 0x0B, CHR 0x0C, CHR 0x0D, CHR 0x1C, CHR 0x1D, CHR 0x1E} then 1 else 0)"
| "line_end [] = 0"

function lines_from :: "string \<Rightarrow> string \<Rightarrow> string list" where
  "lines_from cur [] = (if cur = [] then [] else [rev cur])"
| "lines_from cur (c # cs) = (let n = line_end (c # cs) in
     if 0 < n then rev cur # lines_from [] (drop n (c # cs)) else lines_from (c # cur) cs)"
  by pat_completeness auto
termination by (relation "measure (\<lambda>(cur, s). length s)") auto

definition splitlines :: "string \<Rightarrow> string list" where
  "splitlines s = lines_from [] s"

text \<open>\<^verbatim>\<open>Path.read_text(encoding="utf-8")\<close> translates the line ends; \<^verbatim>\<open>s[:n]\<close> counts code points.\<close>

fun universal_newlines :: "string \<Rightarrow> string" where
  "universal_newlines (a # b # cs) =
     (if a = CHR 0x0D \<and> b = CHR 0x0A then CHR 0x0A # universal_newlines cs
      else (if a = CHR 0x0D then CHR 0x0A else a) # universal_newlines (b # cs))"
| "universal_newlines [a] = [if a = CHR 0x0D then CHR 0x0A else a]"
| "universal_newlines [] = []"

definition read_text :: "tree \<Rightarrow> string \<Rightarrow> string res" where
  "read_text T p = bindE (tr_read_bytes T p) (\<lambda>b. bindE (utf8_decode b) (\<lambda>s. Inr (universal_newlines s)))"

fun take_points :: "nat \<Rightarrow> string \<Rightarrow> string" where
  "take_points n [] = []"
| "take_points n (c # cs) =
     (if utf8_cont c then c # take_points n cs
      else (case n of 0 \<Rightarrow> [] | Suc m \<Rightarrow> c # take_points m cs))"

subsection \<open>The SPDX check\<close>

definition SPDX_SUFFIXES :: "string list" where
  "SPDX_SUFFIXES = [''.conf'', ''.json'', ''.md'', ''.py'', ''.sh'', ''.toml'', ''.yaml'', ''.yml'']"

definition SPDX_EXCLUDED :: "string list" where
  "SPDX_EXCLUDED = [''LICENSE'', ''NOTICE'']"

definition SPDX_MARKER :: string where
  "SPDX_MARKER = ''SPDX-License-Identifier: Apache-2.0''"

definition spdx_checked :: "tree \<Rightarrow> string \<Rightarrow> bool" where
  "spdx_checked T p = (tr_is_file T p \<and> path_name p \<notin> set SPDX_EXCLUDED \<and> path_suffix p \<in> set SPDX_SUFFIXES)"

fun spdx_missing :: "tree \<Rightarrow> string list \<Rightarrow> string list res" where
  "spdx_missing T [] = Inr []"
| "spdx_missing T (p # ps) =
     (if \<not> spdx_checked T p then spdx_missing T ps
      else bindE (read_text T p) (\<lambda>t.
        bindE (spdx_missing T ps) (\<lambda>lacking.
        Inr (if sublist SPDX_MARKER (take_points 4096 t) then lacking else p # lacking))))"

fun join_lines :: "string list \<Rightarrow> string" where
  "join_lines [] = []"
| "join_lines [l] = l"
| "join_lines (l # ls) = l @ CHR 0x0A # join_lines ls"

definition spdx_main :: "tree \<Rightarrow> (int \<times> string list) res" where
  "spdx_main T = (case tr_which_git T of
     None \<Rightarrow> Inl (RuntimeError ''git is required for the SPDX check'')
   | Some git \<Rightarrow>
       bindE (tr_run T [git, ''ls-files'', ''--cached'', ''--others'', ''--exclude-standard'']) (\<lambda>out.
       bindE (spdx_missing T (sort (filter (\<lambda>l. l \<noteq> []) (splitlines out)))) (\<lambda>lacking.
       Inr (if lacking \<noteq> [] then (1, [''missing SPDX-License-Identifier: Apache-2.0:'', join_lines lacking])
            else (0, [''SPDX check passed''])))))"

text \<open>A file that carries the marker where the check looks for it.\<close>

definition marked :: "tree \<Rightarrow> string \<Rightarrow> bool" where
  "marked T p = (case read_text T p of Inr t \<Rightarrow> sublist SPDX_MARKER (take_points 4096 t) | Inl _ \<Rightarrow> False)"

lemma spdx_missing_exact:
  assumes "spdx_missing T ps = Inr lacking"
  shows "lacking = filter (\<lambda>p. \<not> marked T p) (filter (spdx_checked T) ps) \<and>
    (\<forall>p \<in> set (filter (spdx_checked T) ps). \<exists>t. read_text T p = Inr t)"
  using assms
proof (induction ps arbitrary: lacking)
  case (Cons p ps)
  then show ?case by (cases "spdx_checked T p") (auto simp: res_simps marked_def)
qed simp

text \<open>
  C40: the licence check is exact. When the check returns, git was found and listed the files, and every listed file
  with a checked suffix and name was readable as UTF-8; the exit code is 0 exactly when each of them
  has the marker within its first 4096 characters, and otherwise it is 1 and the files without the
  marker are printed in order.
\<close>

theorem spdx_check_exact:
  assumes "spdx_main T = Inr (code, printed)"
  shows "\<exists>git out checked. tr_which_git T = Some git \<and>
    tr_run T [git, ''ls-files'', ''--cached'', ''--others'', ''--exclude-standard''] = Inr out \<and>
    checked = filter (spdx_checked T) (sort (filter (\<lambda>l. l \<noteq> []) (splitlines out))) \<and>
    (\<forall>p \<in> set checked. \<exists>t. read_text T p = Inr t) \<and>
    (if \<forall>p \<in> set checked. marked T p then code = 0 \<and> printed = [''SPDX check passed'']
     else code = 1 \<and> printed = [''missing SPDX-License-Identifier: Apache-2.0:'', join_lines (filter (\<lambda>p. \<not> marked T p) checked)])"
proof -
  from assms obtain git out lacking where run: "tr_which_git T = Some git"
    "tr_run T [git, ''ls-files'', ''--cached'', ''--others'', ''--exclude-standard''] = Inr out"
    "spdx_missing T (sort (filter (\<lambda>l. l \<noteq> []) (splitlines out))) = Inr lacking"
    "(code, printed) = (if lacking \<noteq> [] then (1, [''missing SPDX-License-Identifier: Apache-2.0:'', join_lines lacking])
       else (0, [''SPDX check passed'']))"
    by (cases "tr_which_git T") (auto simp: spdx_main_def bindE_eq_Inr)
  let ?checked = "filter (spdx_checked T) (sort (filter (\<lambda>l. l \<noteq> []) (splitlines out)))"
  note exact = spdx_missing_exact [OF run(3)]
  have "lacking = [] \<longleftrightarrow> (\<forall>p \<in> set ?checked. marked T p)" using exact [THEN conjunct1] by (auto simp: filter_empty_conv)
  then have "if \<forall>p \<in> set ?checked. marked T p then code = 0 \<and> printed = [''SPDX check passed'']
     else code = 1 \<and> printed = [''missing SPDX-License-Identifier: Apache-2.0:'', join_lines (filter (\<lambda>p. \<not> marked T p) ?checked)]"
    using run(4) unfolding exact [THEN conjunct1, symmetric] by (cases "lacking = []") simp_all
  then show ?thesis by (intro exI conjI) (rule run(1) run(2) refl exact [THEN conjunct2] | assumption)+
qed

subsection \<open>The release evidence\<close>

definition digest :: "tree \<Rightarrow> string \<Rightarrow> string res" where
  "digest T p = bindE (tr_read_bytes T p) (\<lambda>b. Inr (''sha256:'' @ hexdigest (sha256 b)))"

definition artifacts :: "tree \<Rightarrow> mapping res" where
  "artifacts T =
     bindE (tr_iterdir T ''dist'') (\<lambda>names.
     bindE (mapE (\<lambda>n. bindE (digest T (''dist/'' @ n)) (\<lambda>d. Inr (PStr n, PStr d)))
       (filter (\<lambda>n. tr_is_file T (''dist/'' @ n) \<and> path_suffix n \<in> {''.gz'', ''.whl''}) (sort names))) (\<lambda>found.
     bindE (guardE (length found = 2) (RuntimeError ''release evidence requires exactly one wheel and one sdist'')) (\<lambda>_.
     Inr found)))"

definition subscript :: "pyval \<Rightarrow> string \<Rightarrow> pyval res" where
  "subscript v k = (case v of PDict m \<Rightarrow> dict_item m k | _ \<Rightarrow> Inl (TypeError ''object is not subscriptable by a string''))"

definition engine_images :: "tree \<Rightarrow> pyval res" where
  "engine_images T =
     bindE (read_text T ''compatibility.json'') (\<lambda>t.
     bindE (json_loads (tr_json_limit T) t) (\<lambda>v.
     bindE (subscript v ''engine'') (\<lambda>v. subscript v ''images'')))"

definition release_evidence :: "tree \<Rightarrow> pyval res" where
  "release_evidence T = (case tr_which_git T of
     None \<Rightarrow> Inl (RuntimeError ''git is required to generate release evidence'')
   | Some git \<Rightarrow>
       bindE (tr_run T [git, ''rev-parse'', ''HEAD'']) (\<lambda>out.
       bindE (artifacts T) (\<lambda>found.
       bindE (digest T ''compatibility.json'') (\<lambda>compatibility.
       bindE (digest T ''evidence/conformance-vectors.json'') (\<lambda>vectors.
       bindE (mapE (\<lambda>n. bindE (tr_package_version T n) (\<lambda>v. Inr (PStr n, PStr v)))
         [''meridian-storage-core'', ''meridian-storage-semantics'', ''valkey'']) (\<lambda>packages.
       bindE (engine_images T) (\<lambda>images.
       bindE (digest T ''requirements.lock'') (\<lambda>lock.
       Inr (PDict [
         (PStr ''$comment'', PStr ''SPDX-License-Identifier: Apache-2.0''),
         (PStr ''formatVersion'', PStr ''meridian-valkey-release-evidence.v1''),
         (PStr ''version'', PStr ''1.1.0''),
         (PStr ''sourceRevision'', PStr (strip out)),
         (PStr ''compatibilityDigest'', PStr compatibility),
         (PStr ''conformanceVectorDigest'', PStr vectors),
         (PStr ''artifacts'', PDict found),
         (PStr ''validationEnvironment'', PDict [
           (PStr ''python'', PStr (tr_python_version T)),
           (PStr ''packages'', PDict packages),
           (PStr ''engineImages'', images),
           (PStr ''requirementsLockDigest'', PStr lock)]),
         (PStr ''verification'', PDict [
           (PStr ''unitContractConformance'', PStr ''passed''),
           (PStr ''standalone'', PStr ''passed''),
           (PStr ''sentinelFailover'', PStr ''passed'')])])))))))))"

text \<open>
  The evidence lists exactly two artifacts of the distribution with the digests of their bytes. Nothing says that one
  is a wheel and one a source archive: the count is all that is checked, as two wheels show.
\<close>

lemma mapE_Inr_all2: "mapE f xs = Inr ys \<Longrightarrow> list_all2 (\<lambda>x y. f x = Inr y) xs ys"
  by (induction xs arbitrary: ys) (auto simp: res_simps)

lemma artifacts_exact:
  assumes "artifacts T = Inr found"
  obtains n1 n2 b1 b2 where "found = [(PStr n1, PStr (''sha256:'' @ hexdigest (sha256 b1))), (PStr n2, PStr (''sha256:'' @ hexdigest (sha256 b2)))]"
    "tr_read_bytes T (''dist/'' @ n1) = Inr b1" "tr_read_bytes T (''dist/'' @ n2) = Inr b2"
    "path_suffix n1 \<in> {''.gz'', ''.whl''}" "path_suffix n2 \<in> {''.gz'', ''.whl''}"
proof -
  let ?f = "\<lambda>n. bindE (digest T (''dist/'' @ n)) (\<lambda>d. Inr (PStr n, PStr d))"
  from assms obtain names where run: "mapE ?f (filter (\<lambda>n. tr_is_file T (''dist/'' @ n) \<and> path_suffix n \<in> {''.gz'', ''.whl''}) (sort names)) = Inr found"
    "length found = 2" by (auto simp: artifacts_def res_simps)
  let ?ns = "filter (\<lambda>n. tr_is_file T (''dist/'' @ n) \<and> path_suffix n \<in> {''.gz'', ''.whl''}) (sort names)"
  have all2: "list_all2 (\<lambda>n y. ?f n = Inr y) ?ns found" by (rule mapE_Inr_all2 [OF run(1)])
  then have "length ?ns = 2" using run(2) by (simp add: list_all2_lengthD)
  then obtain n1 n2 where ns: "?ns = [n1, n2]" by (auto simp: numeral_2_eq_2 length_Suc_conv)
  have "path_suffix n \<in> {''.gz'', ''.whl''}" if "n \<in> set [n1, n2]" for n using that unfolding ns [symmetric] by simp
  with all2 that show ?thesis unfolding ns by (auto simp: list_all2_Cons1 digest_def res_simps)
qed

lemma two_wheels_accepted:
  assumes "tr_iterdir T ''dist'' = Inr [''a.whl'', ''b.whl'']" "\<And>p. tr_is_file T p" "\<And>p. tr_read_bytes T p = Inr []"
  shows "\<exists>found. artifacts T = Inr found"
proof -
  have "path_suffix ''a.whl'' = ''.whl''" "path_suffix ''b.whl'' = ''.whl''" by (simp_all add: path_suffix_def path_name_def Let_def)
  then show ?thesis using assms by (simp add: artifacts_def digest_def guardE_def)
qed

subsection \<open>Examples\<close>

definition sample_tree :: tree where
  "sample_tree = \<lparr>tr_which_git = Some ''git'', tr_run = (\<lambda>_. Inr (''b.py'' @ [CHR 0x0A] @ ''LICENSE'' @ [CHR 0x0A] @ ''a.py'' @ [CHR 0x0A])),
     tr_is_file = (\<lambda>_. True),
     tr_read_bytes = (\<lambda>p. if p = ''a.py'' then Inr (''# SPDX-License-Identifier: Apache-2.0'' @ [CHR 0x0A]) else Inr ''#''),
     tr_iterdir = (\<lambda>_. Inr []), tr_python_version = ''3.12'', tr_package_version = (\<lambda>_. Inr ''1''), tr_json_limit = 100\<rparr>"

theorem spdx_check_exact_witness:
  "\<exists>printed. spdx_main sample_tree = Inr (1, printed) \<and> printed = [''missing SPDX-License-Identifier: Apache-2.0:'', ''b.py'']"
proof -
  have run: "spdx_main sample_tree = Inr (1, [''missing SPDX-License-Identifier: Apache-2.0:'', ''b.py''])" by code_simp
  with spdx_check_exact [OF run] show ?thesis by blast
qed

end
