(* ===== verification/Spec2Isabelle.thy ===== *)
theory Spec2Isabelle
  imports Vk_Cache_Safety Vk_Increment Vk_Runtime Vk_Sharing Vk_Release
begin

text \<open>
  A verification library for the Valkey adapter of Meridian Storage.

  \<^bold>\<open>The program.\<close> The adapter makes a Valkey server the cache of Meridian Storage, which is never an
  authority. Its sources are the modules of \<^verbatim>\<open>src/src/meridian_storage/adapters/valkey\<close>. A binding selects the adapter
  and carries its settings. \<^verbatim>\<open>ValkeyAdapterFactory.create\<close> (\<^verbatim>\<open>runtime.py\<close>) reads them (\<^verbatim>\<open>configuration.py\<close>), connects
  (\<^verbatim>\<open>client.py\<close>) and builds a runtime, whose \<^verbatim>\<open>open\<close> probes the server (\<^verbatim>\<open>probe\<close>) and compares its capability
  manifest (\<^verbatim>\<open>descriptor\<close>) with the pins of the binding. A session of an open runtime turns the operations
  GET, PUT, PUT_IF_ABSENT, COMPARE_AND_SET, DELETE and INVALIDATE into calls of \<^verbatim>\<open>ValkeyCache\<close> (\<^verbatim>\<open>cache\<close>). The cache computes
  a digest-only key (\<^verbatim>\<open>key\<close>), wraps the value in a self-validating envelope (\<^verbatim>\<open>codec\<close>), stores it with a TTL
  and uses the leases and Lua scripts of \<^verbatim>\<open>atomic\<close>. Failures of the client library become Meridian failures
  (\<^verbatim>\<open>errors.py\<close>).

  \<^bold>\<open>Method.\<close> Python functions become HOL functions with the source's names, checks in the source's order. A value
  the code inspects with \<^verbatim>\<open>isinstance\<close> is a \<open>pyval\<close>; the other values have the static type of the code. A fallible
  pure function returns \<open>exn + 'a\<close>, and every raise is a branch; a stateful one has the type \<open>('s, 'a) py\<close>, from a
  state to a result and a state. The state of the world outside the adapter is the type variable \<open>'s\<close>; the cache adds
  its counters (\<open>world\<close>), the runtime its flags (\<open>runtime_state\<close>). Strings are char lists that hold UTF-8.

  \<^bold>\<open>Theories.\<close>
  \<^item> \<^verbatim>\<open>Vk_Prelude\<close>: Python values, exceptions, the two monads, their rules (weakest preconditions \<open>wpM\<close>, the exceptions a
    computation may raise \<open>onlyE\<close>, successful runs \<open>run_simps\<close>). \<^verbatim>\<open>Vk_Stdlib\<close>, \<^verbatim>\<open>Vk_Json\<close>, \<^verbatim>\<open>Vk_Hashlib\<close>, \<^verbatim>\<open>Vk_Rounding\<close>,
    \<^verbatim>\<open>Vk_Urlsplit\<close>: what the code uses of the standard library, executable: number formats, UTF-8, base64, \<^verbatim>\<open>json.loads\<close>, SHA-1 and
    SHA-256, doubles, \<^verbatim>\<open>urlsplit\<close>.
  \<^item> \<^verbatim>\<open>Vk_Canonical\<close> (\<^verbatim>\<open>_canonical.py\<close>), \<^verbatim>\<open>Vk_Errors\<close>, \<^verbatim>\<open>Vk_Configuration\<close>, \<^verbatim>\<open>Vk_Key\<close>, \<^verbatim>\<open>Vk_Codec\<close>: the pure modules. Lemma groups: what each
    reader accepts and raises, well-formed settings, the shape and injectivity of keys, the round trip of
    envelopes and what an accepted one guarantees. \<^verbatim>\<open>Vk_Canonical_Json\<close> states what is relied on of the core's
    canonical JSON writer (locale \<open>canonical_json\<close>, predicate \<open>lawful_json\<close>) and shows that a reference writer meets it.
  \<^item> \<^verbatim>\<open>Vk_Engine\<close> (the client protocol and the host as records of operations), \<^verbatim>\<open>Vk_Scripts\<close>, \<^verbatim>\<open>Vk_Atomic\<close> (\<^verbatim>\<open>atomic\<close>) and \<^verbatim>\<open>Vk_Cache\<close>
    (\<^verbatim>\<open>cache\<close>): the operations over any client. \<^verbatim>\<open>Vk_Cache_Safety\<close> and \<^verbatim>\<open>Vk_Increment\<close> prove what holds on every engine.
  \<^item> \<^verbatim>\<open>Vk_Contract\<close> (locale \<open>engine_contract\<close>, an abstract store of entries with expiry and the meaning of the two scripts),
    \<^verbatim>\<open>Vk_Refinement\<close> (locale \<open>cache_contract\<close>: every cache operation refines a short specification on that store),
    \<^verbatim>\<open>Vk_Fake\<close> (\<^verbatim>\<open>src/tests/fakes.py\<close>, on which the locales are interpreted) and \<^verbatim>\<open>Vk_Cache_Theorems\<close>.
  \<^item> \<^verbatim>\<open>Vk_Sharing\<close>: many callers on one engine, as step relations with invariants by rule induction: leases under every
    interleaving, and compare-and-set while others write (locale \<open>atomic_engine\<close>).
  \<^item> \<^verbatim>\<open>Vk_Descriptor\<close>, \<^verbatim>\<open>Vk_Probe\<close>, \<^verbatim>\<open>Vk_Client\<close>: the modules of these names. \<^verbatim>\<open>Vk_Operations\<close>, \<^verbatim>\<open>Vk_Session\<close>, \<^verbatim>\<open>Vk_Runtime\<close>: the functions,
    the session, and the runtime and factory of \<^verbatim>\<open>runtime.py\<close>, with the reachable states of a runtime.
  \<^item> \<^verbatim>\<open>Vk_Release\<close>: the two scripts of \<^verbatim>\<open>src/scripts\<close>.
  \<^item> This theory: properties of the whole, from the factory to the stored entry.

  \<^bold>\<open>Parameters.\<close> Code outside the repository is an argument. \<open>lib\<close>: the canonical JSON writer and the
  parser of resource references of the core, and the depth at which \<^verbatim>\<open>json.loads\<close> gives up. \<open>core\<close>: the checks of the core's classes, \<^verbatim>\<open>str\<close> of numbers, the fingerprint of a manifest. \<open>client\<close>, \<open>driver\<close>, \<open>sentinel\<close>:
  the Valkey library. \<open>host\<close>: clocks, random tokens, \<^verbatim>\<open>sleep\<close>, the event sink. \<open>unicode\<close>: normalisation and lower case beyond
  ASCII. \<open>tree\<close>: git and the files. The service resolver, address mapper and client builder are arguments too.

  \<^bold>\<open>Bounds and fuel.\<close> Only the wait of \<^verbatim>\<open>get_or_load\<close> for a peer has fuel. It is enough when the monotonic clock advances by some
  amount with every sleep: \<open>get_or_load_terminates\<close> gives the number. All other loops are structural or have a measure.
  Integers are unbounded as in Python; doubles round once to nearest, ties to even; 32-bit words appear in the
  hash functions and 16-bit ones in the CRC of cluster slots. Numerals have Python's limit of 4300 digits. Base64 is CPython's strict decoder.

  \<^bold>\<open>Assumptions.\<close> A SHA-256 collision is always an explicit alternative of a conclusion. Properties on an engine that meets the
  contract assume that it is reachable and evicts nothing; those of \<^verbatim>\<open>Vk_Cache_Safety\<close>, \<^verbatim>\<open>Vk_Increment\<close> and the probe assume nothing.

  \<^bold>\<open>Not modelled.\<close> The package's \<^verbatim>\<open>__init__\<close> files (imports and exported names). The lock of \<^verbatim>\<open>CacheMetrics\<close>: a call is one step.
  The text of the messages that quote a name, and the \<^verbatim>\<open>__cause__\<close> of an exception. The layout of the written release evidence. Protocol classes
  and type aliases have no content beyond the types of the records. What the Valkey library does on the wire is a parameter.
\<close>

section \<open>The service a runtime gives\<close>

lemma open_session_run:
  assumes "reachable K rt a" "runtime_open_session rt transactional a = (Inr ses, a')"
  shows "\<not> transactional \<and> rs_opened a \<and> a' = a \<and> ses = ValkeyAdapterSession (rt_cache rt) (bd_id (cc_binding (rt_context rt)))
    (bd_max_result_bytes (cc_binding (rt_context rt)))"
  using assms(2) by (auto simp: runtime_open_session_def thenM_def bindM_def ensure_open_run split: if_splits)

lemma put_has_key:
  assumes "put L vc context ref k x requested source w = (Inr d, w1)"
  obtains key policy where "physical_key L vc context ref k PNone = Inr (key, policy)"
  using assms by (auto simp: put_def run_simps)

lemma physical_key_bound:
  assumes "physical_key L vc context ref k g = Inr (key, policy)"
  shows "int (length key) \<le> ke_maximum_key_bytes (vc_key_encoder vc)"
  using assms by (auto simp: physical_key_def encode_key_def res_simps Let_def)

text \<open>
  C6: from the binding to the stored value. Take a runtime the factory created from a binding, in any state it can
  reach, and a session it opened, on an engine that meets the contract. Then the session is not
  transactional and the engine is the one the binding pins: the required fingerprint is the expected
  one for the binding's version and settings. When a PUT through the session returns, the entry it
  reports is stored under a key within the configured limit for a positive time that exceeds neither
  the deployment's nor the requested TTL, its value is the one of the request, and a GET of this key at
  any later time answers with the same entry until that time is over and with a miss from then on.
\<close>

theorem service_round_trip:
  assumes "factory_create U D H resolver builder mapper create s = (Inr rt, s0)"
    "engine_contract (ch_client (rt_handle rt)) H good store loaded" "lawful_json L" "utf8_ok (rr_canonical ref)"
    "reachable K rt a" "runtime_open_session rt transactional a = (Inr ses, a')"
    "dict_item input ''key'' = Inr k" "dict_item input' ''key'' = Inr k" "good (w_ext (rs_world a'))"
    "execute L K ses (cache_request ses PUT_CONTRACT context ref input) (rs_world a') = (Inr r, w1)"
    "good (w_ext w2)" "store (w_ext w2) = v_at t (store (w_ext w1))"
  shows "\<not> transactional \<and>
    expected_capability_fingerprint K (bd_engine_version (cc_binding create)) (rt_settings rt) =
      Inr (bd_required_capability_fingerprint (cc_binding create)) \<and>
    (\<exists>key policy v x ttl_ms d e w3. physical_key L (rt_cache rt) context ref k PNone = Inr (key, policy) \<and>
      int (length key) \<le> max_key_bytes (limits (rt_settings rt)) \<and> 0 < ttl_ms \<and> ttl_ms \<le> ttl_maximum_ms (ttl (rt_settings rt)) \<and>
      (\<forall>i. dict_get input ''ttlMs'' PNone = PInt i \<and> x \<noteq> PNone \<longrightarrow> ttl_ms \<le> i) \<and>
      dict_item input ''value'' = Inr v \<and> operation_value (rt_cache rt) ref v = Inr x \<and>
      same_value L (rp_serializer_id policy) x (de_value d) \<and> entry (Some d) = Inr e \<and>
      xr_data r = PDict [(PStr ''stored'', PBool True), (PStr ''entry'', e)] \<and>
      execute L K ses (cache_request ses GET_CONTRACT context ref input') w2 =
        (bounded_result L K ses (if t < v_now (store (w_ext (rs_world a'))) + ttl_ms
           then (PDict [(PStr ''hit'', PBool True), (PStr ''entry'', e)], ''hit'') else (PDict [(PStr ''hit'', PBool False)], ''miss'')), w3))"
proof -
  let ?b = "cc_binding create" and ?vc = "rt_cache rt"
  note made = factory_created [OF assms(1), unfolded Let_def]
  have vc: "vc_client ?vc = ch_client (rt_handle rt)" "vc_host ?vc = H" "vc_settings ?vc = rt_settings rt" "wf_settings (rt_settings rt)"
    "ke_maximum_key_bytes (vc_key_encoder ?vc) = max_key_bytes (limits (rt_settings rt))" "rt_context rt = create"
    using made by blast+
  note session = open_session_run [OF assms(5,6)]
  have ses: "vs_cache ses = ?vc" "\<not> vs_closed ses" using session by (simp_all add: ValkeyAdapterSession_def)
  obtain p where p: "pinned K rt p" using reachable_inv [OF assms(5)] session by (auto simp: runtime_inv_def)
  have pin: "expected_capability_fingerprint K (bd_engine_version ?b) (rt_settings rt) = Inr (bd_required_capability_fingerprint ?b)"
    using pinned_manifest [OF p] p by (simp add: expected_capability_fingerprint_def pinned_def Let_def vc(6))
  obtain k' v0 x0 requested0 source d0 e0 where put: "dict_item input ''key'' = Inr k'"
    "put L (vs_cache ses) context ref k' x0 requested0 source (rs_world a') = (Inr d0, w1)"
    by (rule execute_put_run [OF ses(2) assms(10)])
  then obtain key policy where key: "physical_key L ?vc context ref k PNone = Inr (key, policy)"
    using put_has_key [OF put(2)] assms(7) ses(1) by auto
  have contract: "engine_contract (vc_client ?vc) (vc_host ?vc) good store loaded" using assms(2) vc by simp
  from session_put_then_get [OF contract assms(3) _ assms(4) ses assms(7,8) key assms(9-12)] vc(3,4) obtain v x requested ttl_ms d e w3 where
    r: "dict_item input ''value'' = Inr v" "operation_value ?vc ref v = Inr x" "optional_int (dict_get input ''ttlMs'' PNone) ''ttlMs'' = Inr requested"
    "effective_ttl_ms (rt_settings rt) policy requested (x = PNone \<and> rp_negative_caching policy) = Inr ttl_ms"
    "same_value L (rp_serializer_id policy) x (de_value d)" "entry (Some d) = Inr e"
    "xr_data r = PDict [(PStr ''stored'', PBool True), (PStr ''entry'', e)]"
    "execute L K ses (cache_request ses GET_CONTRACT context ref input') w2 =
      (bounded_result L K ses (if t < v_now (store (w_ext (rs_world a'))) + ttl_ms
         then (PDict [(PStr ''hit'', PBool True), (PStr ''entry'', e)], ''hit'') else (PDict [(PStr ''hit'', PBool False)], ''miss'')), w3)"
    by auto
  have ttl: "0 < ttl_ms" "ttl_ms \<le> ttl_maximum_ms (ttl (rt_settings rt))"
    using effective_ttl_range [OF vc(4) r(4)] r(4) by (auto simp: effective_ttl_ms_eq_Inr ttl_cap_def split: option.splits)
  have asked: "\<forall>i. dict_get input ''ttlMs'' PNone = PInt i \<and> x \<noteq> PNone \<longrightarrow> ttl_ms \<le> i"
    using r(3,4) by (auto simp: optional_int_def effective_ttl_ms_eq_Inr selected_ttl_def split: if_splits)
  have bound: "int (length key) \<le> max_key_bytes (limits (rt_settings rt))" using physical_key_bound [OF key] vc(5) by simp
  show ?thesis by (intro conjI exI) (rule session [THEN conjunct1] pin key bound ttl asked r)+
qed

text \<open>
  C15: advancing the generation invalidates everything. Two caches on one engine whose encoders have different
  namespace generations do not see each other, whatever their namespaces, settings, resources and
  keys: a value put through one leaves every answer of the other as it was.
\<close>

theorem generation_isolates:
  assumes "engine_contract (vc_client vc) (vc_host vc) good store loaded" "engine_contract (vc_client vc') (vc_host vc') good store loaded'"
    "lawful_json L" "wf_settings (vc_settings vc)" "utf8_ok (rr_canonical ref)" "utf8_ok (rr_canonical ref')"
    "KeyEncoder ns (PInt g) mx = Inr (vc_key_encoder vc)" "KeyEncoder ns' (PInt g') mx' = Inr (vc_key_encoder vc')" "g \<noteq> g'"
    "physical_key L vc' context' ref' k' PNone = Inr (key', policy')" "good (w_ext w)"
    "put L vc context ref k x req source w = (Inr d, w1)"
  shows "fst (lookup L vc' context' ref' k' w1) = fst (lookup L vc' context' ref' k' w)"
proof -
  obtain key policy where key: "physical_key L vc context ref k PNone = Inr (key, policy)" by (rule put_has_key [OF assms(12)])
  obtain ttl_ms where ttl: "effective_ttl_ms (vc_settings vc) policy req (x = PNone \<and> rp_negative_caching policy) = Inr ttl_ms"
    using assms(12) by (auto simp: put_def key run_simps)
  have "refines good store (put L vc context ref k x req source) (spec_put L vc policy key x ttl_ms source) w"
    by (rule cache_contract.put_refines [OF cache_contract.intro [OF assms(1)] assms(11,5) key ttl])
      (use effective_ttl_range [OF assms(4) ttl] in simp)
  with assms(12) have good: "good (w_ext w1)" and sp: "spec_put L vc policy key x ttl_ms source (store (w_ext w)) = (Inr d, store (w_ext w1))"
    by (auto simp: refines_def)
  have "adapter_key L (vc_key_encoder vc) key" "adapter_key L (vc_key_encoder vc') key'"
    using key assms(10) by (auto simp: physical_key_def adapter_key_def res_simps)
  moreover have "ke_namespace_generation (vc_key_encoder vc) \<noteq> ke_namespace_generation (vc_key_encoder vc')"
    using wf_KeyEncoder(3) [OF assms(7)] wf_KeyEncoder(3) [OF assms(8)] assms(9) by simp
  ultimately have "key' \<noteq> key"
    using adapter_keys_differ [OF wf_KeyEncoder(1) [OF assms(7)] wf_KeyEncoder(1) [OF assms(8)]] by blast
  then have "v_entries (store (w_ext w1)) key' = v_entries (store (w_ext w)) key'" using spec_put_frame [OF sp] by blast
  moreover have "v_now (store (w_ext w1)) = v_now (store (w_ext w))" by (rule spec_put_Inr [OF sp]) simp
  ultimately have cell: "cell_of L vc' policy' key' (store (w_ext w1)) = cell_of L vc' policy' key' (store (w_ext w))"
    by (simp add: cell_of_def v_get_def cong: option.case_cong)
  have "fst (lookup L vc' context' ref' k' u) = fst (spec_lookup L vc' policy' key' (store (w_ext u)))" if "good (w_ext u)" for u
    using cache_contract.lookup_refines [OF cache_contract.intro [OF assms(2)] that assms(6,10)] by (auto simp: refines_def split: prod.splits)
  then show ?thesis
    using good assms(11) cell by (simp add: spec_lookup_def split: cell.split)
qed

subsection \<open>Examples\<close>

theorem service_round_trip_witness:
  "\<exists>n a r w1 e w3. reachable ref_core (sample_runtime n) a \<and> rs_opened a \<and>
    (let ses = ValkeyAdapterSession (rt_cache (sample_runtime n)) ''binding'' n in
     execute ref_lib ref_core ses (cache_request ses PUT_CONTRACT sample_context sample_ref sample_input) (rs_world a) = (Inr r, w1) \<and>
     xr_data r = PDict [(PStr ''stored'', PBool True), (PStr ''entry'', e)] \<and>
     execute ref_lib ref_core ses (cache_request ses GET_CONTRACT sample_context sample_ref sample_input)
       (w1\<lparr>w_ext := (w_ext w1)\<lparr>f_now_ms := 1700086400000\<rparr>\<rparr>) = (bounded_result ref_lib ref_core ses (PDict [(PStr ''hit'', PBool False)], ''miss''), w3))"
proof -
  obtain key n r w1 where k: "physical_key ref_lib sample_cache sample_context sample_ref (PStr ''u1'') PNone = Inr (key, sample_policy)"
    and run: "execute ref_lib ref_core (sample_session n) (cache_request (sample_session n) PUT_CONTRACT sample_context sample_ref sample_input) sample_world = (Inr r, w1)"
    and good: "fake_good (w_ext w1)" and now: "f_now_ms (w_ext w1) = 1700000000000" by (rule sample_executed)
  obtain a where "reachable ref_core (sample_runtime n) a" "rs_opened a" by (rule sample_opened)
  then have a: "reachable ref_core (sample_runtime n) (a\<lparr>rs_world := sample_world\<rparr>)" "rs_opened (a\<lparr>rs_world := sample_world\<rparr>)"
    by (auto intro: reachable_step step_elsewhere)
  have rt: "rt_cache (sample_runtime n) = sample_cache" "bd_id (cc_binding (rt_context (sample_runtime n))) = ''binding''"
    "bd_max_result_bytes (cc_binding (rt_context (sample_runtime n))) = n" "ch_client (rt_handle (sample_runtime n)) = fake_client"
    "rt_settings (sample_runtime n) = sample_settings"
    by (simp_all add: sample_runtime_def sample_create_def sample_binding_def)
  have "\<not> rs_closed a" using reachable_inv [OF a(1)] a(2) by (simp add: runtime_inv_def)
  with a(2) have session: "runtime_open_session (sample_runtime n) False (a\<lparr>rs_world := sample_world\<rparr>) = (Inr (sample_session n), a\<lparr>rs_world := sample_world\<rparr>)"
    by (simp add: runtime_open_session_def thenM_def bindM_def ensure_open_run rt sample_session_def)
  let ?w2 = "w1\<lparr>w_ext := (w_ext w1)\<lparr>f_now_ms := 1700086400000\<rparr>\<rparr>"
  have t: "f_now_ms (w_ext w1) \<le> 1700086400000" using now by simp
  have w2: "fake_good (w_ext ?w2)" "fake_view (w_ext ?w2) = v_at 1700086400000 (fake_view (w_ext w1))"
    using fake_advance [OF good t] by simp_all
  have input: "dict_item sample_input ''key'' = Inr (PStr ''u1'')" by (simp add: sample_input_def dict_item_def)
  have contract: "engine_contract (ch_client (rt_handle (sample_runtime n))) (fake_host 10) fake_good fake_view (\<lambda>s. set (f_scripts s))"
    unfolding rt(4) by (rule fake.engine_contract_axioms)
  have start: "fake_good (w_ext (rs_world (a\<lparr>rs_world := sample_world\<rparr>)))" by simp
  have put: "execute ref_lib ref_core (sample_session n) (cache_request (sample_session n) PUT_CONTRACT sample_context sample_ref sample_input)
      (rs_world (a\<lparr>rs_world := sample_world\<rparr>)) = (Inr r, w1)" using run by simp
  from service_round_trip [OF sample_created contract lawful_ref_lib sample_utf8 a(1) session input input start put w2]
  obtain ttl_ms d e w3 where "ttl_ms \<le> ttl_maximum_ms (ttl sample_settings)"
    "xr_data r = PDict [(PStr ''stored'', PBool True), (PStr ''entry'', e)]"
    "execute ref_lib ref_core (sample_session n) (cache_request (sample_session n) GET_CONTRACT sample_context sample_ref sample_input) ?w2 =
      (bounded_result ref_lib ref_core (sample_session n) (if 1700086400000 < v_now (fake_view (w_ext sample_world)) + ttl_ms
         then (PDict [(PStr ''hit'', PBool True), (PStr ''entry'', e)], ''hit'') else (PDict [(PStr ''hit'', PBool False)], ''miss'')), w3)"
    by (auto simp: rt)
  moreover have "ttl_maximum_ms (ttl sample_settings) \<le> 86400000" by (simp add: sample_settings_def)
  ultimately have get: "execute ref_lib ref_core (sample_session n) (cache_request (sample_session n) GET_CONTRACT sample_context sample_ref sample_input) ?w2 =
      (bounded_result ref_lib ref_core (sample_session n) (PDict [(PStr ''hit'', PBool False)], ''miss''), w3)"
    and data: "xr_data r = PDict [(PStr ''stored'', PBool True), (PStr ''entry'', e)]" by simp_all
  have "ValkeyAdapterSession (rt_cache (sample_runtime n)) ''binding'' n = sample_session n" by (simp add: rt(1) sample_session_def)
  with a put data get show ?thesis unfolding Let_def by metis
qed

theorem generation_isolates_witness:
  "\<exists>key d w1. physical_key ref_lib (fake_cache (sample_encoder 2) sample_codec sample_settings 10) sample_context sample_ref (PStr ''u1'') PNone =
      Inr (key, sample_policy) \<and>
    put ref_lib sample_cache sample_context sample_ref (PStr ''u1'') (PStr ''hello'') PNone PNone sample_world = (Inr d, w1) \<and>
    fst (lookup ref_lib (fake_cache (sample_encoder 2) sample_codec sample_settings 10) sample_context sample_ref (PStr ''u1'') w1) =
    fst (lookup ref_lib (fake_cache (sample_encoder 2) sample_codec sample_settings 10) sample_context sample_ref (PStr ''u1'') sample_world)"
proof -
  let ?vc = "fake_cache (sample_encoder 2) sample_codec sample_settings 10"
  obtain key lkey where k: "physical_key ref_lib ?vc sample_context sample_ref (PStr ''u1'') PNone = Inr (key, sample_policy)"
    by (rule sample_physical_keys [of "''u1''" 2]) simp_all
  obtain d w1 where put: "put ref_lib sample_cache sample_context sample_ref (PStr ''u1'') (PStr ''hello'') PNone PNone sample_world = (Inr d, w1)"
    by (rule sample_put)
  have e1: "KeyEncoder ''app'' (PInt 1) 512 = Inr (vc_key_encoder sample_cache)" using sample_encoder_ok [of 1] by simp
  have e2: "KeyEncoder ''app'' (PInt 2) 512 = Inr (vc_key_encoder ?vc)" using sample_encoder_ok [of 2] by simp
  have c: "engine_contract (vc_client sample_cache) (vc_host sample_cache) fake_good fake_view (\<lambda>s. set (f_scripts s))"
    "engine_contract (vc_client ?vc) (vc_host ?vc) fake_good fake_view (\<lambda>s. set (f_scripts s))"
    unfolding sample_cache_simps fake_cache_simps by (rule fake.engine_contract_axioms)+
  have wf: "wf_settings (vc_settings sample_cache)" and good: "fake_good (w_ext sample_world)" by (simp_all add: wf_sample_settings)
  have "(1::int) \<noteq> 2" by simp
  from generation_isolates [OF c lawful_ref_lib wf sample_utf8 sample_utf8 e1 e2 this k good put] k put show ?thesis by blast
qed

end
